theory Spec2Isabelle
  imports Main "HOL-Library.Word" "HOL-Library.AList"
begin

section \<open>Vault-key sealing of pkg/pillar/evetpm/tpm.go\<close>

text \<open>
  The Go package drives two outside resources: the security module behind
  \<^verbatim>\<open>/dev/tpmrm0\<close> (through the go-tpm library) and the file system. Both are kept in
  one explicit state, \<open>world\<close>, that every operation receives and returns. Go's
  \<^verbatim>\<open>[]byte\<close> and \<^verbatim>\<open>string\<close> are byte lists, Go's \<^verbatim>\<open>int\<close> is \<open>int\<close>
  (the indices met here are far from its bounds), a \<^verbatim>\<open>map[int][]byte\<close> is an association
  list read with \<open>map_of\<close> and written with \<open>AList.update\<close>, whose order stands for Go's
  unspecified iteration order, and a Go \<^verbatim>\<open>error\<close> is a value of the datatype \<open>error\<close>.
\<close>

subsection \<open>Data\<close>

type_synonym bytes = "8 word list"
type_synonym handle = "32 word"

datatype hash_alg = AlgSHA1 | AlgSHA256

record PCRSelection =
  Hash :: hash_alg
  PCRs :: "int list"

type_synonym pcr_map = "(int \<times> bytes) list"

text \<open>Commands of the module, as far as a fault can be injected into them.\<close>

datatype tpm_cmd =
    CmdNVUndefineSpace handle
  | CmdNVDefineSpace handle
  | CmdNVWrite handle
  | CmdNVReadEx handle
  | CmdStartAuthSession
  | CmdPolicyPCR
  | CmdPolicyGetDigest
  | CmdFlushContext
  | CmdSeal
  | CmdLoad
  | CmdUnseal
  | CmdReadPCR
  | CmdGetRandom

text \<open>Response codes of the module.\<close>

datatype tpm_rc =
    RCFault nat
  | RCHandle
  | RCNVDefined
  | RCNVRange
  | RCNVUninitialized
  | RCPolicyFail
  | RCValue

datatype fs_op =
    OpReadFile string
  | OpOpen string
  | OpWrite string
  | OpRename string string
  | OpRemove string

text \<open>
  Errors. \<open>ErrWrap ctx e\<close> is \<^verbatim>\<open>fmt.Errorf("ctx: %w", e)\<close> (or \<^verbatim>\<open>%v\<close>);
  \<open>ErrCount ctx n\<close> is a message that embeds the count \<open>n\<close>; \<open>ErrUnseal\<close> is the message built
  at the end of \<^verbatim>\<open>UnsealDiskKey\<close> from the module's error, the outcome of the
  measurement-log copy (\<open>None\<close>: copied) and the outcome of the mismatch search.
\<close>

datatype error =
    ErrOpenTPM
  | ErrTpm tpm_rc
  | ErrOs fs_op
  | ErrGobDecode
  | ErrMsg string
  | ErrWrap string error
  | ErrCount string int
  | ErrSavedPCRMissing int
  | ErrUnseal error "error option" "error + int list"

text \<open>
  A file holds raw bytes, or the gob stream of a \<^verbatim>\<open>map[int][]byte\<close>. The gob codec
  belongs to Go's standard library; a stream it wrote is kept as the map it decodes to.
\<close>

datatype file_data = Raw bytes | GobPCRs pcr_map

datatype PCRBank256Status =
    PCRBank256StatusUnknown
  | PCRBank256StatusSupported
  | PCRBank256StatusNotSupported

datatype SealedKeyType =
    SealedKeyTypeUnknown
  | SealedKeyTypeReused
  | SealedKeyTypeNew
  | SealedKeyTypeUnprotected

text \<open>
  The state. The module: whether the device opens, the fault oracle (a command that
  the oracle marks fails with the given code and changes nothing), the NV indices (size
  and, once written, contents), the PCR banks, the live policy sessions with their policy
  digest, the loaded objects (authorisation policy and sealed data), the handle counter
  and the random-number generator. The digest that \<^verbatim>\<open>PolicyPCR\<close> computes over a
  selection and the register values is the parameter \<open>policy_digest\<close>.
  The file system: the files, the fault oracle of the system calls, and the directories
  that match \<^verbatim>\<open>/hostfs/sys/kernel/security/tpm*\<close>.
  The package's cached \<^verbatim>\<open>pcrBank256Status\<close>.
  The constants of package \<^verbatim>\<open>types\<close>, which the source imports and does not define.
\<close>

record world =
  tpm_present :: bool
  tpm_fault :: "tpm_cmd \<Rightarrow> tpm_rc option"
  nv :: "handle \<rightharpoonup> nat \<times> bytes option"
  pcr :: "hash_alg \<Rightarrow> int \<rightharpoonup> bytes"
  sessions :: "handle \<rightharpoonup> bytes"
  objects :: "handle \<rightharpoonup> bytes \<times> bytes"
  next_handle :: handle
  rng :: "nat \<Rightarrow> 8 word"
  rng_pos :: nat
  policy_digest :: "PCRSelection \<Rightarrow> bytes list \<Rightarrow> bytes"
  files :: "string \<rightharpoonup> file_data"
  fs_fault :: "fs_op \<Rightarrow> bool"
  sysfs_tpm_dirs :: "string list"
  pcrBank256Status :: PCRBank256Status
  IdentityDirname :: string
  PersistStatusDir :: string
  DeviceCertName :: string
  DeviceKeyName :: string

subsection \<open>Constants\<close>

definition TpmSRKHdl :: handle where "TpmSRKHdl = 0x81000002"
definition TpmDiskKeyHdl :: handle where "TpmDiskKeyHdl = 0x1700000"
definition TpmSealedDiskPrivHdl :: handle where "TpmSealedDiskPrivHdl = 0x1800000"
definition TpmSealedDiskPubHdl :: handle where "TpmSealedDiskPubHdl = 0x1900000"

definition MaxPasswdLength :: nat where "MaxPasswdLength = 7"
definition vaultKeyLength :: nat where "vaultKeyLength = 32"

definition TpmCredentialsFileName :: "world \<Rightarrow> string" where
  "TpmCredentialsFileName w = IdentityDirname w @ ''/tpm_credential''"

definition TpmSavedDiskSealingPcrs :: "world \<Rightarrow> string" where
  "TpmSavedDiskSealingPcrs w = PersistStatusDir w @ ''/sealingpcrs''"

definition MeasurementLogSealSuccess :: "world \<Rightarrow> string" where
  "MeasurementLogSealSuccess w = PersistStatusDir w @ ''/tpm_measurement_seal_success''"

definition MeasurementLogUnsealFail :: "world \<Rightarrow> string" where
  "MeasurementLogUnsealFail w = PersistStatusDir w @ ''/tpm_measurement_unseal_fail''"

definition measurementLogFile :: string where
  "measurementLogFile = ''binary_bios_measurements''"

definition DiskKeySealingPCRs :: PCRSelection where
  "DiskKeySealingPCRs = \<lparr>Hash = AlgSHA256, PCRs = [0, 1, 2, 3, 4, 6, 7, 8, 9, 13, 14]\<rparr>"

text \<open>\<^verbatim>\<open>%d\<close> of a non-negative integer.\<close>

fun decimal :: "nat \<Rightarrow> string" where
  "decimal n =
     (if n < 10 then [char_of (48 + n)]
      else decimal (n div 10) @ [char_of (48 + n mod 10)])"

declare decimal.simps [simp del]

text \<open>\<^verbatim>\<open>TpmEvtLogSavePattern = "%s-tpm%d"\<close> and \<^verbatim>\<open>TpmEvtLogCollectPattern = "%s-backup"\<close>.\<close>

definition TpmEvtLogSavePattern :: "string \<Rightarrow> nat \<Rightarrow> string" where
  "TpmEvtLogSavePattern base i = base @ ''-tpm'' @ decimal i"

definition TpmEvtLogCollectPattern :: "string \<Rightarrow> string" where
  "TpmEvtLogCollectPattern p = p @ ''-backup''"

subsection \<open>The file system\<close>

text \<open>
  \<^verbatim>\<open>os.ReadFile\<close>, \<^verbatim>\<open>os.Rename\<close>, \<^verbatim>\<open>os.Remove\<close> and \<^verbatim>\<open>os.Open\<close> followed by
  \<^verbatim>\<open>gob.Decode\<close>. A call fails when the oracle marks it or when its source file is
  missing, and then changes nothing.
\<close>

definition os_ReadFile :: "world \<Rightarrow> string \<Rightarrow> error + file_data" where
  "os_ReadFile w p =
     (if fs_fault w (OpReadFile p) then Inl (ErrOs (OpReadFile p))
      else case files w p of
             None \<Rightarrow> Inl (ErrOs (OpReadFile p))
           | Some c \<Rightarrow> Inr c)"

definition os_Rename :: "string \<Rightarrow> string \<Rightarrow> world \<Rightarrow> error option \<times> world" where
  "os_Rename src dst w =
     (if fs_fault w (OpRename src dst) then (Some (ErrOs (OpRename src dst)), w)
      else case files w src of
             None \<Rightarrow> (Some (ErrOs (OpRename src dst)), w)
           | Some c \<Rightarrow> (None, w\<lparr>files := ((files w)(src := None))(dst \<mapsto> c)\<rparr>))"

definition os_Remove :: "string \<Rightarrow> world \<Rightarrow> error option \<times> world" where
  "os_Remove p w =
     (if fs_fault w (OpRemove p) then (Some (ErrOs (OpRemove p)), w)
      else case files w p of
             None \<Rightarrow> (Some (ErrOs (OpRemove p)), w)
           | Some c \<Rightarrow> (None, w\<lparr>files := (files w)(p := None)\<rparr>))"

definition gob_Decode_file :: "world \<Rightarrow> string \<Rightarrow> error + pcr_map" where
  "gob_Decode_file w p =
     (if fs_fault w (OpOpen p) then Inl (ErrOs (OpOpen p))
      else case files w p of
             None \<Rightarrow> Inl (ErrOs (OpOpen p))
           | Some (Raw b) \<Rightarrow> Inl ErrGobDecode
           | Some (GobPCRs m) \<Rightarrow> Inr m)"

text \<open>
  Modelled from the spec: \<^verbatim>\<open>fileutils.FileExists\<close> and \<^verbatim>\<open>fileutils.WriteRename\<close>
  are functions of this repository that are not among the sources. The first tells
  whether the path exists; the second writes the contents to the destination path as a
  whole, or fails and leaves it as it was.
\<close>

definition FileExists :: "world \<Rightarrow> string \<Rightarrow> bool" where
  "FileExists w p = (files w p \<noteq> None)"

definition WriteRename :: "string \<Rightarrow> file_data \<Rightarrow> world \<Rightarrow> error option \<times> world" where
  "WriteRename p c w =
     (if fs_fault w (OpWrite p) then (Some (ErrOs (OpWrite p)), w)
      else (None, w\<lparr>files := (files w)(p \<mapsto> c)\<rparr>))"

text \<open>The bytes of a file read as a string.\<close>

fun file_bytes :: "file_data \<Rightarrow> bytes" where
  "file_bytes (Raw b) = b"
| "file_bytes (GobPCRs m) = concat (map (\<lambda>(i, v). word_of_int i # v) m)"

subsection \<open>The owner credential\<close>

text \<open>\<^verbatim>\<open>ReadOwnerCrdl\<close> (tpm.go, 200-210).\<close>

definition ReadOwnerCrdl :: "world \<Rightarrow> error + bytes" where
  "ReadOwnerCrdl w =
     (case os_ReadFile w (TpmCredentialsFileName w) of
        Inl err \<Rightarrow> Inl err
      | Inr tpmOwnerPasswdBytes \<Rightarrow>
          (let tpmOwnerPasswd = file_bytes tpmOwnerPasswdBytes
           in if length tpmOwnerPasswd > MaxPasswdLength
              then Inr (take MaxPasswdLength tpmOwnerPasswd)
              else Inr tpmOwnerPasswd))"

subsection \<open>The security module\<close>

text \<open>
  The go-tpm calls the package makes. An injected fault comes first; otherwise the call
  fails for the reason the module would give (an index or handle that does not exist, an
  index already defined, data longer than the index, an index never written, a policy
  that the session does not satisfy, a register that the bank does not have). The seal
  primitive is idealised: the private blob stands for the protected secret and holds its
  bytes, the public blob holds the authorisation policy.
\<close>

definition OpenTPM :: "world \<Rightarrow> bool" where
  "OpenTPM w = tpm_present w"

definition HandleNull :: handle where "HandleNull = 0x40000007"

definition NVUndefineSpace :: "handle \<Rightarrow> world \<Rightarrow> error option \<times> world" where
  "NVUndefineSpace h w =
     (case tpm_fault w (CmdNVUndefineSpace h) of
        Some rc \<Rightarrow> (Some (ErrTpm rc), w)
      | None \<Rightarrow>
          (case nv w h of
             None \<Rightarrow> (Some (ErrTpm RCHandle), w)
           | Some x \<Rightarrow> (None, w\<lparr>nv := (nv w)(h := None)\<rparr>)))"

definition NVDefineSpace :: "handle \<Rightarrow> nat \<Rightarrow> world \<Rightarrow> error option \<times> world" where
  "NVDefineSpace h sz w =
     (case tpm_fault w (CmdNVDefineSpace h) of
        Some rc \<Rightarrow> (Some (ErrTpm rc), w)
      | None \<Rightarrow>
          (case nv w h of
             Some x \<Rightarrow> (Some (ErrTpm RCNVDefined), w)
           | None \<Rightarrow> (None, w\<lparr>nv := (nv w)(h \<mapsto> (sz, None))\<rparr>)))"

definition NVWrite :: "handle \<Rightarrow> bytes \<Rightarrow> world \<Rightarrow> error option \<times> world" where
  "NVWrite h d w =
     (case tpm_fault w (CmdNVWrite h) of
        Some rc \<Rightarrow> (Some (ErrTpm rc), w)
      | None \<Rightarrow>
          (case nv w h of
             None \<Rightarrow> (Some (ErrTpm RCHandle), w)
           | Some (sz, old) \<Rightarrow>
               if length d > sz then (Some (ErrTpm RCNVRange), w)
               else (None, w\<lparr>nv := (nv w)(h \<mapsto> (sz, Some (d @ drop (length d)
                       (case old of None \<Rightarrow> replicate sz 0 | Some b \<Rightarrow> b))))\<rparr>)))"

definition NVReadEx :: "world \<Rightarrow> handle \<Rightarrow> error + bytes" where
  "NVReadEx w h =
     (case tpm_fault w (CmdNVReadEx h) of
        Some rc \<Rightarrow> Inl (ErrTpm rc)
      | None \<Rightarrow>
          (case nv w h of
             None \<Rightarrow> Inl (ErrTpm RCHandle)
           | Some (sz, None) \<Rightarrow> Inl (ErrTpm RCNVUninitialized)
           | Some (sz, Some d) \<Rightarrow> Inr d))"

definition ReadPCR :: "world \<Rightarrow> int \<Rightarrow> hash_alg \<Rightarrow> error + bytes" where
  "ReadPCR w i alg =
     (case tpm_fault w CmdReadPCR of
        Some rc \<Rightarrow> Inl (ErrTpm rc)
      | None \<Rightarrow>
          (case pcr w alg i of
             None \<Rightarrow> Inl (ErrTpm RCValue)
           | Some d \<Rightarrow> Inr d))"

definition tpm2_GetRandom :: "nat \<Rightarrow> world \<Rightarrow> (error + bytes) \<times> world" where
  "tpm2_GetRandom n w =
     (case tpm_fault w CmdGetRandom of
        Some rc \<Rightarrow> (Inl (ErrTpm rc), w)
      | None \<Rightarrow> (Inr (map (rng w) [rng_pos w ..< rng_pos w + n]),
                 w\<lparr>rng_pos := rng_pos w + n\<rparr>))"

definition StartAuthSession :: "world \<Rightarrow> (error + handle) \<times> world" where
  "StartAuthSession w =
     (case tpm_fault w CmdStartAuthSession of
        Some rc \<Rightarrow> (Inl (ErrTpm rc), w)
      | None \<Rightarrow> (Inr (next_handle w),
                 w\<lparr>sessions := (sessions w)(next_handle w \<mapsto> replicate 32 0),
                   next_handle := next_handle w + 1\<rparr>))"

definition selected_values :: "world \<Rightarrow> PCRSelection \<Rightarrow> bytes list option" where
  "selected_values w sel = those (map (pcr w (Hash sel)) (PCRs sel))"

definition PolicyPCR :: "handle \<Rightarrow> PCRSelection \<Rightarrow> world \<Rightarrow> error option \<times> world" where
  "PolicyPCR session sel w =
     (case tpm_fault w CmdPolicyPCR of
        Some rc \<Rightarrow> (Some (ErrTpm rc), w)
      | None \<Rightarrow>
          (case sessions w session of
             None \<Rightarrow> (Some (ErrTpm RCHandle), w)
           | Some old \<Rightarrow>
               (case selected_values w sel of
                  None \<Rightarrow> (Some (ErrTpm RCValue), w)
                | Some vals \<Rightarrow>
                    (None, w\<lparr>sessions := (sessions w)(session \<mapsto> policy_digest w sel vals)\<rparr>))))"

definition PolicyGetDigest :: "world \<Rightarrow> handle \<Rightarrow> error + bytes" where
  "PolicyGetDigest w session =
     (case tpm_fault w CmdPolicyGetDigest of
        Some rc \<Rightarrow> Inl (ErrTpm rc)
      | None \<Rightarrow>
          (case sessions w session of
             None \<Rightarrow> Inl (ErrTpm RCHandle)
           | Some d \<Rightarrow> Inr d))"

definition FlushContext :: "handle \<Rightarrow> world \<Rightarrow> error option \<times> world" where
  "FlushContext h w =
     (case tpm_fault w CmdFlushContext of
        Some rc \<Rightarrow> (Some (ErrTpm rc), w)
      | None \<Rightarrow>
          if sessions w h \<noteq> None then (None, w\<lparr>sessions := (sessions w)(h := None)\<rparr>)
          else if objects w h \<noteq> None then (None, w\<lparr>objects := (objects w)(h := None)\<rparr>)
          else (Some (ErrTpm RCHandle), w))"

definition tpm2_Seal :: "world \<Rightarrow> handle \<Rightarrow> bytes \<Rightarrow> bytes \<Rightarrow> error + bytes \<times> bytes" where
  "tpm2_Seal w parent policy sensitiveData =
     (case tpm_fault w CmdSeal of
        Some rc \<Rightarrow> Inl (ErrTpm rc)
      | None \<Rightarrow> Inr (sensitiveData, policy))"

definition tpm2_Load :: "handle \<Rightarrow> bytes \<Rightarrow> bytes \<Rightarrow> world \<Rightarrow> (error + handle) \<times> world" where
  "tpm2_Load parent pub priv w =
     (case tpm_fault w CmdLoad of
        Some rc \<Rightarrow> (Inl (ErrTpm rc), w)
      | None \<Rightarrow> (Inr (next_handle w),
                 w\<lparr>objects := (objects w)(next_handle w \<mapsto> (pub, priv)),
                   next_handle := next_handle w + 1\<rparr>))"

definition UnsealWithSession :: "world \<Rightarrow> handle \<Rightarrow> handle \<Rightarrow> error + bytes" where
  "UnsealWithSession w session obj =
     (case tpm_fault w CmdUnseal of
        Some rc \<Rightarrow> Inl (ErrTpm rc)
      | None \<Rightarrow>
          (case (sessions w session, objects w obj) of
             (Some d, Some (policy, sensitiveData)) \<Rightarrow>
               if d = policy then Inr sensitiveData else Inl (ErrTpm RCPolicyFail)
           | _ \<Rightarrow> Inl (ErrTpm RCHandle)))"

text \<open>A deferred \<^verbatim>\<open>tpm2.FlushContext\<close>: its error is dropped.\<close>

definition deferred_Flush :: "handle \<Rightarrow> world \<Rightarrow> world" where
  "deferred_Flush h w = snd (FlushContext h w)"

subsection \<open>Random bytes and the legacy key\<close>

text \<open>\<^verbatim>\<open>GetRandom\<close> (250-258), \<^verbatim>\<open>writeDiskKey\<close> (439-469), \<^verbatim>\<open>readDiskKey\<close> (471-485),
  \<^verbatim>\<open>FetchVaultKey\<close> (404-437). \<^verbatim>\<open>uint16(len(key))\<close> is the length modulo \<open>2^16\<close>.\<close>

definition GetRandom :: "nat \<Rightarrow> world \<Rightarrow> (error + bytes) \<times> world" where
  "GetRandom numBytes w =
     (if \<not> OpenTPM w then (Inl ErrOpenTPM, w)
      else tpm2_GetRandom numBytes w)"

definition writeDiskKey :: "bytes \<Rightarrow> world \<Rightarrow> error option \<times> world" where
  "writeDiskKey key w =
     (if \<not> OpenTPM w then (Some ErrOpenTPM, w)
      else
        let w1 = snd (NVUndefineSpace TpmDiskKeyHdl w)
        in case NVDefineSpace TpmDiskKeyHdl (length key mod 65536) w1 of
             (Some err, w2) \<Rightarrow> (Some (ErrWrap ''NVDefineSpace failed'' err), w2)
           | (None, w2) \<Rightarrow>
               (case NVWrite TpmDiskKeyHdl key w2 of
                  (Some err, w3) \<Rightarrow> (Some (ErrWrap ''NVWrite failed'' err), w3)
                | (None, w3) \<Rightarrow> (None, w3)))"

definition readDiskKey :: "world \<Rightarrow> error + bytes" where
  "readDiskKey w =
     (if \<not> OpenTPM w then Inl ErrOpenTPM
      else case NVReadEx w TpmDiskKeyHdl of
             Inl err \<Rightarrow> Inl (ErrWrap ''NVReadEx failed'' err)
           | Inr keyBytes \<Rightarrow> Inr keyBytes)"

definition FetchVaultKey :: "world \<Rightarrow> (error + bytes) \<times> world" where
  "FetchVaultKey w =
     (case readDiskKey w of
        Inl err0 \<Rightarrow>
          (case GetRandom vaultKeyLength w of
             (Inl err, w1) \<Rightarrow> (Inl (ErrWrap ''GetRandom failed'' err), w1)
           | (Inr key, w1) \<Rightarrow>
               (case writeDiskKey key w1 of
                  (Some err, w2) \<Rightarrow> (Inl (ErrWrap ''writing legacy Key to TPM failed'' err), w2)
                | (None, w2) \<Rightarrow> (Inr key, w2)))
      | Inr key \<Rightarrow> (Inr key, w))"

subsection \<open>The measurement-log archive\<close>

text \<open>\<^verbatim>\<open>getMappedTpmsPath\<close> (857-866): \<^verbatim>\<open>filepath.Glob\<close> fails on a malformed pattern
  only, which the constant pattern is not.\<close>

definition getMappedTpmsPath :: "world \<Rightarrow> error + string list" where
  "getMappedTpmsPath w =
     (let paths = sysfs_tpm_dirs w
      in if length paths = 0 then Inl (ErrMsg ''found no TPM in sysfs'')
         else Inr paths)"

text \<open>\<^verbatim>\<open>countMappedTpms\<close> (868-875).\<close>

definition countMappedTpms :: "world \<Rightarrow> error + nat" where
  "countMappedTpms w =
     (case getMappedTpmsPath w of
        Inl err \<Rightarrow> Inl (ErrWrap ''getMappedTpmsPath failed'' err)
      | Inr paths \<Rightarrow> Inr (length paths))"

text \<open>\<^verbatim>\<open>getMeasurementLogFiles\<close> (877-892).\<close>

definition getMeasurementLogFiles :: "world \<Rightarrow> error + string list" where
  "getMeasurementLogFiles w =
     (case getMappedTpmsPath w of
        Inl err \<Rightarrow> Inl (ErrWrap ''getMappedTpmsPath failed'' err)
      | Inr paths \<Rightarrow>
          Inr (filter (FileExists w) (map (\<lambda>path. path @ ''/'' @ measurementLogFile) paths)))"

text \<open>
  \<^verbatim>\<open>backupCopiedMeasurementLogs\<close> (894-926). \<open>backup_body\<close> is the body of the loop for
  one index; it returns whether the index reached \<^verbatim>\<open>leftToBackup--\<close> (every
  \<^verbatim>\<open>continue\<close> skips it). \<open>backup_loop\<close> is the loop with its counter.
\<close>

definition backup_body :: "nat \<Rightarrow> world \<Rightarrow> bool \<times> world" where
  "backup_body i w =
     (let sealSuccessPath = TpmEvtLogSavePattern (MeasurementLogSealSuccess w) i;
          unsealFailPath = TpmEvtLogSavePattern (MeasurementLogUnsealFail w) i
      in if FileExists w sealSuccessPath \<and> FileExists w unsealFailPath then
           (let sealSuccessBackupPath = TpmEvtLogCollectPattern sealSuccessPath;
                unsealFailBackupPath = TpmEvtLogCollectPattern unsealFailPath
            in case os_Rename sealSuccessPath sealSuccessBackupPath w of
                 (Some err, w1) \<Rightarrow> (False, w1)
               | (None, w1) \<Rightarrow>
                   (case os_Rename unsealFailPath unsealFailBackupPath w1 of
                      (Some err, w2) \<Rightarrow>
                        (False, snd (os_Rename sealSuccessBackupPath sealSuccessPath w2))
                    | (None, w2) \<Rightarrow> (True, w2)))
         else (True, w))"

function backup_loop :: "nat \<Rightarrow> nat \<Rightarrow> int \<Rightarrow> world \<Rightarrow> int \<times> world" where
  "backup_loop i counted leftToBackup w =
     (if i < counted then
        (case backup_body i w of
           (True, w1) \<Rightarrow> backup_loop (i + 1) counted (leftToBackup - 1) w1
         | (False, w1) \<Rightarrow> backup_loop (i + 1) counted leftToBackup w1)
      else (leftToBackup, w))"
  by pat_completeness auto
termination
  by (relation "measure (\<lambda>(i, counted, l, w). counted - i)") auto

declare backup_loop.simps [simp del]

definition backupCopiedMeasurementLogs :: "world \<Rightarrow> error option \<times> world" where
  "backupCopiedMeasurementLogs w =
     (case countMappedTpms w of
        Inl err \<Rightarrow> (Some (ErrWrap ''countMappedTPMs failed'' err), w)
      | Inr counted \<Rightarrow>
          (case backup_loop 0 counted (int counted) w of
             (leftToBackup, w1) \<Rightarrow>
               if leftToBackup \<noteq> 0
               then (Some (ErrCount
                      ''failed to backup %d number of previously copied TPM measurement logs''
                      leftToBackup), w1)
               else (None, w1)))"

text \<open>\<^verbatim>\<open>removeCopiedMeasurementLogs\<close> (928-942).\<close>

function remove_loop :: "nat \<Rightarrow> nat \<Rightarrow> world \<Rightarrow> world" where
  "remove_loop i counted w =
     (if i < counted then
        (let sealSuccessPath = TpmEvtLogSavePattern (MeasurementLogSealSuccess w) i;
             unsealFailPath = TpmEvtLogSavePattern (MeasurementLogUnsealFail w) i;
             w1 = snd (os_Remove sealSuccessPath w);
             w2 = snd (os_Remove unsealFailPath w1)
         in remove_loop (i + 1) counted w2)
      else w)"
  by pat_completeness auto
termination
  by (relation "measure (\<lambda>(i, counted, w). counted - i)") auto

declare remove_loop.simps [simp del]

definition removeCopiedMeasurementLogs :: "world \<Rightarrow> error option \<times> world" where
  "removeCopiedMeasurementLogs w =
     (case countMappedTpms w of
        Inl err \<Rightarrow> (Some (ErrWrap ''countMappedTPMs failed'' err), w)
      | Inr counted \<Rightarrow> (None, remove_loop 0 counted w))"

text \<open>\<^verbatim>\<open>copyMeasurementLog\<close> (944-973): the loop over the enumerated log files, with
  the position \<open>i\<close> in the enumeration and the counter.\<close>

fun copy_loop :: "string \<Rightarrow> nat \<Rightarrow> string list \<Rightarrow> int \<Rightarrow> world \<Rightarrow> int \<times> world" where
  "copy_loop dstPath i [] leftToCopy w = (leftToCopy, w)"
| "copy_loop dstPath i (path # paths) leftToCopy w =
     (case os_ReadFile w path of
        Inl err \<Rightarrow> copy_loop dstPath (i + 1) paths leftToCopy w
      | Inr measurementLogContent \<Rightarrow>
          (case WriteRename (TpmEvtLogSavePattern dstPath i) measurementLogContent w of
             (Some err, w1) \<Rightarrow> copy_loop dstPath (i + 1) paths leftToCopy w1
           | (None, w1) \<Rightarrow> copy_loop dstPath (i + 1) paths (leftToCopy - 1) w1))"

definition copyMeasurementLog :: "string \<Rightarrow> world \<Rightarrow> error option \<times> world" where
  "copyMeasurementLog dstPath w =
     (case getMeasurementLogFiles w of
        Inl err \<Rightarrow> (Some (ErrWrap ''enumSourceEventLogFiles failed'' err), w)
      | Inr paths \<Rightarrow>
          (case copy_loop dstPath 0 paths (int (length paths)) w of
             (leftToCopy, w1) \<Rightarrow>
               if leftToCopy \<noteq> 0
               then (Some (ErrCount
                      ''failed to copy %d number of stored measurement log files''
                      leftToCopy), w1)
               else (None, w1)))"

subsection \<open>The PCR snapshot and the mismatch search\<close>

text \<open>\<^verbatim>\<open>readDiskKeySealingPCRs\<close> (1034-1053).\<close>

fun read_loop :: "world \<Rightarrow> int list \<Rightarrow> pcr_map \<Rightarrow> error + pcr_map" where
  "read_loop w [] readPCRs = Inr readPCRs"
| "read_loop w (v # vs) readPCRs =
     (case ReadPCR w v (Hash DiskKeySealingPCRs) of
        Inl err \<Rightarrow> Inl err
      | Inr p \<Rightarrow> read_loop w vs (AList.update v p readPCRs))"

definition readDiskKeySealingPCRs :: "world \<Rightarrow> error + pcr_map" where
  "readDiskKeySealingPCRs w =
     (if \<not> OpenTPM w then Inl ErrOpenTPM
      else read_loop w (PCRs DiskKeySealingPCRs) [])"

text \<open>\<^verbatim>\<open>saveDiskKeySealingPCRs\<close> (975-995).\<close>

definition saveDiskKeySealingPCRs :: "string \<Rightarrow> world \<Rightarrow> error option \<times> world" where
  "saveDiskKeySealingPCRs pcrsFile w =
     (if \<not> OpenTPM w then (Some ErrOpenTPM, w)
      else case readDiskKeySealingPCRs w of
             Inl err \<Rightarrow> (Some err, w)
           | Inr readPCRs \<Rightarrow> WriteRename pcrsFile (GobPCRs readPCRs) w)"

text \<open>\<^verbatim>\<open>findMismatchingPCRs\<close> (997-1032): the loop over the saved entries, then the
  sort.\<close>

fun mismatch_loop :: "pcr_map \<Rightarrow> pcr_map \<Rightarrow> int list \<Rightarrow> error + int list" where
  "mismatch_loop [] readPCRs mismatch = Inr mismatch"
| "mismatch_loop ((i, savedPCR) # rest) readPCRs mismatch =
     (case map_of readPCRs i of
        None \<Rightarrow> Inl (ErrSavedPCRMissing i)
      | Some readPCR \<Rightarrow>
          if readPCR \<noteq> savedPCR then mismatch_loop rest readPCRs (mismatch @ [i])
          else mismatch_loop rest readPCRs mismatch)"

definition findMismatchingPCRs :: "string \<Rightarrow> world \<Rightarrow> error + int list" where
  "findMismatchingPCRs savedPCRsFile w =
     (case gob_Decode_file w savedPCRsFile of
        Inl err \<Rightarrow> Inl err
      | Inr savedPCRs \<Rightarrow>
          (case readDiskKeySealingPCRs w of
             Inl err \<Rightarrow> Inl err
           | Inr readPCRs \<Rightarrow>
               (case mismatch_loop savedPCRs readPCRs [] of
                  Inl err \<Rightarrow> Inl err
                | Inr mismatch \<Rightarrow> Inr (sort mismatch))))"

subsection \<open>Sealing and unsealing\<close>

text \<open>
  \<^verbatim>\<open>PolicyPCRSession\<close> (752-781). The deferred function flushes the session when
  the local \<^verbatim>\<open>err\<close> is set, that is on the two failures after the session started.
\<close>

definition PolicyPCRSession :: "PCRSelection \<Rightarrow> world \<Rightarrow> (error + handle \<times> bytes) \<times> world" where
  "PolicyPCRSession pcrSel w =
     (case StartAuthSession w of
        (Inl err, w1) \<Rightarrow> (Inl (ErrWrap ''StartAuthSession failed'' err), w1)
      | (Inr session, w1) \<Rightarrow>
          (case PolicyPCR session pcrSel w1 of
             (Some err, w2) \<Rightarrow>
               (Inl (ErrWrap ''PolicyPCR failed'' err),
                if session \<noteq> HandleNull then deferred_Flush session w2 else w2)
           | (None, w2) \<Rightarrow>
               (case PolicyGetDigest w2 session of
                  Inl err \<Rightarrow>
                    (Inl (ErrWrap ''PolicyGetDigest failed'' err),
                     if session \<noteq> HandleNull then deferred_Flush session w2 else w2)
                | Inr policy \<Rightarrow> (Inr (session, policy), w2))))"

text \<open>\<^verbatim>\<open>SealDiskKey\<close> (575-678).\<close>

definition SealDiskKey :: "bytes \<Rightarrow> PCRSelection \<Rightarrow> world \<Rightarrow> error option \<times> world" where
  "SealDiskKey key pcrSel w =
     (if \<not> OpenTPM w then (Some ErrOpenTPM, w)
      else
        let wa = snd (NVUndefineSpace TpmSealedDiskPubHdl w);
            wb = snd (NVUndefineSpace TpmSealedDiskPrivHdl wa)
        in case PolicyPCRSession pcrSel wb of
          (Inl err, w1) \<Rightarrow> (Some (ErrWrap ''PolicyPCRSession failed'' err), w1)
        | (Inr (session, policy), w1) \<Rightarrow>
        (case FlushContext session w1 of
          (Some err, w2) \<Rightarrow> (Some (ErrWrap ''flushing session handle failed'' err), w2)
        | (None, w2) \<Rightarrow>
        (case tpm2_Seal w2 TpmSRKHdl policy key of
          Inl err \<Rightarrow> (Some (ErrWrap ''sealing the disk key into TPM failed'' err), w2)
        | Inr (priv, public) \<Rightarrow>
        (case NVDefineSpace TpmSealedDiskPrivHdl (length priv mod 65536) w2 of
          (Some err, w3) \<Rightarrow> (Some (ErrWrap ''NVDefineSpace TpmSealedDiskPrivHdl failed'' err), w3)
        | (None, w3) \<Rightarrow>
        (case NVWrite TpmSealedDiskPrivHdl priv w3 of
          (Some err, w4) \<Rightarrow> (Some (ErrWrap ''NVWrite TpmSealedDiskPrivHdl failed'' err), w4)
        | (None, w4) \<Rightarrow>
        (case NVDefineSpace TpmSealedDiskPubHdl (length public mod 65536) w4 of
          (Some err, w5) \<Rightarrow> (Some (ErrWrap ''NVDefineSpace TpmSealedDiskPubHdl failed'' err), w5)
        | (None, w5) \<Rightarrow>
        (case NVWrite TpmSealedDiskPubHdl public w5 of
          (Some err, w6) \<Rightarrow> (Some (ErrWrap ''NVWrite TpmSealedDiskPubHdl failed'' err), w6)
        | (None, w6) \<Rightarrow>
        (case saveDiskKeySealingPCRs (TpmSavedDiskSealingPcrs w6) w6 of
          (Some err, w7) \<Rightarrow> (Some (ErrWrap ''saving snapshot of sealing PCRs failed'' err), w7)
        | (None, w7) \<Rightarrow>
        (case backupCopiedMeasurementLogs w7 of
          (Some err, w8) \<Rightarrow>
            (Some (ErrWrap ''collecting previous snapshot of TPM event log failed'' err), w8)
        | (None, w8) \<Rightarrow>
        (case removeCopiedMeasurementLogs w8 of
          (Some err, w9) \<Rightarrow>
            (Some (ErrWrap ''removing old copies of TPM measurement log failed'' err), w9)
        | (None, w9) \<Rightarrow>
        (case copyMeasurementLog (MeasurementLogSealSuccess w9) w9 of
          (Some err, w10) \<Rightarrow>
            (Some (ErrWrap ''copying current TPM measurement log failed'' err), w10)
        | (None, w10) \<Rightarrow> (None, w10))))))))))))"

text \<open>\<^verbatim>\<open>isSealedKeyPresent\<close> (680-690) and \<^verbatim>\<open>isLegacyKeyPresent\<close> (692-695).\<close>

definition isSealedKeyPresent :: "world \<Rightarrow> bool" where
  "isSealedKeyPresent w =
     (if \<not> OpenTPM w then False
      else case NVReadEx w TpmSealedDiskPrivHdl of Inl err \<Rightarrow> False | Inr d \<Rightarrow> True)"

definition isLegacyKeyPresent :: "world \<Rightarrow> bool" where
  "isLegacyKeyPresent w = (case readDiskKey w of Inl err \<Rightarrow> False | Inr d \<Rightarrow> True)"

text \<open>
  \<^verbatim>\<open>UnsealDiskKey\<close> (697-750). The two deferred flushes run when the function
  returns, the session first, after the copy of the measurement log and the mismatch
  search of the failure branch.
\<close>

definition UnsealDiskKey :: "PCRSelection \<Rightarrow> world \<Rightarrow> (error + bytes) \<times> world" where
  "UnsealDiskKey pcrSel w =
     (if \<not> OpenTPM w then (Inl ErrOpenTPM, w)
      else case NVReadEx w TpmSealedDiskPrivHdl of
        Inl err \<Rightarrow> (Inl (ErrWrap ''NVReadEx TpmSealedDiskPrivHdl failed'' err), w)
      | Inr priv \<Rightarrow>
      (case NVReadEx w TpmSealedDiskPubHdl of
        Inl err \<Rightarrow> (Inl (ErrWrap ''NVReadEx TpmSealedDiskPubHdl failed'' err), w)
      | Inr pub \<Rightarrow>
      (case tpm2_Load TpmSRKHdl pub priv w of
        (Inl err, w1) \<Rightarrow> (Inl (ErrWrap ''loading the disk key into TPM failed'' err), w1)
      | (Inr sealedObjHandle, w1) \<Rightarrow>
      (case PolicyPCRSession pcrSel w1 of
        (Inl err, w2) \<Rightarrow>
          (Inl (ErrWrap ''PolicyPCRSession failed'' err), deferred_Flush sealedObjHandle w2)
      | (Inr (session, policy), w2) \<Rightarrow>
      (case UnsealWithSession w2 session sealedObjHandle of
        Inl err \<Rightarrow>
          (case copyMeasurementLog (MeasurementLogUnsealFail w2) w2 of
             (evtLogStat, w3) \<Rightarrow>
               (case findMismatchingPCRs (TpmSavedDiskSealingPcrs w3) w3 of
                  Inl errPcrMiss \<Rightarrow>
                    (Inl (ErrUnseal err evtLogStat (Inl errPcrMiss)),
                     deferred_Flush sealedObjHandle (deferred_Flush session w3))
                | Inr mismatch \<Rightarrow>
                    (Inl (ErrUnseal err evtLogStat (Inr mismatch)),
                     deferred_Flush sealedObjHandle (deferred_Flush session w3))))
      | Inr key \<Rightarrow>
          (Inr key, deferred_Flush sealedObjHandle (deferred_Flush session w2)))))))"

subsection \<open>The life cycle of the vault key\<close>

text \<open>\<^verbatim>\<open>IsTpmEnabled\<close> (243-248), \<^verbatim>\<open>pcrBankSHA256EnabledHelper\<close> (840-855) and
  \<^verbatim>\<open>PCRBankSHA256Enabled\<close> (826-838) with its cache.\<close>

definition IsTpmEnabled :: "world \<Rightarrow> bool" where
  "IsTpmEnabled w = (FileExists w (DeviceCertName w) \<and> \<not> FileExists w (DeviceKeyName w))"

definition pcrBankSHA256EnabledHelper :: "world \<Rightarrow> bool" where
  "pcrBankSHA256EnabledHelper w =
     (if \<not> IsTpmEnabled w then False
      else if \<not> OpenTPM w then False
      else case ReadPCR w 0 AlgSHA256 of Inl err \<Rightarrow> False | Inr d \<Rightarrow> True)"

definition PCRBankSHA256Enabled :: "world \<Rightarrow> bool \<times> world" where
  "PCRBankSHA256Enabled w =
     (let w1 = (if pcrBank256Status w = PCRBank256StatusUnknown then
                  (if pcrBankSHA256EnabledHelper w
                   then w\<lparr>pcrBank256Status := PCRBank256StatusSupported\<rparr>
                   else w\<lparr>pcrBank256Status := PCRBank256StatusNotSupported\<rparr>)
                else w)
      in (pcrBank256Status w1 = PCRBank256StatusSupported, w1))"

text \<open>
  \<^verbatim>\<open>FetchSealedVaultKey\<close> (487-573). The two presence flags are read once; each of
  the two conditional blocks either returns its error or falls through to the unseal.
\<close>

definition FetchSealedVaultKey :: "world \<Rightarrow> (error + bytes) \<times> world" where
  "FetchSealedVaultKey w =
     (case PCRBankSHA256Enabled w of
        (False, w0) \<Rightarrow> FetchVaultKey w0
      | (True, w0) \<Rightarrow>
          (let sealedKeyPresent = isSealedKeyPresent w0;
               legacyKeyPresent = isLegacyKeyPresent w0
           in case (if \<not> sealedKeyPresent \<and> \<not> legacyKeyPresent then
                      (case GetRandom vaultKeyLength w0 of
                         (Inl err, w1) \<Rightarrow> (Some (ErrWrap ''GetRandom failed'' err), w1)
                       | (Inr key, w1) \<Rightarrow>
                           (case SealDiskKey key DiskKeySealingPCRs w1 of
                              (Some err, w2) \<Rightarrow>
                                (Some (ErrWrap ''sealing the fresh disk key failed'' err), w2)
                            | (None, w2) \<Rightarrow> (None, w2)))
                    else (None, w0)) of
                (Some err, w2) \<Rightarrow> (Inl err, w2)
              | (None, w2) \<Rightarrow>
                  (case (if \<not> sealedKeyPresent \<and> legacyKeyPresent then
                           (case readDiskKey w2 of
                              Inl err \<Rightarrow>
                                (Some (ErrWrap
                                   ''retrieving the legacy disk key from TPM failed'' err), w2)
                            | Inr key \<Rightarrow>
                                (case SealDiskKey key DiskKeySealingPCRs w2 of
                                   (Some err, w3) \<Rightarrow>
                                     (Some (ErrWrap
                                        ''sealing the legacy disk key into TPM failed'' err), w3)
                                 | (None, w3) \<Rightarrow> (None, w3)))
                         else (None, w2)) of
                     (Some err, w3) \<Rightarrow> (Inl err, w3)
                   | (None, w3) \<Rightarrow> UnsealDiskKey DiskKeySealingPCRs w3)))"

text \<open>\<^verbatim>\<open>CompareLegacyandSealedKey\<close> (783-806).\<close>

definition CompareLegacyandSealedKey :: "world \<Rightarrow> SealedKeyType \<times> world" where
  "CompareLegacyandSealedKey w =
     (if \<not> isSealedKeyPresent w then (SealedKeyTypeUnprotected, w)
      else case readDiskKey w of
             Inl err \<Rightarrow> (SealedKeyTypeNew, w)
           | Inr legacyKey \<Rightarrow>
               (case UnsealDiskKey DiskKeySealingPCRs w of
                  (Inl err, w1) \<Rightarrow> (SealedKeyTypeUnknown, w1)
                | (Inr unsealedKey, w1) \<Rightarrow>
                    if legacyKey = unsealedKey then (SealedKeyTypeReused, w1)
                    else (SealedKeyTypeNew, w1)))"

subsection \<open>Outcomes of the backup rotation\<close>

text \<open>
  The rotation seen from outside: the indices \<open>i, i + 1, ...\<close> are handled in turn,
  each in the state its predecessor left, and each is either handled (\<open>True\<close>) or failed
  (\<open>False\<close>). \<open>rotation_outcomes i n w\<close> lists the outcomes of \<open>n\<close> indices from \<open>i\<close> on and
  gives the final state. It does not count anything; the counter is the loop's.
\<close>

fun rotation_outcomes :: "nat \<Rightarrow> nat \<Rightarrow> world \<Rightarrow> bool list \<times> world" where
  "rotation_outcomes i 0 w = ([], w)"
| "rotation_outcomes i (Suc n) w =
     (case backup_body i w of
        (ok, w1) \<Rightarrow>
          (case rotation_outcomes (Suc i) n w1 of
             (oks, w2) \<Rightarrow> (ok # oks, w2)))"

subsection \<open>Notions used in the statements and proofs\<close>

text \<open>
  \<open>same_device w w'\<close>: the two states belong to the same device and the same
  configuration. They may differ in what the operations write: the NV indices, the
  sessions and loaded objects, the handle counter, the position of the random-number
  generator, the files and the cached bank status.
\<close>

definition same_device :: "world \<Rightarrow> world \<Rightarrow> bool" where
  "same_device w w' \<longleftrightarrow>
     tpm_present w' = tpm_present w \<and> tpm_fault w' = tpm_fault w \<and> pcr w' = pcr w \<and>
     rng w' = rng w \<and> policy_digest w' = policy_digest w \<and> fs_fault w' = fs_fault w \<and>
     sysfs_tpm_dirs w' = sysfs_tpm_dirs w \<and> IdentityDirname w' = IdentityDirname w \<and>
     PersistStatusDir w' = PersistStatusDir w \<and> DeviceCertName w' = DeviceCertName w \<and>
     DeviceKeyName w' = DeviceKeyName w"

text \<open>
  The two phases of \<^verbatim>\<open>SealDiskKey\<close>: \<open>seal_blobs\<close> is the function up to the write of the
  public blob (577-650), \<open>seal_archive\<close> is the rest (652-677), the snapshot of the
  registers and the three steps on the copies of the measurement log. That
  \<open>SealDiskKey\<close> is the first followed by the second is proved below.
\<close>

definition seal_blobs :: "bytes \<Rightarrow> PCRSelection \<Rightarrow> world \<Rightarrow> error option \<times> world" where
  "seal_blobs key pcrSel w =
     (if \<not> OpenTPM w then (Some ErrOpenTPM, w)
      else
        let wa = snd (NVUndefineSpace TpmSealedDiskPubHdl w);
            wb = snd (NVUndefineSpace TpmSealedDiskPrivHdl wa)
        in case PolicyPCRSession pcrSel wb of
          (Inl err, w1) \<Rightarrow> (Some (ErrWrap ''PolicyPCRSession failed'' err), w1)
        | (Inr (session, policy), w1) \<Rightarrow>
        (case FlushContext session w1 of
          (Some err, w2) \<Rightarrow> (Some (ErrWrap ''flushing session handle failed'' err), w2)
        | (None, w2) \<Rightarrow>
        (case tpm2_Seal w2 TpmSRKHdl policy key of
          Inl err \<Rightarrow> (Some (ErrWrap ''sealing the disk key into TPM failed'' err), w2)
        | Inr (priv, public) \<Rightarrow>
        (case NVDefineSpace TpmSealedDiskPrivHdl (length priv mod 65536) w2 of
          (Some err, w3) \<Rightarrow> (Some (ErrWrap ''NVDefineSpace TpmSealedDiskPrivHdl failed'' err), w3)
        | (None, w3) \<Rightarrow>
        (case NVWrite TpmSealedDiskPrivHdl priv w3 of
          (Some err, w4) \<Rightarrow> (Some (ErrWrap ''NVWrite TpmSealedDiskPrivHdl failed'' err), w4)
        | (None, w4) \<Rightarrow>
        (case NVDefineSpace TpmSealedDiskPubHdl (length public mod 65536) w4 of
          (Some err, w5) \<Rightarrow> (Some (ErrWrap ''NVDefineSpace TpmSealedDiskPubHdl failed'' err), w5)
        | (None, w5) \<Rightarrow>
        (case NVWrite TpmSealedDiskPubHdl public w5 of
          (Some err, w6) \<Rightarrow> (Some (ErrWrap ''NVWrite TpmSealedDiskPubHdl failed'' err), w6)
        | (None, w6) \<Rightarrow> (None, w6))))))))"

definition seal_archive :: "world \<Rightarrow> error option \<times> world" where
  "seal_archive w6 =
     (case saveDiskKeySealingPCRs (TpmSavedDiskSealingPcrs w6) w6 of
        (Some err, w7) \<Rightarrow> (Some (ErrWrap ''saving snapshot of sealing PCRs failed'' err), w7)
      | (None, w7) \<Rightarrow>
      (case backupCopiedMeasurementLogs w7 of
        (Some err, w8) \<Rightarrow>
          (Some (ErrWrap ''collecting previous snapshot of TPM event log failed'' err), w8)
      | (None, w8) \<Rightarrow>
      (case removeCopiedMeasurementLogs w8 of
        (Some err, w9) \<Rightarrow>
          (Some (ErrWrap ''removing old copies of TPM measurement log failed'' err), w9)
      | (None, w9) \<Rightarrow>
      (case copyMeasurementLog (MeasurementLogSealSuccess w9) w9 of
        (Some err, w10) \<Rightarrow>
          (Some (ErrWrap ''copying current TPM measurement log failed'' err), w10)
      | (None, w10) \<Rightarrow> (None, w10)))))"

text \<open>
  \<open>only_files w w'\<close>: the second state is the first with other files, and nothing else
  changed.
\<close>

definition only_files :: "world \<Rightarrow> world \<Rightarrow> bool" where
  "only_files w w' \<longleftrightarrow> w' = w\<lparr>files := files w'\<rparr>"

text \<open>
  \<open>only_tpm w w'\<close>: the second state is the first with other NV indices, sessions,
  loaded objects and handle counter, and nothing else changed.
\<close>

definition only_tpm :: "world \<Rightarrow> world \<Rightarrow> bool" where
  "only_tpm w w' \<longleftrightarrow>
     w' = w\<lparr>nv := nv w', sessions := sessions w', objects := objects w',
            next_handle := next_handle w'\<rparr>"

text \<open>
  \<open>keeps_nv w w'\<close>: the same device with the same NV indices, generator position and
  cached bank status; sessions, loaded objects, the handle counter and the files may
  differ.
\<close>

definition keeps_nv :: "world \<Rightarrow> world \<Rightarrow> bool" where
  "keeps_nv w w' \<longleftrightarrow>
     same_device w w' \<and> nv w' = nv w \<and> rng_pos w' = rng_pos w \<and>
     pcrBank256Status w' = pcrBank256Status w"

text \<open>
  \<open>unsealable pcrSel w key\<close>: the device opens; the two sealed NV indices are written, the
  private one with \<open>key\<close>; the registers of the selection can all be read and the policy
  digest over their values is the contents of the public index; and none of the commands
  that \<^verbatim>\<open>UnsealDiskKey\<close> sends has a fault injected.
\<close>

definition unseal_cmds :: "tpm_cmd list" where
  "unseal_cmds =
     [CmdNVReadEx TpmSealedDiskPrivHdl, CmdNVReadEx TpmSealedDiskPubHdl, CmdLoad,
      CmdStartAuthSession, CmdPolicyPCR, CmdPolicyGetDigest, CmdUnseal]"

definition unsealable :: "PCRSelection \<Rightarrow> world \<Rightarrow> bytes \<Rightarrow> bool" where
  "unsealable pcrSel w key \<longleftrightarrow>
     tpm_present w \<and>
     (\<exists>sz sz' pol vals.
        nv w TpmSealedDiskPrivHdl = Some (sz, Some key) \<and>
        nv w TpmSealedDiskPubHdl = Some (sz', Some pol) \<and>
        selected_values w pcrSel = Some vals \<and>
        policy_digest w pcrSel vals = pol) \<and>
     (\<forall>c\<in>set unseal_cmds. tpm_fault w c = None)"

text \<open>
  The commands that the legacy path can send: the read of register 0 that decides
  whether the bank is supported, and the commands on the legacy NV index and the
  generator.
\<close>

definition legacy_cmds :: "tpm_cmd list" where
  "legacy_cmds =
     [CmdReadPCR, CmdNVReadEx TpmDiskKeyHdl, CmdGetRandom, CmdNVUndefineSpace TpmDiskKeyHdl,
      CmdNVDefineSpace TpmDiskKeyHdl, CmdNVWrite TpmDiskKeyHdl]"

subsection \<open>States for the examples\<close>

text \<open>
  A device with one module and its measurement log, the SHA256 bank with 24 registers,
  the device certificate in place (so the module is in use), no injected fault, no key
  in NV, and the cached bank status not yet computed.
\<close>

definition demo_key :: bytes where
  "demo_key = [1, 2, 3, 4, 5, 6, 7, 8, 9, 10, 11, 12, 13, 14, 15, 16,
               17, 18, 19, 20, 21, 22, 23, 24, 25, 26, 27, 28, 29, 30, 31, 32]"

definition demo_world :: world where
  "demo_world =
     \<lparr>tpm_present = True,
      tpm_fault = (\<lambda>c. None),
      nv = Map.empty,
      pcr = (\<lambda>alg i. if alg = AlgSHA256 \<and> 0 \<le> i \<and> i < 24
                       then Some [word_of_int i, 0xA5] else None),
      sessions = Map.empty,
      objects = Map.empty,
      next_handle = 0x80000000,
      rng = (\<lambda>n. of_nat (7 * n + 3)),
      rng_pos = 0,
      policy_digest = (\<lambda>sel vals. concat vals),
      files = [''/config/device.cert.pem'' \<mapsto> Raw [0x30],
               ''/config/tpm_credential'' \<mapsto> Raw [0x61, 0x62, 0x63, 0x64, 0x65, 0x66, 0x67, 0x68, 0x69],
               ''/sys/tpm0/binary_bios_measurements'' \<mapsto> Raw [0xEE, 0xFF]],
      fs_fault = (\<lambda>c. False),
      sysfs_tpm_dirs = [''/sys/tpm0''],
      pcrBank256Status = PCRBank256StatusUnknown,
      IdentityDirname = ''/config'',
      PersistStatusDir = ''/persist/status'',
      DeviceCertName = ''/config/device.cert.pem'',
      DeviceKeyName = ''/config/device.key.pem''\<rparr>"

text \<open>The same device with a legacy key and no sealed key.\<close>

definition legacy_world :: world where
  "legacy_world = demo_world\<lparr>nv := [TpmDiskKeyHdl \<mapsto> (32, Some demo_key)]\<rparr>"

text \<open>
  The same device after a seal whose snapshot was taken when registers 4 and 7 held
  other values; the snapshot lists the registers in no particular order.
\<close>

definition demo_snapshot :: pcr_map where
  "demo_snapshot =
     [(14, [14, 0xA5]), (7, [7, 0x11]), (0, [0, 0xA5]), (9, [9, 0xA5]), (1, [1, 0xA5]),
      (13, [13, 0xA5]), (4, [0xFF]), (2, [2, 0xA5]), (8, [8, 0xA5]), (3, [3, 0xA5]),
      (6, [6, 0xA5])]"

definition tampered_world :: world where
  "tampered_world =
     demo_world\<lparr>files := (files demo_world)(''/persist/status/sealingpcrs'' \<mapsto>
                    GobPCRs demo_snapshot)\<rparr>"

text \<open>
  A device with four modules. Both copies of the measurement log exist for the indices
  0, 1 and 2, and index 3 has the seal-success copy only; the second rename of index 1
  and the first rename of index 2 are made to fail.
\<close>

definition rotation_world :: world where
  "rotation_world =
     demo_world\<lparr>
       sysfs_tpm_dirs := [''/sys/tpm0'', ''/sys/tpm1'', ''/sys/tpm2'', ''/sys/tpm3''],
       files := [''/persist/status/tpm_measurement_seal_success-tpm0'' \<mapsto> Raw [1],
                 ''/persist/status/tpm_measurement_unseal_fail-tpm0'' \<mapsto> Raw [2],
                 ''/persist/status/tpm_measurement_seal_success-tpm1'' \<mapsto> Raw [3],
                 ''/persist/status/tpm_measurement_unseal_fail-tpm1'' \<mapsto> Raw [4],
                 ''/persist/status/tpm_measurement_seal_success-tpm1-backup'' \<mapsto> Raw [5],
                 ''/persist/status/tpm_measurement_seal_success-tpm2'' \<mapsto> Raw [6],
                 ''/persist/status/tpm_measurement_unseal_fail-tpm2'' \<mapsto> Raw [7],
                 ''/persist/status/tpm_measurement_seal_success-tpm3'' \<mapsto> Raw [8]],
       fs_fault := (\<lambda>c.
          c = OpRename ''/persist/status/tpm_measurement_unseal_fail-tpm1''
                       ''/persist/status/tpm_measurement_unseal_fail-tpm1-backup'' \<or>
          c = OpRename ''/persist/status/tpm_measurement_seal_success-tpm2''
                       ''/persist/status/tpm_measurement_seal_success-tpm2-backup'')\<rparr>"

text \<open>
  The first device after the seal of \<open>demo_key\<close>, and the same some time later: register
  5, which is not in the selection, has been extended and a file has been written.
\<close>

definition sealed_world :: world where
  "sealed_world = snd (SealDiskKey demo_key DiskKeySealingPCRs demo_world)"

definition later_world :: world where
  "later_world =
     sealed_world\<lparr>pcr := (pcr sealed_world)
                     (AlgSHA256 := (pcr sealed_world AlgSHA256)(5 \<mapsto> [0x35, 0x35])),
                  files := (files sealed_world)(''/run/note'' \<mapsto> Raw [0])\<rparr>"

text \<open>The 32 bytes that the generator of the first device gives first.\<close>

definition fresh_key :: bytes where
  "fresh_key = [3, 10, 17, 24, 31, 38, 45, 52, 59, 66, 73, 80, 87, 94, 101, 108, 115, 122,
                129, 136, 143, 150, 157, 164, 171, 178, 185, 192, 199, 206, 213, 220]"

text \<open>The first device and the device with the legacy key, once the bank status is cached.\<close>

definition demo_world0 :: world where
  "demo_world0 = demo_world\<lparr>pcrBank256Status := PCRBank256StatusSupported\<rparr>"

definition legacy_world0 :: world where
  "legacy_world0 = legacy_world\<lparr>pcrBank256Status := PCRBank256StatusSupported\<rparr>"

text \<open>
  A device whose SHA256 bank is missing, without any key; the same with a legacy key;
  and the first of the two with all commands but those of the legacy path failing.
\<close>

definition nobank_world :: world where
  "nobank_world = demo_world\<lparr>pcr := (\<lambda>alg i. None)\<rparr>"

definition nobank_world0 :: world where
  "nobank_world0 = nobank_world\<lparr>pcrBank256Status := PCRBank256StatusNotSupported\<rparr>"

definition nobank_legacy_world :: world where
  "nobank_legacy_world = nobank_world\<lparr>nv := [TpmDiskKeyHdl \<mapsto> (32, Some demo_key)]\<rparr>"

definition nobank_legacy_world0 :: world where
  "nobank_legacy_world0 =
     nobank_legacy_world\<lparr>pcrBank256Status := PCRBank256StatusNotSupported\<rparr>"

definition seal_faulty :: "tpm_cmd \<Rightarrow> tpm_rc option" where
  "seal_faulty c = (if c \<in> set legacy_cmds then None else Some (RCFault 1))"

text \<open>A selection that is not the fixed one: register 5 alone.\<close>

definition sel5 :: PCRSelection where
  "sel5 = \<lparr>Hash = AlgSHA256, PCRs = [5]\<rparr>"

text \<open>The first device, on which the write of the seal-success copy of the log fails.\<close>

definition archive_fail_world :: world where
  "archive_fail_world =
     demo_world\<lparr>fs_fault :=
       (\<lambda>c. c = OpWrite ''/persist/status/tpm_measurement_seal_success-tpm0'')\<rparr>"

text \<open>
  The device of \<open>tampered_world\<close> with sealed blobs in NV whose policy is not that of
  the present register values: the vault stays locked.
\<close>

definition locked_world :: world where
  "locked_world =
     tampered_world\<lparr>nv := [TpmSealedDiskPrivHdl \<mapsto> (32, Some demo_key),
                           TpmSealedDiskPubHdl \<mapsto> (2, Some [0xBE, 0xEF])]\<rparr>"

definition demo_policy :: bytes where
  "demo_policy = concat (map (\<lambda>i. [word_of_int i, 0xA5]) [0, 1, 2, 3, 4, 6, 7, 8, 9, 13, 14])"

text \<open>The states \<^verbatim>\<open>UnsealDiskKey\<close> goes through on \<open>locked_world\<close>.\<close>

definition locked_loaded :: world where
  "locked_loaded = snd (tpm2_Load TpmSRKHdl [0xBE, 0xEF] demo_key locked_world)"

definition locked_session :: world where
  "locked_session = snd (PolicyPCRSession DiskKeySealingPCRs locked_loaded)"

definition locked_copied :: world where
  "locked_copied =
     snd (copyMeasurementLog (MeasurementLogUnsealFail locked_session) locked_session)"

section \<open>Properties\<close>

text \<open>
  C10. Whatever the credential file holds, once it can be read \<^verbatim>\<open>ReadOwnerCrdl\<close>
  returns a string and no error; the string has at most \<open>MaxPasswdLength = 7\<close> bytes, it is
  the first 7 bytes of the contents when these are longer, and the contents themselves
  otherwise.
\<close>

theorem ReadOwnerCrdl_truncates:
  assumes "os_ReadFile w (TpmCredentialsFileName w) = Inr c"
  shows "\<exists>s. ReadOwnerCrdl w = Inr s \<and> length s \<le> 7 \<and>
             (if length (file_bytes c) > 7 then s = take 7 (file_bytes c)
              else s = file_bytes c)"
  using assms by (simp add: ReadOwnerCrdl_def MaxPasswdLength_def Let_def)

theorem ReadOwnerCrdl_truncates_witness:
  "os_ReadFile demo_world (TpmCredentialsFileName demo_world) =
     Inr (Raw [0x61, 0x62, 0x63, 0x64, 0x65, 0x66, 0x67, 0x68, 0x69]) \<and>
   ReadOwnerCrdl demo_world = Inr [0x61, 0x62, 0x63, 0x64, 0x65, 0x66, 0x67]"
proof -
  have h: "os_ReadFile demo_world (TpmCredentialsFileName demo_world) =
     Inr (Raw [0x61, 0x62, 0x63, 0x64, 0x65, 0x66, 0x67, 0x68, 0x69])"
    by (simp add: os_ReadFile_def TpmCredentialsFileName_def demo_world_def)
  from ReadOwnerCrdl_truncates [OF h] h show ?thesis by auto
qed

subsection \<open>The mismatch search\<close>

lemma mismatch_loop_ok:
  "\<forall>i\<in>fst ` set saved. map_of live i \<noteq> None \<Longrightarrow>
   mismatch_loop saved live acc =
     Inr (acc @ map fst (filter (\<lambda>(i, v). map_of live i \<noteq> Some v) saved))"
  by (induction saved live acc rule: mismatch_loop.induct) (auto split: option.splits)

lemma mismatch_loop_missing:
  "\<exists>i\<in>fst ` set saved. map_of live i = None \<Longrightarrow>
   \<exists>j. mismatch_loop saved live acc = Inl (ErrSavedPCRMissing j) \<and>
       j \<in> fst ` set saved \<and> map_of live j = None"
proof (induction saved live acc rule: mismatch_loop.induct)
  case (1 readPCRs mismatch)
  then show ?case by simp
next
  case (2 i savedPCR rest readPCRs mismatch)
  show ?case
  proof (cases "map_of readPCRs i")
    case None
    then show ?thesis by simp
  next
    case (Some readPCR)
    with "2.prems" have ex: "\<exists>i\<in>fst ` set rest. map_of readPCRs i = None" by auto
    show ?thesis
    proof (cases "readPCR \<noteq> savedPCR")
      case True
      from "2.IH"(1) [OF Some True ex] Some True show ?thesis by auto
    next
      case False
      from "2.IH"(2) [OF Some False ex] Some False show ?thesis by auto
    qed
  qed
qed

lemma mismatch_set:
  assumes "distinct (map fst saved)"
  shows "set (map fst (filter (\<lambda>(i, v). map_of live i \<noteq> Some v) saved)) =
         {i \<in> fst ` set saved. map_of live i \<noteq> map_of saved i}"
  using assms by (auto simp: image_iff dest: map_of_SomeD)

lemma sort_distinct_set: "distinct xs \<Longrightarrow> sort xs = sorted_list_of_set (set xs)"
  by (simp add: sorted_list_of_set_sort_remdups distinct_remdups_id)

text \<open>
  C4. Let the snapshot file decode to the mapping \<open>saved\<close> (a mapping: no index twice)
  and let the live read give \<open>live\<close>. If some saved index is absent from \<open>live\<close>,
  \<^verbatim>\<open>findMismatchingPCRs\<close> returns the error that names such an index, and no list.
  Otherwise it returns the ascending list, without repetition, of exactly the saved
  indices whose live digest is not the saved digest; when every saved index matches, the
  list is empty. The order in which the saved entries are visited does not matter.
\<close>

theorem findMismatchingPCRs_spec:
  assumes dec: "gob_Decode_file w f = Inr saved"
    and dist: "distinct (map fst saved)"
    and live: "readDiskKeySealingPCRs w = Inr live"
  shows "((\<exists>i\<in>fst ` set saved. map_of live i = None) \<longrightarrow>
            (\<exists>j. findMismatchingPCRs f w = Inl (ErrSavedPCRMissing j) \<and>
                 j \<in> fst ` set saved \<and> map_of live j = None)) \<and>
         ((\<forall>i\<in>fst ` set saved. map_of live i \<noteq> None) \<longrightarrow>
            findMismatchingPCRs f w =
              Inr (sorted_list_of_set
                     {i \<in> fst ` set saved. map_of live i \<noteq> map_of saved i})) \<and>
         ((\<forall>i\<in>fst ` set saved. map_of live i = map_of saved i) \<longrightarrow>
            findMismatchingPCRs f w = Inr [])"
proof (intro conjI impI)
  assume "\<exists>i\<in>fst ` set saved. map_of live i = None"
  from mismatch_loop_missing [OF this, of "[]"]
  obtain j where j: "mismatch_loop saved live [] = Inl (ErrSavedPCRMissing j)"
    "j \<in> fst ` set saved" "map_of live j = None" by blast
  have "findMismatchingPCRs f w = Inl (ErrSavedPCRMissing j)"
    by (simp add: findMismatchingPCRs_def dec live j(1))
  with j(2,3)
  show "\<exists>j. findMismatchingPCRs f w = Inl (ErrSavedPCRMissing j) \<and>
            j \<in> fst ` set saved \<and> map_of live j = None"
    by blast
next
  assume all: "\<forall>i\<in>fst ` set saved. map_of live i \<noteq> None"
  let ?xs = "map fst (filter (\<lambda>(i, v). map_of live i \<noteq> Some v) saved)"
  have d: "distinct ?xs" using dist by (simp add: distinct_map_filter)
  have "findMismatchingPCRs f w = Inr (sort ?xs)"
    using mismatch_loop_ok [OF all, of "[]"] by (simp add: findMismatchingPCRs_def dec live)
  also have "sort ?xs = sorted_list_of_set (set ?xs)" using d by (rule sort_distinct_set)
  also have "set ?xs = {i \<in> fst ` set saved. map_of live i \<noteq> map_of saved i}"
    using dist by (rule mismatch_set)
  finally show "findMismatchingPCRs f w =
      Inr (sorted_list_of_set {i \<in> fst ` set saved. map_of live i \<noteq> map_of saved i})" .
next
  assume same: "\<forall>i\<in>fst ` set saved. map_of live i = map_of saved i"
  have all: "\<forall>i\<in>fst ` set saved. map_of live i \<noteq> None"
  proof
    fix i assume i: "i \<in> fst ` set saved"
    then have "map_of saved i \<noteq> None" by (simp add: map_of_eq_None_iff)
    moreover from same i have "map_of live i = map_of saved i" by blast
    ultimately show "map_of live i \<noteq> None" by metis
  qed
  have "filter (\<lambda>(i, v). map_of live i \<noteq> Some v) saved = []"
    using same dist by (auto simp: filter_empty_conv)
  then show "findMismatchingPCRs f w = Inr []"
    using mismatch_loop_ok [OF all, of "[]"] by (simp add: findMismatchingPCRs_def dec live)
qed

lemma tampered_decode:
  "gob_Decode_file tampered_world (TpmSavedDiskSealingPcrs tampered_world) = Inr demo_snapshot"
  by (simp add: gob_Decode_file_def TpmSavedDiskSealingPcrs_def tampered_world_def
      demo_world_def)

lemma tampered_live:
  "readDiskKeySealingPCRs tampered_world =
     Inr (map (\<lambda>i. (i, [word_of_int i, 0xA5])) [0, 1, 2, 3, 4, 6, 7, 8, 9, 13, 14])"
  by (simp add: readDiskKeySealingPCRs_def OpenTPM_def DiskKeySealingPCRs_def ReadPCR_def
      tampered_world_def demo_world_def)

theorem findMismatchingPCRs_spec_witness:
  "gob_Decode_file tampered_world (TpmSavedDiskSealingPcrs tampered_world) = Inr demo_snapshot \<and>
   distinct (map fst demo_snapshot) \<and>
   findMismatchingPCRs (TpmSavedDiskSealingPcrs tampered_world) tampered_world = Inr [4, 7] \<and>
   sorted_list_of_set
     {i \<in> fst ` set demo_snapshot.
        map_of (map (\<lambda>i. (i, [word_of_int i, 0xA5])) [0, 1, 2, 3, 4, 6, 7, 8, 9, 13, 14]) i
          \<noteq> map_of demo_snapshot i} = [4, 7]"
proof -
  have d: "distinct (map fst demo_snapshot)" by (simp add: demo_snapshot_def)
  have r: "findMismatchingPCRs (TpmSavedDiskSealingPcrs tampered_world) tampered_world
             = Inr [4, 7]"
    by (simp add: findMismatchingPCRs_def tampered_decode tampered_live demo_snapshot_def)
  have a: "\<forall>i\<in>fst ` set demo_snapshot.
      map_of (map (\<lambda>i. (i, [word_of_int i, 0xA5])) [0, 1, 2, 3, 4, 6, 7, 8, 9, 13, 14 :: int]) i
        \<noteq> (None :: bytes option)"
    by (simp add: demo_snapshot_def)
  from findMismatchingPCRs_spec [OF tampered_decode d tampered_live, THEN conjunct2,
      THEN conjunct1, THEN mp, OF a]
  have "Inr (sorted_list_of_set
     {i \<in> fst ` set demo_snapshot.
        map_of (map (\<lambda>i. (i, [word_of_int i, 0xA5])) [0, 1, 2, 3, 4, 6, 7, 8, 9, 13, 14]) i
          \<noteq> map_of demo_snapshot i}) = (Inr [4, 7] :: error + int list)"
    by (simp only: r)
  then have "sorted_list_of_set
     {i \<in> fst ` set demo_snapshot.
        map_of (map (\<lambda>i. (i, [word_of_int i, 0xA5])) [0, 1, 2, 3, 4, 6, 7, 8, 9, 13, 14]) i
          \<noteq> map_of demo_snapshot i} = [4, 7]"
    by (simp only: sum.inject)
  with tampered_decode d r show ?thesis by (intro conjI)
qed

subsection \<open>The backup rotation\<close>

lemma backup_loop_outcomes:
  "rotation_outcomes i n w = (oks, w') \<Longrightarrow>
   backup_loop i (i + n) left w = (left - int (length (filter id oks)), w')"
proof (induction n arbitrary: i left w oks w')
  case 0
  then show ?case by (simp add: backup_loop.simps)
next
  case (Suc n)
  obtain ok w1 where b: "backup_body i w = (ok, w1)" by (cases "backup_body i w")
  obtain oks1 w2 where r: "rotation_outcomes (Suc i) n w1 = (oks1, w2)"
    by (cases "rotation_outcomes (Suc i) n w1")
  from Suc.prems b r have e: "oks = ok # oks1" "w' = w2" by auto
  have step: "backup_loop i (i + Suc n) left w =
      backup_loop (Suc i) (Suc i + n) (if ok then left - 1 else left) w1"
    by (subst backup_loop.simps) (simp add: b)
  show ?case
    unfolding step using Suc.IH [OF r] e by (cases ok) auto
qed

lemma rotation_outcomes_length:
  "rotation_outcomes i n w = (oks, w') \<Longrightarrow> length oks = n"
  by (induction n arbitrary: i w oks w') (auto split: prod.splits)

lemma filter_id_Not:
  "int (length oks) - int (length (filter id oks)) = int (length (filter Not oks))"
  by (induction oks) auto

lemma log_paths_differ [simp]:
  "TpmEvtLogSavePattern (MeasurementLogSealSuccess w) i \<noteq>
     TpmEvtLogSavePattern (MeasurementLogUnsealFail w) j"
  "TpmEvtLogSavePattern (MeasurementLogUnsealFail w) j \<noteq>
     TpmEvtLogSavePattern (MeasurementLogSealSuccess w) i"
  "TpmEvtLogCollectPattern (TpmEvtLogSavePattern (MeasurementLogSealSuccess w) i) \<noteq>
     TpmEvtLogSavePattern (MeasurementLogUnsealFail w) j"
  "TpmEvtLogSavePattern (MeasurementLogUnsealFail w) j \<noteq>
     TpmEvtLogCollectPattern (TpmEvtLogSavePattern (MeasurementLogSealSuccess w) i)"
  "TpmEvtLogCollectPattern (TpmEvtLogSavePattern (MeasurementLogUnsealFail w) i) \<noteq>
     TpmEvtLogSavePattern (MeasurementLogSealSuccess w) j"
  "TpmEvtLogSavePattern (MeasurementLogSealSuccess w) j \<noteq>
     TpmEvtLogCollectPattern (TpmEvtLogSavePattern (MeasurementLogUnsealFail w) i)"
  "TpmEvtLogCollectPattern (TpmEvtLogSavePattern (MeasurementLogUnsealFail w) i) \<noteq>
     TpmEvtLogCollectPattern (TpmEvtLogSavePattern (MeasurementLogSealSuccess w) j)"
  "TpmEvtLogCollectPattern (TpmEvtLogSavePattern (MeasurementLogSealSuccess w) j) \<noteq>
     TpmEvtLogCollectPattern (TpmEvtLogSavePattern (MeasurementLogUnsealFail w) i)"
  "TpmEvtLogCollectPattern p \<noteq> p"
  "p \<noteq> TpmEvtLogCollectPattern p"
  by (simp_all add: TpmEvtLogSavePattern_def TpmEvtLogCollectPattern_def
      MeasurementLogSealSuccess_def MeasurementLogUnsealFail_def)

lemma backup_body_skip:
  "\<not> (FileExists w (TpmEvtLogSavePattern (MeasurementLogSealSuccess w) i) \<and>
      FileExists w (TpmEvtLogSavePattern (MeasurementLogUnsealFail w) i)) \<Longrightarrow>
   backup_body i w = (True, w)"
  by (auto simp: backup_body_def Let_def)

lemma backup_body_first_fails:
  "FileExists w (TpmEvtLogSavePattern (MeasurementLogSealSuccess w) i) \<Longrightarrow>
   FileExists w (TpmEvtLogSavePattern (MeasurementLogUnsealFail w) i) \<Longrightarrow>
   fs_fault w (OpRename (TpmEvtLogSavePattern (MeasurementLogSealSuccess w) i)
     (TpmEvtLogCollectPattern (TpmEvtLogSavePattern (MeasurementLogSealSuccess w) i))) \<Longrightarrow>
   backup_body i w = (False, w)"
  by (simp add: backup_body_def Let_def os_Rename_def)

lemma backup_body_second_fails:
  assumes "FileExists w (TpmEvtLogSavePattern (MeasurementLogSealSuccess w) i)"
    and "FileExists w (TpmEvtLogSavePattern (MeasurementLogUnsealFail w) i)"
    and "\<not> fs_fault w (OpRename (TpmEvtLogSavePattern (MeasurementLogSealSuccess w) i)
     (TpmEvtLogCollectPattern (TpmEvtLogSavePattern (MeasurementLogSealSuccess w) i)))"
    and "fs_fault w (OpRename (TpmEvtLogSavePattern (MeasurementLogUnsealFail w) i)
     (TpmEvtLogCollectPattern (TpmEvtLogSavePattern (MeasurementLogUnsealFail w) i)))"
  shows "fst (backup_body i w) = False"
    and "files (snd (backup_body i w)) =
      (if fs_fault w (OpRename
            (TpmEvtLogCollectPattern (TpmEvtLogSavePattern (MeasurementLogSealSuccess w) i))
            (TpmEvtLogSavePattern (MeasurementLogSealSuccess w) i))
       then (files w)
         (TpmEvtLogSavePattern (MeasurementLogSealSuccess w) i := None,
          TpmEvtLogCollectPattern (TpmEvtLogSavePattern (MeasurementLogSealSuccess w) i) :=
            files w (TpmEvtLogSavePattern (MeasurementLogSealSuccess w) i))
       else (files w)
         (TpmEvtLogCollectPattern (TpmEvtLogSavePattern (MeasurementLogSealSuccess w) i) := None))"
  using assms
  by (auto simp: backup_body_def Let_def os_Rename_def FileExists_def fun_eq_iff)

lemma backup_body_renames:
  assumes "FileExists w (TpmEvtLogSavePattern (MeasurementLogSealSuccess w) i)"
    and "FileExists w (TpmEvtLogSavePattern (MeasurementLogUnsealFail w) i)"
    and "\<not> fs_fault w (OpRename (TpmEvtLogSavePattern (MeasurementLogSealSuccess w) i)
     (TpmEvtLogCollectPattern (TpmEvtLogSavePattern (MeasurementLogSealSuccess w) i)))"
    and "\<not> fs_fault w (OpRename (TpmEvtLogSavePattern (MeasurementLogUnsealFail w) i)
     (TpmEvtLogCollectPattern (TpmEvtLogSavePattern (MeasurementLogUnsealFail w) i)))"
  shows "fst (backup_body i w) = True"
    and "files (snd (backup_body i w)) = (files w)
         (TpmEvtLogSavePattern (MeasurementLogSealSuccess w) i := None,
          TpmEvtLogCollectPattern (TpmEvtLogSavePattern (MeasurementLogSealSuccess w) i) :=
            files w (TpmEvtLogSavePattern (MeasurementLogSealSuccess w) i),
          TpmEvtLogSavePattern (MeasurementLogUnsealFail w) i := None,
          TpmEvtLogCollectPattern (TpmEvtLogSavePattern (MeasurementLogUnsealFail w) i) :=
            files w (TpmEvtLogSavePattern (MeasurementLogUnsealFail w) i))"
  using assms
  by (auto simp: backup_body_def Let_def os_Rename_def FileExists_def fun_eq_iff)

lemma backup_aggregate:
  assumes "countMappedTpms w = Inr counted"
  shows "backupCopiedMeasurementLogs w =
     (case rotation_outcomes 0 counted w of
        (oks, w') \<Rightarrow>
          (if length (filter Not oks) = 0 then None
           else Some (ErrCount
                  ''failed to backup %d number of previously copied TPM measurement logs''
                  (int (length (filter Not oks)))), w'))"
proof -
  obtain oks w' where r: "rotation_outcomes 0 counted w = (oks, w')"
    by (cases "rotation_outcomes 0 counted w")
  from backup_loop_outcomes [OF r, of "int counted"] rotation_outcomes_length [OF r]
  have "backup_loop 0 counted (int counted) w = (int (length (filter Not oks)), w')"
    using filter_id_Not [of oks] by simp
  then show ?thesis
    by (simp add: backupCopiedMeasurementLogs_def assms r)
qed
text \<open>
  C8. For the index \<open>i\<close> met in the state \<open>w\<close>, with the four paths named as in the source:
  when one of the two copies is missing, nothing is renamed and the index counts as
  handled; when both exist and the first rename fails, nothing is renamed and the index
  counts as failed; when the first rename succeeds and the second fails, the index counts
  as failed and the first rename is undone if the rename back succeeds (the seal-success
  copy is again under its name, and the backup name is free) and stays in place if it
  does not; when both succeed, both copies are found under their backup names, in the
  place of any backup that was there, and the index counts as handled. The whole call,
  over the \<open>counted\<close> enumerated indices, returns an error exactly when some index failed,
  and the error gives the number of failed indices.
\<close>

theorem backup_rotation:
  fixes w :: world and i counted :: nat
  defines "sealSuccessPath \<equiv> TpmEvtLogSavePattern (MeasurementLogSealSuccess w) i"
    and "unsealFailPath \<equiv> TpmEvtLogSavePattern (MeasurementLogUnsealFail w) i"
  defines "sealSuccessBackupPath \<equiv> TpmEvtLogCollectPattern sealSuccessPath"
    and "unsealFailBackupPath \<equiv> TpmEvtLogCollectPattern unsealFailPath"
  shows
    "(\<not> (FileExists w sealSuccessPath \<and> FileExists w unsealFailPath) \<longrightarrow>
        backup_body i w = (True, w)) \<and>
     (FileExists w sealSuccessPath \<and> FileExists w unsealFailPath \<and>
      fs_fault w (OpRename sealSuccessPath sealSuccessBackupPath) \<longrightarrow>
        backup_body i w = (False, w)) \<and>
     (FileExists w sealSuccessPath \<and> FileExists w unsealFailPath \<and>
      \<not> fs_fault w (OpRename sealSuccessPath sealSuccessBackupPath) \<and>
      fs_fault w (OpRename unsealFailPath unsealFailBackupPath) \<longrightarrow>
        fst (backup_body i w) = False \<and>
        files (snd (backup_body i w)) =
          (if fs_fault w (OpRename sealSuccessBackupPath sealSuccessPath)
           then (files w)(sealSuccessPath := None,
                          sealSuccessBackupPath := files w sealSuccessPath)
           else (files w)(sealSuccessBackupPath := None))) \<and>
     (FileExists w sealSuccessPath \<and> FileExists w unsealFailPath \<and>
      \<not> fs_fault w (OpRename sealSuccessPath sealSuccessBackupPath) \<and>
      \<not> fs_fault w (OpRename unsealFailPath unsealFailBackupPath) \<longrightarrow>
        fst (backup_body i w) = True \<and>
        files (snd (backup_body i w)) =
          (files w)(sealSuccessPath := None,
                    sealSuccessBackupPath := files w sealSuccessPath,
                    unsealFailPath := None,
                    unsealFailBackupPath := files w unsealFailPath)) \<and>
     (countMappedTpms w = Inr counted \<longrightarrow>
        backupCopiedMeasurementLogs w =
          (case rotation_outcomes 0 counted w of
             (oks, w') \<Rightarrow>
               (if length (filter Not oks) = 0 then None
                else Some (ErrCount
                       ''failed to backup %d number of previously copied TPM measurement logs''
                       (int (length (filter Not oks)))), w')))"
  unfolding sealSuccessPath_def unsealFailPath_def sealSuccessBackupPath_def
    unsealFailBackupPath_def
  using backup_body_skip [of w i] backup_body_first_fails [of w i]
    backup_body_second_fails [of w i] backup_body_renames [of w i]
    backup_aggregate [of w counted]
  by blast

theorem backup_rotation_witness:
  "(\<not> (FileExists rotation_world
          (TpmEvtLogSavePattern (MeasurementLogSealSuccess rotation_world) 3) \<and>
        FileExists rotation_world
          (TpmEvtLogSavePattern (MeasurementLogUnsealFail rotation_world) 3)) \<and>
    backup_body 3 rotation_world = (True, rotation_world)) \<and>
   (FileExists rotation_world
      (TpmEvtLogSavePattern (MeasurementLogSealSuccess rotation_world) 2) \<and>
    FileExists rotation_world
      (TpmEvtLogSavePattern (MeasurementLogUnsealFail rotation_world) 2) \<and>
    fs_fault rotation_world
      (OpRename (TpmEvtLogSavePattern (MeasurementLogSealSuccess rotation_world) 2)
         (TpmEvtLogCollectPattern
            (TpmEvtLogSavePattern (MeasurementLogSealSuccess rotation_world) 2))) \<and>
    backup_body 2 rotation_world = (False, rotation_world)) \<and>
   (FileExists rotation_world
      (TpmEvtLogSavePattern (MeasurementLogSealSuccess rotation_world) 1) \<and>
    FileExists rotation_world
      (TpmEvtLogSavePattern (MeasurementLogUnsealFail rotation_world) 1) \<and>
    \<not> fs_fault rotation_world
      (OpRename (TpmEvtLogSavePattern (MeasurementLogSealSuccess rotation_world) 1)
         (TpmEvtLogCollectPattern
            (TpmEvtLogSavePattern (MeasurementLogSealSuccess rotation_world) 1))) \<and>
    fs_fault rotation_world
      (OpRename (TpmEvtLogSavePattern (MeasurementLogUnsealFail rotation_world) 1)
         (TpmEvtLogCollectPattern
            (TpmEvtLogSavePattern (MeasurementLogUnsealFail rotation_world) 1))) \<and>
    fst (backup_body 1 rotation_world) = False \<and>
    files (snd (backup_body 1 rotation_world)) =
      (files rotation_world)
        (TpmEvtLogCollectPattern
           (TpmEvtLogSavePattern (MeasurementLogSealSuccess rotation_world) 1) := None)) \<and>
   (FileExists rotation_world
      (TpmEvtLogSavePattern (MeasurementLogSealSuccess rotation_world) 0) \<and>
    FileExists rotation_world
      (TpmEvtLogSavePattern (MeasurementLogUnsealFail rotation_world) 0) \<and>
    \<not> fs_fault rotation_world
      (OpRename (TpmEvtLogSavePattern (MeasurementLogSealSuccess rotation_world) 0)
         (TpmEvtLogCollectPattern
            (TpmEvtLogSavePattern (MeasurementLogSealSuccess rotation_world) 0))) \<and>
    \<not> fs_fault rotation_world
      (OpRename (TpmEvtLogSavePattern (MeasurementLogUnsealFail rotation_world) 0)
         (TpmEvtLogCollectPattern
            (TpmEvtLogSavePattern (MeasurementLogUnsealFail rotation_world) 0))) \<and>
    fst (backup_body 0 rotation_world) = True) \<and>
   (countMappedTpms rotation_world = Inr 4 \<and>
    length (filter Not (fst (rotation_outcomes 0 4 rotation_world))) = 2 \<and>
    fst (backupCopiedMeasurementLogs rotation_world) =
      Some (ErrCount
        ''failed to backup %d number of previously copied TPM measurement logs'' 2))"
proof -
  note T3 = backup_rotation [of rotation_world 3 4]
  note T2 = backup_rotation [of rotation_world 2 4]
  note T1 = backup_rotation [of rotation_world 1 4]
  note T0 = backup_rotation [of rotation_world 0 4]
  have h3: "\<not> (FileExists rotation_world
          (TpmEvtLogSavePattern (MeasurementLogSealSuccess rotation_world) 3) \<and>
        FileExists rotation_world
          (TpmEvtLogSavePattern (MeasurementLogUnsealFail rotation_world) 3))"
    by code_simp
  have h2: "FileExists rotation_world
      (TpmEvtLogSavePattern (MeasurementLogSealSuccess rotation_world) 2) \<and>
    FileExists rotation_world
      (TpmEvtLogSavePattern (MeasurementLogUnsealFail rotation_world) 2) \<and>
    fs_fault rotation_world
      (OpRename (TpmEvtLogSavePattern (MeasurementLogSealSuccess rotation_world) 2)
         (TpmEvtLogCollectPattern
            (TpmEvtLogSavePattern (MeasurementLogSealSuccess rotation_world) 2)))"
    by code_simp
  have h1: "FileExists rotation_world
      (TpmEvtLogSavePattern (MeasurementLogSealSuccess rotation_world) 1) \<and>
    FileExists rotation_world
      (TpmEvtLogSavePattern (MeasurementLogUnsealFail rotation_world) 1) \<and>
    \<not> fs_fault rotation_world
      (OpRename (TpmEvtLogSavePattern (MeasurementLogSealSuccess rotation_world) 1)
         (TpmEvtLogCollectPattern
            (TpmEvtLogSavePattern (MeasurementLogSealSuccess rotation_world) 1))) \<and>
    fs_fault rotation_world
      (OpRename (TpmEvtLogSavePattern (MeasurementLogUnsealFail rotation_world) 1)
         (TpmEvtLogCollectPattern
            (TpmEvtLogSavePattern (MeasurementLogUnsealFail rotation_world) 1)))"
    by code_simp
  have r1: "\<not> fs_fault rotation_world
      (OpRename (TpmEvtLogCollectPattern
            (TpmEvtLogSavePattern (MeasurementLogSealSuccess rotation_world) 1))
         (TpmEvtLogSavePattern (MeasurementLogSealSuccess rotation_world) 1))"
    by code_simp
  have h0: "FileExists rotation_world
      (TpmEvtLogSavePattern (MeasurementLogSealSuccess rotation_world) 0) \<and>
    FileExists rotation_world
      (TpmEvtLogSavePattern (MeasurementLogUnsealFail rotation_world) 0) \<and>
    \<not> fs_fault rotation_world
      (OpRename (TpmEvtLogSavePattern (MeasurementLogSealSuccess rotation_world) 0)
         (TpmEvtLogCollectPattern
            (TpmEvtLogSavePattern (MeasurementLogSealSuccess rotation_world) 0))) \<and>
    \<not> fs_fault rotation_world
      (OpRename (TpmEvtLogSavePattern (MeasurementLogUnsealFail rotation_world) 0)
         (TpmEvtLogCollectPattern
            (TpmEvtLogSavePattern (MeasurementLogUnsealFail rotation_world) 0)))"
    by code_simp
  have c: "countMappedTpms rotation_world = Inr 4" by code_simp
  have n: "length (filter Not (fst (rotation_outcomes 0 4 rotation_world))) = 2"
    by code_simp
  have A: "backup_body 3 rotation_world = (True, rotation_world)"
    using T3 h3 by blast
  have B: "backup_body 2 rotation_world = (False, rotation_world)"
    using T2 h2 by blast
  have C: "fst (backup_body 1 rotation_world) = False \<and>
    files (snd (backup_body 1 rotation_world)) =
      (files rotation_world)
        (TpmEvtLogCollectPattern
           (TpmEvtLogSavePattern (MeasurementLogSealSuccess rotation_world) 1) := None)"
    using T1 [THEN conjunct2, THEN conjunct2, THEN conjunct1, THEN mp, OF h1] r1
    by (simp only: if_False simp_thms)
  have D: "fst (backup_body 0 rotation_world) = True"
    using T0 h0 by blast
  have E: "fst (backupCopiedMeasurementLogs rotation_world) =
      Some (ErrCount
        ''failed to backup %d number of previously copied TPM measurement logs'' 2)"
    using T0 [THEN conjunct2, THEN conjunct2, THEN conjunct2, THEN conjunct2, THEN mp, OF c] n
    by (auto simp: split_beta)
  from h3 A h2 B h1 C h0 D c n E show ?thesis by blast
qed

subsection \<open>The primitives\<close>

lemma handles_differ [simp]:
  "TpmSealedDiskPrivHdl \<noteq> TpmSealedDiskPubHdl" "TpmSealedDiskPubHdl \<noteq> TpmSealedDiskPrivHdl"
  "TpmDiskKeyHdl \<noteq> TpmSealedDiskPubHdl" "TpmSealedDiskPubHdl \<noteq> TpmDiskKeyHdl"
  "TpmDiskKeyHdl \<noteq> TpmSealedDiskPrivHdl" "TpmSealedDiskPrivHdl \<noteq> TpmDiskKeyHdl"
  by (simp_all add: TpmSealedDiskPrivHdl_def TpmSealedDiskPubHdl_def TpmDiskKeyHdl_def)

lemma only_tpm_refl [simp]: "only_tpm w w"
  by (simp add: only_tpm_def)

lemma only_tpm_trans: "only_tpm a b \<Longrightarrow> only_tpm b c \<Longrightarrow> only_tpm a c"
  by (cases a, cases b, cases c) (simp add: only_tpm_def)

lemma only_files_refl [simp]: "only_files w w"
  by (simp add: only_files_def)

lemma only_files_trans: "only_files a b \<Longrightarrow> only_files b c \<Longrightarrow> only_files a c"
  by (cases a, cases b, cases c) (simp add: only_files_def)

lemma same_device_refl [simp]: "same_device w w"
  by (simp add: same_device_def)

lemma same_device_trans: "same_device a b \<Longrightarrow> same_device b c \<Longrightarrow> same_device a c"
  by (simp add: same_device_def)

lemma only_tpm_D:
  assumes "only_tpm w w'"
  shows "same_device w w'" "files w' = files w" "rng_pos w' = rng_pos w"
    "pcrBank256Status w' = pcrBank256Status w"
proof -
  from assms have e: "w' = w\<lparr>nv := nv w', sessions := sessions w', objects := objects w',
            next_handle := next_handle w'\<rparr>" by (simp add: only_tpm_def)
  show "same_device w w'" by (subst e) (simp add: same_device_def)
  show "files w' = files w" by (subst e) simp
  show "rng_pos w' = rng_pos w" by (subst e) simp
  show "pcrBank256Status w' = pcrBank256Status w" by (subst e) simp
qed

lemma only_files_D:
  assumes "only_files w w'"
  shows "same_device w w'" "nv w' = nv w" "sessions w' = sessions w" "objects w' = objects w"
    "next_handle w' = next_handle w" "rng_pos w' = rng_pos w"
    "pcrBank256Status w' = pcrBank256Status w"
proof -
  from assms have e: "w' = w\<lparr>files := files w'\<rparr>" by (simp add: only_files_def)
  show "same_device w w'" by (subst e) (simp add: same_device_def)
  show "nv w' = nv w" by (subst e) simp
  show "sessions w' = sessions w" by (subst e) simp
  show "objects w' = objects w" by (subst e) simp
  show "next_handle w' = next_handle w" by (subst e) simp
  show "rng_pos w' = rng_pos w" by (subst e) simp
  show "pcrBank256Status w' = pcrBank256Status w" by (subst e) simp
qed

lemma same_device_selected_values:
  "same_device w w' \<Longrightarrow> selected_values w' sel = selected_values w sel"
  by (simp add: same_device_def selected_values_def)

lemma NVReadEx_Inr_iff:
  "NVReadEx w h = Inr d \<longleftrightarrow>
     tpm_fault w (CmdNVReadEx h) = None \<and> (\<exists>sz. nv w h = Some (sz, Some d))"
  by (auto simp: NVReadEx_def split: option.splits)

lemma NVUndefineSpace_frame:
  "only_tpm w (snd (NVUndefineSpace h w))"
  "sessions (snd (NVUndefineSpace h w)) = sessions w"
  "objects (snd (NVUndefineSpace h w)) = objects w"
  "next_handle (snd (NVUndefineSpace h w)) = next_handle w"
  "h' \<noteq> h \<Longrightarrow> nv (snd (NVUndefineSpace h w)) h' = nv w h'"
  "nv w h = None \<Longrightarrow> nv (snd (NVUndefineSpace h w)) h = None"
  by (auto simp: NVUndefineSpace_def only_tpm_def split: option.splits)

lemma NVDefineSpace_None_iff:
  "NVDefineSpace h sz w = (None, w') \<longleftrightarrow>
     tpm_fault w (CmdNVDefineSpace h) = None \<and> nv w h = None \<and>
     w' = w\<lparr>nv := (nv w)(h \<mapsto> (sz, None))\<rparr>"
  by (auto simp: NVDefineSpace_def split: option.splits)

lemma NVDefineSpace_frame:
  "only_tpm w (snd (NVDefineSpace h sz w))"
  by (auto simp: NVDefineSpace_def only_tpm_def split: option.splits)

lemma NVWrite_None_iff:
  "NVWrite h d w = (None, w') \<longleftrightarrow>
     tpm_fault w (CmdNVWrite h) = None \<and>
     (\<exists>sz old. nv w h = Some (sz, old) \<and> length d \<le> sz \<and>
        w' = w\<lparr>nv := (nv w)(h \<mapsto> (sz, Some (d @ drop (length d)
                 (case old of None \<Rightarrow> replicate sz 0 | Some b \<Rightarrow> b))))\<rparr>)"
  by (auto simp: NVWrite_def split: option.splits)

lemma NVWrite_frame:
  "only_tpm w (snd (NVWrite h d w))"
  by (auto simp: NVWrite_def only_tpm_def split: option.splits)

lemma FlushContext_frame:
  "only_tpm w (snd (FlushContext h w))"
  "nv (snd (FlushContext h w)) = nv w"
  by (auto simp: FlushContext_def only_tpm_def split: option.splits)

lemma deferred_Flush_frame:
  "only_tpm w (deferred_Flush h w)"
  "nv (deferred_Flush h w) = nv w"
  by (simp_all add: deferred_Flush_def FlushContext_frame)

lemma tpm2_Load_Inr_iff:
  "tpm2_Load parent pub priv w = (Inr h, w') \<longleftrightarrow>
     tpm_fault w CmdLoad = None \<and> h = next_handle w \<and>
     w' = w\<lparr>objects := (objects w)(next_handle w \<mapsto> (pub, priv)),
            next_handle := next_handle w + 1\<rparr>"
  by (auto simp: tpm2_Load_def split: option.splits)

lemma tpm2_Load_frame:
  "only_tpm w (snd (tpm2_Load parent pub priv w))"
  "nv (snd (tpm2_Load parent pub priv w)) = nv w"
  by (auto simp: tpm2_Load_def only_tpm_def split: option.splits)

lemma PolicyPCRSession_Inr_iff:
  "PolicyPCRSession pcrSel w = (Inr (session, policy), w') \<longleftrightarrow>
     tpm_fault w CmdStartAuthSession = None \<and> tpm_fault w CmdPolicyPCR = None \<and>
     tpm_fault w CmdPolicyGetDigest = None \<and> session = next_handle w \<and>
     (\<exists>vals. selected_values w pcrSel = Some vals \<and> policy = policy_digest w pcrSel vals) \<and>
     w' = w\<lparr>sessions := (sessions w)(next_handle w \<mapsto> policy),
            next_handle := next_handle w + 1\<rparr>"
  by (auto simp: PolicyPCRSession_def StartAuthSession_def PolicyPCR_def PolicyGetDigest_def
      selected_values_def split: option.splits)

lemma PolicyPCRSession_frame:
  "only_tpm w (snd (PolicyPCRSession pcrSel w))"
  "nv (snd (PolicyPCRSession pcrSel w)) = nv w"
  "objects (snd (PolicyPCRSession pcrSel w)) = objects w"
  by (auto simp: PolicyPCRSession_def StartAuthSession_def PolicyPCR_def PolicyGetDigest_def
      deferred_Flush_def FlushContext_def only_tpm_def split: option.splits)

lemma UnsealWithSession_Inr_iff:
  "UnsealWithSession w session obj = Inr d \<longleftrightarrow>
     tpm_fault w CmdUnseal = None \<and>
     (\<exists>pol. sessions w session = Some pol \<and> objects w obj = Some (pol, d))"
  by (auto simp: UnsealWithSession_def split: option.splits)

lemma tpm2_Seal_Inr_iff:
  "tpm2_Seal w parent policy key = Inr (priv, public) \<longleftrightarrow>
     tpm_fault w CmdSeal = None \<and> priv = key \<and> public = policy"
  by (auto simp: tpm2_Seal_def split: option.splits)

subsection \<open>Sealing and unsealing\<close>

lemma SealDiskKey_phases:
  "SealDiskKey key pcrSel w =
     (case seal_blobs key pcrSel w of
        (Some err, w6) \<Rightarrow> (Some err, w6)
      | (None, w6) \<Rightarrow> seal_archive w6)"
  by (simp add: SealDiskKey_def seal_blobs_def seal_archive_def Let_def
      split: prod.splits sum.splits option.splits)

lemma unsealable_imp_UnsealDiskKey:
  assumes "unsealable pcrSel w key"
  shows "fst (UnsealDiskKey pcrSel w) = Inr key"
proof -
  from assms obtain sz sz' pol vals where
    p: "tpm_present w"
    and priv: "nv w TpmSealedDiskPrivHdl = Some (sz, Some key)"
    and pub: "nv w TpmSealedDiskPubHdl = Some (sz', Some pol)"
    and vals: "selected_values w pcrSel = Some vals"
    and pol: "policy_digest w pcrSel vals = pol"
    and nf: "\<forall>c\<in>set unseal_cmds. tpm_fault w c = None"
    by (auto simp: unsealable_def)
  from nf have f: "tpm_fault w (CmdNVReadEx TpmSealedDiskPrivHdl) = None"
    "tpm_fault w (CmdNVReadEx TpmSealedDiskPubHdl) = None" "tpm_fault w CmdLoad = None"
    "tpm_fault w CmdStartAuthSession = None" "tpm_fault w CmdPolicyPCR = None"
    "tpm_fault w CmdPolicyGetDigest = None" "tpm_fault w CmdUnseal = None"
    by (simp_all add: unseal_cmds_def)
  have r1: "NVReadEx w TpmSealedDiskPrivHdl = Inr key"
    by (simp add: NVReadEx_Inr_iff f priv)
  have r2: "NVReadEx w TpmSealedDiskPubHdl = Inr pol"
    by (simp add: NVReadEx_Inr_iff f pub)
  define w1 where "w1 = w\<lparr>objects := (objects w)(next_handle w \<mapsto> (pol, key)),
            next_handle := next_handle w + 1\<rparr>"
  have l: "tpm2_Load TpmSRKHdl pol key w = (Inr (next_handle w), w1)"
    by (simp add: tpm2_Load_Inr_iff f w1_def)
  define w2 where "w2 = w1\<lparr>sessions := (sessions w1)(next_handle w1 \<mapsto> pol),
            next_handle := next_handle w1 + 1\<rparr>"
  have sv: "selected_values w1 pcrSel = Some vals"
    using vals by (simp add: selected_values_def w1_def)
  have s: "PolicyPCRSession pcrSel w1 = (Inr (next_handle w1, pol), w2)"
    by (simp add: PolicyPCRSession_Inr_iff w2_def sv) (simp add: w1_def f pol)
  have u: "UnsealWithSession w2 (next_handle w1) (next_handle w) = Inr key"
    by (simp add: UnsealWithSession_Inr_iff) (simp add: w2_def w1_def f)
  show ?thesis
    by (simp add: UnsealDiskKey_def OpenTPM_def p r1 r2 l s u)
qed

lemma UnsealDiskKey_imp_unsealable:
  assumes A: "fst (UnsealDiskKey pcrSel w) = Inr key"
  shows "unsealable pcrSel w key"
proof -
  have p: "tpm_present w"
    using A by (cases "tpm_present w") (simp_all add: UnsealDiskKey_def OpenTPM_def)
  obtain priv where r1: "NVReadEx w TpmSealedDiskPrivHdl = Inr priv"
    using A p by (cases "NVReadEx w TpmSealedDiskPrivHdl")
      (simp_all add: UnsealDiskKey_def OpenTPM_def)
  obtain pub where r2: "NVReadEx w TpmSealedDiskPubHdl = Inr pub"
    using A p r1 by (cases "NVReadEx w TpmSealedDiskPubHdl")
      (simp_all add: UnsealDiskKey_def OpenTPM_def)
  obtain lr w1 where l0: "tpm2_Load TpmSRKHdl pub priv w = (lr, w1)"
    by (cases "tpm2_Load TpmSRKHdl pub priv w")
  obtain obj where l: "tpm2_Load TpmSRKHdl pub priv w = (Inr obj, w1)"
    using A p r1 r2 l0 by (cases lr) (simp_all add: UnsealDiskKey_def OpenTPM_def)
  obtain sr w2 where s0: "PolicyPCRSession pcrSel w1 = (sr, w2)"
    by (cases "PolicyPCRSession pcrSel w1")
  obtain session policy where s: "PolicyPCRSession pcrSel w1 = (Inr (session, policy), w2)"
    using A p r1 r2 l s0 by (cases sr) (auto simp: UnsealDiskKey_def OpenTPM_def)
  have u: "UnsealWithSession w2 session obj = Inr key"
    using A p r1 r2 l s by (cases "UnsealWithSession w2 session obj")
      (simp_all add: UnsealDiskKey_def OpenTPM_def split: prod.splits sum.splits)
  from l have lw: "tpm_fault w CmdLoad = None" "obj = next_handle w"
    "w1 = w\<lparr>objects := (objects w)(next_handle w \<mapsto> (pub, priv)),
            next_handle := next_handle w + 1\<rparr>"
    by (simp_all add: tpm2_Load_Inr_iff)
  from s obtain vals where sw: "tpm_fault w1 CmdStartAuthSession = None"
    "tpm_fault w1 CmdPolicyPCR = None" "tpm_fault w1 CmdPolicyGetDigest = None"
    "session = next_handle w1" "selected_values w1 pcrSel = Some vals"
    "policy = policy_digest w1 pcrSel vals"
    "w2 = w1\<lparr>sessions := (sessions w1)(next_handle w1 \<mapsto> policy),
            next_handle := next_handle w1 + 1\<rparr>"
    by (auto simp: PolicyPCRSession_Inr_iff)
  from u obtain pol' where uw: "tpm_fault w2 CmdUnseal = None"
    "sessions w2 session = Some pol'" "objects w2 obj = Some (pol', key)"
    by (auto simp: UnsealWithSession_Inr_iff)
  from uw(2) sw(4,7) have e1: "pol' = policy" by simp
  from uw(3) sw(7) lw(2,3) have e2: "pub = pol'" "priv = key" by simp_all
  from r1 r2 obtain sz sz' where n: "tpm_fault w (CmdNVReadEx TpmSealedDiskPrivHdl) = None"
    "nv w TpmSealedDiskPrivHdl = Some (sz, Some priv)"
    "tpm_fault w (CmdNVReadEx TpmSealedDiskPubHdl) = None"
    "nv w TpmSealedDiskPubHdl = Some (sz', Some pub)"
    by (auto simp: NVReadEx_Inr_iff)
  have f: "tpm_fault w CmdStartAuthSession = None" "tpm_fault w CmdPolicyPCR = None"
    "tpm_fault w CmdPolicyGetDigest = None" "tpm_fault w CmdUnseal = None"
    using sw(1,2,3) uw(1) by (simp_all add: sw(7) lw(3))
  have sv: "selected_values w pcrSel = Some vals"
    using sw(5) by (simp add: lw(3) selected_values_def)
  have pd: "policy_digest w pcrSel vals = pub"
    using sw(6) e1 e2 by (simp add: lw(3))
  show ?thesis
    unfolding unsealable_def unseal_cmds_def
    using p n f lw(1) sv pd e2 by auto
qed

subsection \<open>What the archive and the unseal leave unchanged\<close>

lemma os_Rename_only_files: "only_files w (snd (os_Rename a b w))"
  by (auto simp: os_Rename_def only_files_def split: option.splits)

lemma os_Remove_only_files: "only_files w (snd (os_Remove a w))"
  by (auto simp: os_Remove_def only_files_def split: option.splits)

lemma WriteRename_only_files: "only_files w (snd (WriteRename a c w))"
  by (auto simp: WriteRename_def only_files_def)

lemma backup_body_only_files: "only_files w (snd (backup_body i w))"
proof -
  have "\<And>a b c d e f. only_files w (snd (os_Rename e f (snd (os_Rename c d (snd (os_Rename a b w))))))"
    by (blast intro: only_files_trans os_Rename_only_files)
  moreover have "\<And>a b c d. only_files w (snd (os_Rename c d (snd (os_Rename a b w))))"
    by (blast intro: only_files_trans os_Rename_only_files)
  ultimately show ?thesis
    using os_Rename_only_files [of w]
    by (auto simp: backup_body_def Let_def split: prod.splits option.splits)
      (metis snd_conv)+
qed

lemma backup_loop_only_files: "only_files w (snd (backup_loop i counted l w))"
proof (induction i counted l w rule: backup_loop.induct)
  case (1 i counted leftToBackup w)
  show ?case
  proof (cases "i < counted")
    case False
    then show ?thesis by (simp add: backup_loop.simps)
  next
    case True
    obtain ok w1 where b: "backup_body i w = (ok, w1)" by (cases "backup_body i w")
    from backup_body_only_files [of w i] b have o: "only_files w w1" by simp
    show ?thesis
    proof (cases ok)
      case True
      with "1.IH"(1) [OF \<open>i < counted\<close> b [symmetric]] b \<open>i < counted\<close> o
      show ?thesis
        by (subst backup_loop.simps) (auto intro: only_files_trans)
    next
      case False
      with "1.IH"(2) [OF \<open>i < counted\<close> b [symmetric]] b \<open>i < counted\<close> o
      show ?thesis
        by (subst backup_loop.simps) (auto intro: only_files_trans)
    qed
  qed
qed

lemma backupCopiedMeasurementLogs_only_files:
  "only_files w (snd (backupCopiedMeasurementLogs w))"
  using backup_loop_only_files [of w 0]
  by (auto simp: backupCopiedMeasurementLogs_def split: sum.splits prod.splits)
    (metis snd_conv)+

lemma remove_loop_only_files: "only_files w (remove_loop i counted w)"
proof (induction i counted w rule: remove_loop.induct)
  case (1 i counted w)
  show ?case
  proof (cases "i < counted")
    case False
    then show ?thesis by (simp add: remove_loop.simps)
  next
    case True
    let ?w1 = "snd (os_Remove (TpmEvtLogSavePattern (MeasurementLogSealSuccess w) i) w)"
    let ?w2 = "snd (os_Remove (TpmEvtLogSavePattern (MeasurementLogUnsealFail w) i) ?w1)"
    have o: "only_files w ?w2"
      by (blast intro: only_files_trans os_Remove_only_files)
    from "1.IH" [OF True refl refl refl refl] o True show ?thesis
      by (subst remove_loop.simps) (auto simp: Let_def intro: only_files_trans)
  qed
qed

lemma removeCopiedMeasurementLogs_only_files:
  "only_files w (snd (removeCopiedMeasurementLogs w))"
  by (auto simp: removeCopiedMeasurementLogs_def remove_loop_only_files split: sum.splits)

lemma copy_loop_only_files: "only_files w (snd (copy_loop dst i paths l w))"
proof (induction paths arbitrary: i l w)
  case Nil
  then show ?case by simp
next
  case (Cons path paths)
  show ?case
  proof (cases "os_ReadFile w path")
    case (Inl e)
    then show ?thesis using Cons.IH by simp
  next
    case (Inr c)
    obtain r w1 where wr: "WriteRename (TpmEvtLogSavePattern dst i) c w = (r, w1)"
      by (cases "WriteRename (TpmEvtLogSavePattern dst i) c w")
    from WriteRename_only_files [of w "TpmEvtLogSavePattern dst i" c] wr
    have o: "only_files w w1" by simp
    show ?thesis
      using Inr wr o Cons.IH [of w1]
      by (cases r) (auto intro: only_files_trans)
  qed
qed

lemma copyMeasurementLog_only_files: "only_files w (snd (copyMeasurementLog dst w))"
  using copy_loop_only_files [of w dst 0]
  by (auto simp: copyMeasurementLog_def split: sum.splits prod.splits) (metis snd_conv)+

lemma saveDiskKeySealingPCRs_only_files: "only_files w (snd (saveDiskKeySealingPCRs f w))"
  by (auto simp: saveDiskKeySealingPCRs_def WriteRename_only_files split: sum.splits)

lemma seal_archive_only_files: "only_files w (snd (seal_archive w))"
proof -
  obtain r7 w7 where a: "saveDiskKeySealingPCRs (TpmSavedDiskSealingPcrs w) w = (r7, w7)"
    by (cases "saveDiskKeySealingPCRs (TpmSavedDiskSealingPcrs w) w")
  obtain r8 w8 where b: "backupCopiedMeasurementLogs w7 = (r8, w8)"
    by (cases "backupCopiedMeasurementLogs w7")
  obtain r9 w9 where c: "removeCopiedMeasurementLogs w8 = (r9, w9)"
    by (cases "removeCopiedMeasurementLogs w8")
  obtain r10 w10 where d: "copyMeasurementLog (MeasurementLogSealSuccess w9) w9 = (r10, w10)"
    by (cases "copyMeasurementLog (MeasurementLogSealSuccess w9) w9")
  have o7: "only_files w w7"
    using saveDiskKeySealingPCRs_only_files [of w "TpmSavedDiskSealingPcrs w"] a by simp
  have o8: "only_files w7 w8" using backupCopiedMeasurementLogs_only_files [of w7] b by simp
  have o9: "only_files w8 w9" using removeCopiedMeasurementLogs_only_files [of w8] c by simp
  have o10: "only_files w9 w10"
    using copyMeasurementLog_only_files [of w9 "MeasurementLogSealSuccess w9"] d by simp
  show ?thesis
    using a b c d o7 o8 o9 o10
    by (auto simp: seal_archive_def split: option.splits intro: only_files_trans)
qed

lemma keeps_nv_refl [simp]: "keeps_nv w w"
  by (simp add: keeps_nv_def)

lemma keeps_nv_trans: "keeps_nv a b \<Longrightarrow> keeps_nv b c \<Longrightarrow> keeps_nv a c"
  by (auto simp: keeps_nv_def intro: same_device_trans)

lemma only_files_keeps_nv: "only_files w w' \<Longrightarrow> keeps_nv w w'"
  by (simp add: keeps_nv_def only_files_D)

lemma only_tpm_keeps_nv: "only_tpm w w' \<Longrightarrow> nv w' = nv w \<Longrightarrow> keeps_nv w w'"
  by (simp add: keeps_nv_def only_tpm_D)

lemma UnsealDiskKey_keeps_nv: "keeps_nv w (snd (UnsealDiskKey pcrSel w))"
proof -
  have L: "\<And>pub priv. keeps_nv w (snd (tpm2_Load TpmSRKHdl pub priv w))"
    by (simp add: only_tpm_keeps_nv tpm2_Load_frame)
  have S: "\<And>v. keeps_nv v (snd (PolicyPCRSession pcrSel v))"
    by (simp add: only_tpm_keeps_nv PolicyPCRSession_frame)
  have F: "\<And>h v. keeps_nv v (deferred_Flush h v)"
    by (simp add: only_tpm_keeps_nv deferred_Flush_frame)
  have C: "\<And>d v. keeps_nv v (snd (copyMeasurementLog d v))"
    by (simp add: only_files_keeps_nv copyMeasurementLog_only_files)
  show ?thesis
  proof (cases "OpenTPM w")
    case False
    then show ?thesis by (simp add: UnsealDiskKey_def)
  next
    case True
    show ?thesis
    proof (cases "NVReadEx w TpmSealedDiskPrivHdl")
      case (Inl e)
      then show ?thesis using True by (simp add: UnsealDiskKey_def)
    next
      case r1: (Inr priv)
      show ?thesis
      proof (cases "NVReadEx w TpmSealedDiskPubHdl")
        case (Inl e)
        then show ?thesis using True r1 by (simp add: UnsealDiskKey_def)
      next
        case r2: (Inr pub)
        obtain lr w1 where l: "tpm2_Load TpmSRKHdl pub priv w = (lr, w1)"
          by (cases "tpm2_Load TpmSRKHdl pub priv w")
        from L [where pub = pub and priv = priv] l have k1: "keeps_nv w w1" by simp
        show ?thesis
        proof (cases lr)
          case (Inl e)
          then show ?thesis using True r1 r2 l k1 by (simp add: UnsealDiskKey_def)
        next
          case lo: (Inr obj)
          obtain sr w2 where s: "PolicyPCRSession pcrSel w1 = (sr, w2)"
            by (cases "PolicyPCRSession pcrSel w1")
          from S [of w1] s have k2: "keeps_nv w w2"
            using k1 by (auto intro: keeps_nv_trans)
          show ?thesis
          proof (cases sr)
            case (Inl e)
            then show ?thesis
              using True r1 r2 l lo s k2 F [where h = obj and v = w2]
              by (auto simp: UnsealDiskKey_def intro: keeps_nv_trans)
          next
            case so: (Inr sp)
            obtain session policy where sp: "sp = (session, policy)" by (cases sp)
            have k3: "\<And>v. keeps_nv w2 v \<Longrightarrow>
                keeps_nv w (deferred_Flush obj (deferred_Flush session v))"
              using k2 F by (blast intro: keeps_nv_trans)
            show ?thesis
            proof (cases "UnsealWithSession w2 session obj")
              case (Inr key)
              then show ?thesis
                using True r1 r2 l lo s so sp k3 [of w2]
                by (simp add: UnsealDiskKey_def)
            next
              case (Inl e)
              obtain st w3 where c: "copyMeasurementLog (MeasurementLogUnsealFail w2) w2 = (st, w3)"
                by (cases "copyMeasurementLog (MeasurementLogUnsealFail w2) w2")
              from C [where v = w2 and d = "MeasurementLogUnsealFail w2"] c have "keeps_nv w2 w3" by simp
              from k3 [OF this] show ?thesis
                using True r1 r2 l lo s so sp Inl c
                by (simp add: UnsealDiskKey_def split: sum.splits)
            qed
          qed
        qed
      qed
    qed
  qed
qed

lemma seal_blobs_None_D:
  assumes A: "seal_blobs key pcrSel w = (None, w6)"
  shows "tpm_present w" and "only_tpm w w6"
    and "\<exists>vals. selected_values w pcrSel = Some vals \<and>
           nv w6 TpmSealedDiskPrivHdl = Some (length key, Some key) \<and>
           nv w6 TpmSealedDiskPubHdl =
             Some (length (policy_digest w pcrSel vals), Some (policy_digest w pcrSel vals))"
    and "\<And>h. h \<noteq> TpmSealedDiskPrivHdl \<Longrightarrow> h \<noteq> TpmSealedDiskPubHdl \<Longrightarrow> nv w6 h = nv w h"
    and "tpm_fault w CmdStartAuthSession = None" and "tpm_fault w CmdPolicyPCR = None"
    and "tpm_fault w CmdPolicyGetDigest = None"
proof -
  show p: "tpm_present w"
    using A by (cases "tpm_present w") (simp_all add: seal_blobs_def OpenTPM_def)
  define wa where "wa = snd (NVUndefineSpace TpmSealedDiskPubHdl w)"
  define wb where "wb = snd (NVUndefineSpace TpmSealedDiskPrivHdl wa)"
  have oa: "only_tpm w wa" and ob: "only_tpm wa wb"
    by (simp_all add: wa_def wb_def NVUndefineSpace_frame)
  have nvb: "\<And>h. h \<noteq> TpmSealedDiskPrivHdl \<Longrightarrow> h \<noteq> TpmSealedDiskPubHdl \<Longrightarrow> nv wb h = nv w h"
    by (simp add: wa_def wb_def NVUndefineSpace_frame)
  note B = A [unfolded seal_blobs_def, simplified OpenTPM_def p Let_def,
      folded wa_def, folded wb_def]
  obtain sr w1 where s0: "PolicyPCRSession pcrSel wb = (sr, w1)"
    by (cases "PolicyPCRSession pcrSel wb")
  obtain session policy where s: "PolicyPCRSession pcrSel wb = (Inr (session, policy), w1)"
    using B s0 by (cases sr) auto
  obtain fr w2 where f0: "FlushContext session w1 = (fr, w2)"
    by (cases "FlushContext session w1")
  have f: "FlushContext session w1 = (None, w2)"
    using B s f0 by (cases fr) auto
  have se: "tpm2_Seal w2 TpmSRKHdl policy key = Inr (key, policy)"
    using B s f by (cases "tpm2_Seal w2 TpmSRKHdl policy key")
      (auto simp: tpm2_Seal_Inr_iff)
  obtain d1 w3 where d10: "NVDefineSpace TpmSealedDiskPrivHdl (length key mod 65536) w2 = (d1, w3)"
    by (cases "NVDefineSpace TpmSealedDiskPrivHdl (length key mod 65536) w2")
  have d1: "NVDefineSpace TpmSealedDiskPrivHdl (length key mod 65536) w2 = (None, w3)"
    using B s f se d10 by (cases d1) auto
  obtain x1 w4 where x10: "NVWrite TpmSealedDiskPrivHdl key w3 = (x1, w4)"
    by (cases "NVWrite TpmSealedDiskPrivHdl key w3")
  have x1: "NVWrite TpmSealedDiskPrivHdl key w3 = (None, w4)"
    using B s f se d1 x10 by (cases x1) auto
  obtain d2 w5 where d20: "NVDefineSpace TpmSealedDiskPubHdl (length policy mod 65536) w4 = (d2, w5)"
    by (cases "NVDefineSpace TpmSealedDiskPubHdl (length policy mod 65536) w4")
  have d2: "NVDefineSpace TpmSealedDiskPubHdl (length policy mod 65536) w4 = (None, w5)"
    using B s f se d1 x1 d20 by (cases d2) auto
  have x2: "NVWrite TpmSealedDiskPubHdl policy w5 = (None, w6)"
    using B s f se d1 x1 d2 by (cases "NVWrite TpmSealedDiskPubHdl policy w5")
      (auto split: option.splits)
  from s obtain vals where sw: "tpm_fault wb CmdStartAuthSession = None"
    "tpm_fault wb CmdPolicyPCR = None" "tpm_fault wb CmdPolicyGetDigest = None"
    "selected_values wb pcrSel = Some vals" "policy = policy_digest wb pcrSel vals"
    by (auto simp: PolicyPCRSession_Inr_iff)
  have o1: "only_tpm wb w1" "nv w1 = nv wb"
    using PolicyPCRSession_frame [where w = wb and pcrSel = pcrSel] s by simp_all
  have o2: "only_tpm w1 w2" "nv w2 = nv w1"
    using FlushContext_frame [where w = w1 and h = session] f by simp_all
  have o3: "only_tpm w2 w3" using NVDefineSpace_frame [where w = w2] d1 by (metis snd_conv)
  have o4: "only_tpm w3 w4" using NVWrite_frame [where w = w3] x1 by (metis snd_conv)
  have o5: "only_tpm w4 w5" using NVDefineSpace_frame [where w = w4] d2 by (metis snd_conv)
  have o6: "only_tpm w5 w6" using NVWrite_frame [where w = w5] x2 by (metis snd_conv)
  have ow: "only_tpm w wb" using oa ob by (rule only_tpm_trans)
  show o: "only_tpm w w6"
    using ow o1(1) o2(1) o3 o4 o5 o6 by (blast intro: only_tpm_trans)
  have sd: "same_device w wb" using ow by (rule only_tpm_D)
  then have fe: "tpm_fault wb = tpm_fault w" "policy_digest wb = policy_digest w"
    by (simp_all add: same_device_def)
  show "tpm_fault w CmdStartAuthSession = None" "tpm_fault w CmdPolicyPCR = None"
    "tpm_fault w CmdPolicyGetDigest = None"
    using sw(1,2,3) fe by simp_all
  have sv: "selected_values w pcrSel = Some vals"
    using sw(4) same_device_selected_values [OF sd] by simp
  have pol: "policy = policy_digest w pcrSel vals" using sw(5) fe by simp
  from d1 have w3: "w3 = w2\<lparr>nv := (nv w2)(TpmSealedDiskPrivHdl \<mapsto> (length key mod 65536, None))\<rparr>"
    by (simp add: NVDefineSpace_None_iff)
  from x1 w3 have lk: "length key \<le> length key mod 65536"
    and w4: "w4 = w3\<lparr>nv := (nv w3)(TpmSealedDiskPrivHdl \<mapsto> (length key mod 65536, Some key))\<rparr>"
    by (auto simp: NVWrite_None_iff)
  from d2 have w5: "w5 = w4\<lparr>nv := (nv w4)(TpmSealedDiskPubHdl \<mapsto> (length policy mod 65536, None))\<rparr>"
    by (simp add: NVDefineSpace_None_iff)
  from x2 w5 have lp: "length policy \<le> length policy mod 65536"
    and w6: "w6 = w5\<lparr>nv := (nv w5)(TpmSealedDiskPubHdl \<mapsto> (length policy mod 65536, Some policy))\<rparr>"
    by (auto simp: NVWrite_None_iff)
  have lk': "length key mod 65536 = length key"
    using lk by (metis mod_less_eq_dividend le_antisym)
  have lp': "length policy mod 65536 = length policy"
    using lp by (metis mod_less_eq_dividend le_antisym)
  have n6: "nv w6 = (nv wb)(TpmSealedDiskPrivHdl \<mapsto> (length key, Some key),
      TpmSealedDiskPubHdl \<mapsto> (length policy, Some policy))"
    by (simp add: w6 w5 w4 w3 lk' lp' o2(2) o1(2))
  show "\<exists>vals. selected_values w pcrSel = Some vals \<and>
           nv w6 TpmSealedDiskPrivHdl = Some (length key, Some key) \<and>
           nv w6 TpmSealedDiskPubHdl =
             Some (length (policy_digest w pcrSel vals), Some (policy_digest w pcrSel vals))"
    using sv pol n6 by auto
  show "\<And>h. h \<noteq> TpmSealedDiskPrivHdl \<Longrightarrow> h \<noteq> TpmSealedDiskPubHdl \<Longrightarrow> nv w6 h = nv w h"
    using nvb by (simp add: n6)
qed

lemma SealDiskKey_None_D:
  assumes A: "SealDiskKey key pcrSel w = (None, w1)"
  shows "tpm_present w" and "same_device w w1"
    and "rng_pos w1 = rng_pos w" and "pcrBank256Status w1 = pcrBank256Status w"
    and "\<exists>vals. selected_values w pcrSel = Some vals \<and>
           nv w1 TpmSealedDiskPrivHdl = Some (length key, Some key) \<and>
           nv w1 TpmSealedDiskPubHdl =
             Some (length (policy_digest w pcrSel vals), Some (policy_digest w pcrSel vals))"
    and "\<And>h. h \<noteq> TpmSealedDiskPrivHdl \<Longrightarrow> h \<noteq> TpmSealedDiskPubHdl \<Longrightarrow> nv w1 h = nv w h"
    and "tpm_fault w CmdStartAuthSession = None" and "tpm_fault w CmdPolicyPCR = None"
    and "tpm_fault w CmdPolicyGetDigest = None"
    and "\<exists>w6. seal_blobs key pcrSel w = (None, w6) \<and> seal_archive w6 = (None, w1)"
proof -
  obtain r w6 where b0: "seal_blobs key pcrSel w = (r, w6)"
    by (cases "seal_blobs key pcrSel w")
  have b: "seal_blobs key pcrSel w = (None, w6)"
    using A b0 by (cases r) (simp_all add: SealDiskKey_phases)
  have a: "seal_archive w6 = (None, w1)"
    using A b by (simp add: SealDiskKey_phases)
  note B = seal_blobs_None_D [OF b]
  have of: "only_files w6 w1" using seal_archive_only_files [of w6] a by simp
  note F = only_files_D [OF of]
  note T = only_tpm_D [OF B(2)]
  show "tpm_present w" by (rule B(1))
  show "same_device w w1" using T(1) F(1) by (rule same_device_trans)
  show "rng_pos w1 = rng_pos w" using T(3) F(6) by simp
  show "pcrBank256Status w1 = pcrBank256Status w" using T(4) F(7) by simp
  show "\<exists>vals. selected_values w pcrSel = Some vals \<and>
           nv w1 TpmSealedDiskPrivHdl = Some (length key, Some key) \<and>
           nv w1 TpmSealedDiskPubHdl =
             Some (length (policy_digest w pcrSel vals), Some (policy_digest w pcrSel vals))"
    using B(3) by (simp add: F(2))
  show "\<And>h. h \<noteq> TpmSealedDiskPrivHdl \<Longrightarrow> h \<noteq> TpmSealedDiskPubHdl \<Longrightarrow> nv w1 h = nv w h"
    using B(4) by (simp add: F(2))
  show "tpm_fault w CmdStartAuthSession = None" "tpm_fault w CmdPolicyPCR = None"
    "tpm_fault w CmdPolicyGetDigest = None" by (rule B(5) B(6) B(7))+
  show "\<exists>w6. seal_blobs key pcrSel w = (None, w6) \<and> seal_archive w6 = (None, w1)"
    using a b by blast
qed

lemma selected_values_cong:
  "\<forall>i\<in>set (PCRs sel). pcr w2 (Hash sel) i = pcr w1 (Hash sel) i \<Longrightarrow>
   selected_values w2 sel = selected_values w1 sel"
  by (simp add: selected_values_def cong: map_cong)

text \<open>
  C1. Let \<^verbatim>\<open>SealDiskKey\<close> return without error for the secret \<open>k\<close> and the selection,
  leaving the state \<open>w1\<close>, and let \<open>w2\<close> be any later state of the same device in which the
  two sealed NV indices are as the seal left them and every register of the selection holds
  the value it had (other registers, the files, the sessions may have changed). If the
  module answers the commands of the unseal (no injected fault), \<^verbatim>\<open>UnsealDiskKey\<close> on
  \<open>w2\<close> returns exactly \<open>k\<close>. This holds for every secret and every selection, so for the
  32-byte secrets and for \<open>DiskKeySealingPCRs\<close>.
\<close>

theorem seal_unseal_round_trip:
  assumes seal: "SealDiskKey k pcrSel w = (None, w1)"
    and dev: "tpm_present w2" "policy_digest w2 = policy_digest w1"
    and blobs: "nv w2 TpmSealedDiskPrivHdl = nv w1 TpmSealedDiskPrivHdl"
      "nv w2 TpmSealedDiskPubHdl = nv w1 TpmSealedDiskPubHdl"
    and regs: "\<forall>i\<in>set (PCRs pcrSel). pcr w2 (Hash pcrSel) i = pcr w1 (Hash pcrSel) i"
    and answers: "\<forall>c\<in>set unseal_cmds. tpm_fault w2 c = None"
  shows "fst (UnsealDiskKey pcrSel w2) = Inr k"
proof -
  note S = SealDiskKey_None_D [OF seal]
  from S(5) obtain vals where v: "selected_values w pcrSel = Some vals"
    and n: "nv w1 TpmSealedDiskPrivHdl = Some (length k, Some k)"
      "nv w1 TpmSealedDiskPubHdl =
         Some (length (policy_digest w pcrSel vals), Some (policy_digest w pcrSel vals))"
    by blast
  have v2: "selected_values w2 pcrSel = Some vals"
    using selected_values_cong [OF regs] same_device_selected_values [OF S(2)] v by simp
  have pd: "policy_digest w2 = policy_digest w"
    using dev(2) S(2) by (simp add: same_device_def)
  have "unsealable pcrSel w2 k"
    unfolding unsealable_def
    using dev(1) blobs n v2 pd answers by simp
  then show ?thesis by (rule unsealable_imp_UnsealDiskKey)
qed

subsection \<open>Evaluation on the example states\<close>

lemma decimal_digit:
  "decimal 0 = ''0''" "decimal 1 = ''1''" "decimal 2 = ''2''" "decimal 3 = ''3''"
  by code_simp+

lemmas eval_defs = OpenTPM_def NVUndefineSpace_def NVDefineSpace_def NVWrite_def NVReadEx_def
  ReadPCR_def tpm2_GetRandom_def StartAuthSession_def selected_values_def PolicyPCR_def
  PolicyGetDigest_def FlushContext_def tpm2_Seal_def tpm2_Load_def UnsealWithSession_def
  deferred_Flush_def HandleNull_def
  TpmSRKHdl_def TpmDiskKeyHdl_def TpmSealedDiskPrivHdl_def TpmSealedDiskPubHdl_def
  os_ReadFile_def os_Rename_def os_Remove_def gob_Decode_file_def FileExists_def WriteRename_def
  TpmSavedDiskSealingPcrs_def MeasurementLogSealSuccess_def MeasurementLogUnsealFail_def
  measurementLogFile_def DiskKeySealingPCRs_def TpmEvtLogSavePattern_def
  TpmEvtLogCollectPattern_def getMappedTpmsPath_def countMappedTpms_def
  getMeasurementLogFiles_def backup_body_def backupCopiedMeasurementLogs_def
  removeCopiedMeasurementLogs_def copyMeasurementLog_def readDiskKeySealingPCRs_def
  saveDiskKeySealingPCRs_def findMismatchingPCRs_def PolicyPCRSession_def decimal_digit
  Let_def backup_loop.simps remove_loop.simps

lemma demo_seal:
  "SealDiskKey demo_key DiskKeySealingPCRs demo_world = (None, sealed_world)"
proof -
  have "fst (SealDiskKey demo_key DiskKeySealingPCRs demo_world) = None"
    by (simp add: SealDiskKey_def eval_defs demo_world_def demo_key_def)
  then show ?thesis
    by (simp add: sealed_world_def prod_eq_iff)
qed

theorem seal_unseal_round_trip_witness:
  "SealDiskKey demo_key DiskKeySealingPCRs demo_world = (None, sealed_world) \<and>
   length demo_key = 32 \<and>
   pcr later_world AlgSHA256 5 \<noteq> pcr sealed_world AlgSHA256 5 \<and>
   fst (UnsealDiskKey DiskKeySealingPCRs later_world) = Inr demo_key"
proof -
  note D = SealDiskKey_None_D [OF demo_seal]
  from D(2) have dev: "tpm_present sealed_world" "tpm_fault sealed_world = (\<lambda>c. None)"
    "pcr sealed_world = pcr demo_world"
    by (simp_all add: same_device_def demo_world_def)
  have h1: "tpm_present later_world" "policy_digest later_world = policy_digest sealed_world"
    "nv later_world TpmSealedDiskPrivHdl = nv sealed_world TpmSealedDiskPrivHdl"
    "nv later_world TpmSealedDiskPubHdl = nv sealed_world TpmSealedDiskPubHdl"
    by (simp_all add: later_world_def dev)
  have h2: "\<forall>i\<in>set (PCRs DiskKeySealingPCRs).
      pcr later_world (Hash DiskKeySealingPCRs) i = pcr sealed_world (Hash DiskKeySealingPCRs) i"
    by (simp add: later_world_def DiskKeySealingPCRs_def)
  have h3: "\<forall>c\<in>set unseal_cmds. tpm_fault later_world c = None"
    by (simp add: later_world_def dev)
  have l: "length demo_key = 32" by (simp add: demo_key_def)
  have r: "pcr later_world AlgSHA256 5 \<noteq> pcr sealed_world AlgSHA256 5"
    by (simp add: later_world_def dev demo_world_def)
  from seal_unseal_round_trip [OF demo_seal h1 h2 h3] demo_seal l r
  show ?thesis by blast
qed

subsection \<open>The life cycle\<close>

lemma PCRBankSHA256Enabled_D:
  assumes "PCRBankSHA256Enabled w = (b, w0)"
  shows "w0 = w\<lparr>pcrBank256Status := pcrBank256Status w0\<rparr>"
    and "b \<longleftrightarrow> pcrBank256Status w0 = PCRBank256StatusSupported"
  using assms by (auto simp: PCRBankSHA256Enabled_def Let_def split: if_splits)

lemma PCRBankSHA256Enabled_keeps:
  assumes "PCRBankSHA256Enabled w = (b, w0)"
  shows "same_device w w0" "nv w0 = nv w" "files w0 = files w" "rng_pos w0 = rng_pos w"
    "sessions w0 = sessions w" "objects w0 = objects w" "next_handle w0 = next_handle w"
proof -
  note e = PCRBankSHA256Enabled_D(1) [OF assms]
  show "same_device w w0" by (subst e) (simp add: same_device_def)
  show "nv w0 = nv w" by (subst e) simp
  show "files w0 = files w" by (subst e) simp
  show "rng_pos w0 = rng_pos w" by (subst e) simp
  show "sessions w0 = sessions w" by (subst e) simp
  show "objects w0 = objects w" by (subst e) simp
  show "next_handle w0 = next_handle w" by (subst e) simp
qed

lemma keeps_nv_D:
  assumes "keeps_nv w w'"
  shows "tpm_present w' = tpm_present w" "tpm_fault w' = tpm_fault w" "nv w' = nv w"
    "policy_digest w' = policy_digest w" "selected_values w' sel = selected_values w sel"
    "pcr w' = pcr w"
  using assms by (simp_all add: keeps_nv_def same_device_selected_values)
    (simp_all add: same_device_def)

lemma keeps_nv_unsealable:
  "keeps_nv w w' \<Longrightarrow> unsealable sel w' k \<longleftrightarrow> unsealable sel w k"
  by (simp add: unsealable_def keeps_nv_D)

lemma keeps_nv_NVReadEx: "keeps_nv w w' \<Longrightarrow> NVReadEx w' h = NVReadEx w h"
  by (auto simp: NVReadEx_def keeps_nv_D split: option.splits)

lemma keeps_nv_readDiskKey: "keeps_nv w w' \<Longrightarrow> readDiskKey w' = readDiskKey w"
  by (simp add: readDiskKey_def OpenTPM_def keeps_nv_NVReadEx keeps_nv_D)

lemma keeps_nv_isSealedKeyPresent:
  "keeps_nv w w' \<Longrightarrow> isSealedKeyPresent w' = isSealedKeyPresent w"
  by (simp add: isSealedKeyPresent_def OpenTPM_def keeps_nv_NVReadEx keeps_nv_D)

lemma unsealable_isSealedKeyPresent: "unsealable sel w k \<Longrightarrow> isSealedKeyPresent w"
  by (auto simp: unsealable_def unseal_cmds_def isSealedKeyPresent_def OpenTPM_def
      NVReadEx_def)

lemma UnsealDiskKey_Inr_D:
  assumes "UnsealDiskKey sel w = (Inr key, w')"
  shows "unsealable sel w key" "keeps_nv w w'" "unsealable sel w' key"
proof -
  from assms have "fst (UnsealDiskKey sel w) = Inr key" by simp
  then show u: "unsealable sel w key" by (rule UnsealDiskKey_imp_unsealable)
  from UnsealDiskKey_keeps_nv [of w sel] assms show k: "keeps_nv w w'" by simp
  from u k show "unsealable sel w' key" by (simp add: keeps_nv_unsealable)
qed

lemma legacy_present_iff: "isLegacyKeyPresent w \<longleftrightarrow> (\<exists>k. readDiskKey w = Inr k)"
  by (cases "readDiskKey w") (simp_all add: isLegacyKeyPresent_def)

lemma FetchSealedVaultKey_Inr_D:
  assumes bank: "PCRBankSHA256Enabled w = (True, w0)"
    and fetch: "FetchSealedVaultKey w = (Inr key, w')"
  shows "\<exists>w3. UnsealDiskKey DiskKeySealingPCRs w3 = (Inr key, w') \<and>
           unsealable DiskKeySealingPCRs w3 key \<and> unsealable DiskKeySealingPCRs w' key \<and>
           (if isSealedKeyPresent w0 then w3 = w0
            else if isLegacyKeyPresent w0 then
              readDiskKey w0 = Inr key \<and> SealDiskKey key DiskKeySealingPCRs w0 = (None, w3)
            else
              (\<exists>w1. GetRandom vaultKeyLength w0 = (Inr key, w1) \<and>
                    SealDiskKey key DiskKeySealingPCRs w1 = (None, w3)))"
proof (cases "isSealedKeyPresent w0")
  case True
  then have u: "UnsealDiskKey DiskKeySealingPCRs w0 = (Inr key, w')"
    using fetch by (simp add: FetchSealedVaultKey_def bank Let_def)
  from UnsealDiskKey_Inr_D [OF u] u True show ?thesis by auto
next
  case False
  show ?thesis
  proof (cases "readDiskKey w0")
    case (Inr k)
    then have lp: "isLegacyKeyPresent w0" by (simp add: isLegacyKeyPresent_def)
    obtain r w3 where s0: "SealDiskKey k DiskKeySealingPCRs w0 = (r, w3)"
      by (cases "SealDiskKey k DiskKeySealingPCRs w0")
    have s: "SealDiskKey k DiskKeySealingPCRs w0 = (None, w3)"
      using fetch False lp Inr s0
      by (cases r) (simp_all add: FetchSealedVaultKey_def bank Let_def)
    have u: "UnsealDiskKey DiskKeySealingPCRs w3 = (Inr key, w')"
      using fetch False lp Inr s by (simp add: FetchSealedVaultKey_def bank Let_def)
    note U = UnsealDiskKey_Inr_D [OF u]
    from SealDiskKey_None_D(5) [OF s] U(1) have "key = k"
      by (auto simp: unsealable_def)
    with U u s Inr False lp show ?thesis by auto
  next
    case (Inl e)
    then have lp: "\<not> isLegacyKeyPresent w0" by (simp add: isLegacyKeyPresent_def)
    obtain g w1 where g0: "GetRandom vaultKeyLength w0 = (g, w1)"
      by (cases "GetRandom vaultKeyLength w0")
    obtain k where g: "GetRandom vaultKeyLength w0 = (Inr k, w1)"
      using fetch False lp g0
      by (cases g) (simp_all add: FetchSealedVaultKey_def bank Let_def)
    obtain r w3 where s0: "SealDiskKey k DiskKeySealingPCRs w1 = (r, w3)"
      by (cases "SealDiskKey k DiskKeySealingPCRs w1")
    have s: "SealDiskKey k DiskKeySealingPCRs w1 = (None, w3)"
      using fetch False lp g s0
      by (cases r) (simp_all add: FetchSealedVaultKey_def bank Let_def)
    have u: "UnsealDiskKey DiskKeySealingPCRs w3 = (Inr key, w')"
      using fetch False lp g s by (simp add: FetchSealedVaultKey_def bank Let_def)
    note U = UnsealDiskKey_Inr_D [OF u]
    from SealDiskKey_None_D(5) [OF s] U(1) have "key = k"
      by (auto simp: unsealable_def)
    with U u s g False lp show ?thesis by auto
  qed
qed

text \<open>
  C9. With the SHA256 bank supported, a key that \<^verbatim>\<open>FetchSealedVaultKey\<close> returns is
  the result of \<^verbatim>\<open>UnsealDiskKey\<close>, run on the state \<open>w3\<close> that is: the state at hand
  when a sealed key is present; the state left by the seal of the legacy key when only
  that one is present; the state left by the seal of 32 fresh random bytes when there is
  no key. In the last two cases the key returned is the key just sealed, read back
  through the unseal. In all cases the sealed blob is unsealable in \<open>w3\<close>, and still so in
  the state the call leaves.
\<close>

theorem FetchSealedVaultKey_returns_unsealed:
  assumes bank: "PCRBankSHA256Enabled w = (True, w0)"
    and fetch: "FetchSealedVaultKey w = (Inr key, w')"
  shows "\<exists>w3. UnsealDiskKey DiskKeySealingPCRs w3 = (Inr key, w') \<and>
           unsealable DiskKeySealingPCRs w3 key \<and> unsealable DiskKeySealingPCRs w' key \<and>
           (if isSealedKeyPresent w0 then w3 = w0
            else if isLegacyKeyPresent w0 then
              readDiskKey w0 = Inr key \<and> SealDiskKey key DiskKeySealingPCRs w0 = (None, w3)
            else
              (\<exists>w1. GetRandom vaultKeyLength w0 = (Inr key, w1) \<and>
                    SealDiskKey key DiskKeySealingPCRs w1 = (None, w3)))"
  using bank fetch by (rule FetchSealedVaultKey_Inr_D)

lemma SealDiskKey_unsealable:
  assumes "SealDiskKey k pcrSel w = (None, w1)"
    and "\<forall>c\<in>set unseal_cmds. tpm_fault w c = None"
  shows "unsealable pcrSel w1 k"
proof -
  note S = SealDiskKey_None_D [OF assms(1)]
  from S(2) have e: "tpm_present w1 = tpm_present w" "tpm_fault w1 = tpm_fault w"
    "policy_digest w1 = policy_digest w"
    by (simp_all add: same_device_def)
  from S(5) same_device_selected_values [OF S(2)] S(1) assms(2) show ?thesis
    by (auto simp: unsealable_def e)
qed

lemma FetchSealedVaultKey_fresh:
  assumes "PCRBankSHA256Enabled w = (True, w0)" "\<not> isSealedKeyPresent w0"
    "\<not> isLegacyKeyPresent w0" "GetRandom vaultKeyLength w0 = (Inr k, w1)"
    "SealDiskKey k DiskKeySealingPCRs w1 = (None, w3)"
  shows "FetchSealedVaultKey w = UnsealDiskKey DiskKeySealingPCRs w3"
  using assms by (simp add: FetchSealedVaultKey_def Let_def)

lemma FetchSealedVaultKey_legacy:
  assumes "PCRBankSHA256Enabled w = (True, w0)" "\<not> isSealedKeyPresent w0"
    "readDiskKey w0 = Inr k" "SealDiskKey k DiskKeySealingPCRs w0 = (None, w3)"
  shows "FetchSealedVaultKey w = UnsealDiskKey DiskKeySealingPCRs w3"
  using assms by (simp add: FetchSealedVaultKey_def Let_def isLegacyKeyPresent_def)

lemma demo_bank: "PCRBankSHA256Enabled demo_world = (True, demo_world0)"
  by (simp add: PCRBankSHA256Enabled_def pcrBankSHA256EnabledHelper_def IsTpmEnabled_def
      eval_defs demo_world_def demo_world0_def)

lemma demo_no_keys: "\<not> isSealedKeyPresent demo_world0" "\<not> isLegacyKeyPresent demo_world0"
  by (simp_all add: isSealedKeyPresent_def isLegacyKeyPresent_def readDiskKey_def eval_defs
      demo_world_def demo_world0_def)

lemma demo_random:
  "GetRandom vaultKeyLength demo_world0 = (Inr fresh_key, demo_world0\<lparr>rng_pos := 32\<rparr>)"
  by (simp add: GetRandom_def vaultKeyLength_def eval_defs demo_world_def demo_world0_def
      fresh_key_def upt_rec)

lemma demo_fresh_seal:
  "fst (SealDiskKey fresh_key DiskKeySealingPCRs (demo_world0\<lparr>rng_pos := 32\<rparr>)) = None"
  by (simp add: SealDiskKey_def eval_defs demo_world_def demo_world0_def fresh_key_def)

lemma demo_fetch:
  "FetchSealedVaultKey demo_world = (Inr fresh_key, snd (FetchSealedVaultKey demo_world))"
proof -
  let ?w3 = "snd (SealDiskKey fresh_key DiskKeySealingPCRs (demo_world0\<lparr>rng_pos := 32\<rparr>))"
  have s: "SealDiskKey fresh_key DiskKeySealingPCRs (demo_world0\<lparr>rng_pos := 32\<rparr>) = (None, ?w3)"
    using demo_fresh_seal by (simp add: prod_eq_iff)
  have "unsealable DiskKeySealingPCRs ?w3 fresh_key"
    by (rule SealDiskKey_unsealable [OF s]) (simp add: demo_world0_def demo_world_def)
  then have "fst (UnsealDiskKey DiskKeySealingPCRs ?w3) = Inr fresh_key"
    by (rule unsealable_imp_UnsealDiskKey)
  then show ?thesis
    by (simp add: FetchSealedVaultKey_fresh [OF demo_bank demo_no_keys demo_random s]
        prod_eq_iff)
qed

theorem FetchSealedVaultKey_returns_unsealed_witness:
  "PCRBankSHA256Enabled demo_world = (True, demo_world0) \<and>
   FetchSealedVaultKey demo_world = (Inr fresh_key, snd (FetchSealedVaultKey demo_world)) \<and>
   (\<exists>w3. UnsealDiskKey DiskKeySealingPCRs w3 =
            (Inr fresh_key, snd (FetchSealedVaultKey demo_world)) \<and>
         unsealable DiskKeySealingPCRs w3 fresh_key \<and>
         unsealable DiskKeySealingPCRs (snd (FetchSealedVaultKey demo_world)) fresh_key \<and>
         (\<exists>w1. GetRandom vaultKeyLength demo_world0 = (Inr fresh_key, w1) \<and>
               SealDiskKey fresh_key DiskKeySealingPCRs w1 = (None, w3)))"
  using FetchSealedVaultKey_returns_unsealed [OF demo_bank demo_fetch] demo_bank demo_fetch
    demo_no_keys
  by simp

text \<open>
  C6. Let the SHA256 bank be supported and only a legacy key \<open>k\<close> be present. When
  \<^verbatim>\<open>FetchSealedVaultKey\<close> returns a key, it has sealed \<open>k\<close> itself (the call of
  \<^verbatim>\<open>SealDiskKey\<close> is on \<open>k\<close>, and the private sealed index holds its bytes), the key
  returned is \<open>k\<close>, the legacy NV index is as it was and still reads \<open>k\<close>, and
  \<^verbatim>\<open>CompareLegacyandSealedKey\<close> on the state the call leaves reports \<open>Reused\<close>.
\<close>

theorem legacy_migration:
  assumes bank: "PCRBankSHA256Enabled w = (True, w0)"
    and only_legacy: "\<not> isSealedKeyPresent w0" "readDiskKey w0 = Inr k"
    and fetch: "FetchSealedVaultKey w = (Inr key, w')"
  shows "key = k \<and>
         (\<exists>w3. SealDiskKey k DiskKeySealingPCRs w0 = (None, w3)) \<and>
         nv w' TpmSealedDiskPrivHdl = Some (length k, Some k) \<and>
         nv w' TpmDiskKeyHdl = nv w TpmDiskKeyHdl \<and>
         readDiskKey w' = Inr k \<and>
         fst (CompareLegacyandSealedKey w') = SealedKeyTypeReused"
proof (intro conjI)
  have lp: "isLegacyKeyPresent w0" using only_legacy(2) by (simp add: isLegacyKeyPresent_def)
  from FetchSealedVaultKey_Inr_D [OF bank fetch] only_legacy(1) lp
  obtain w3 where u: "UnsealDiskKey DiskKeySealingPCRs w3 = (Inr key, w')"
    and us: "unsealable DiskKeySealingPCRs w' key"
    and rk: "readDiskKey w0 = Inr key"
    and s: "SealDiskKey key DiskKeySealingPCRs w0 = (None, w3)"
    by auto
  show e: "key = k" using rk only_legacy(2) by simp
  show "\<exists>w3. SealDiskKey k DiskKeySealingPCRs w0 = (None, w3)" using s e by blast
  note S = SealDiskKey_None_D [OF s]
  note U = UnsealDiskKey_Inr_D [OF u]
  have k03: "keeps_nv w3 w'" by (rule U(2))
  have n3: "nv w' = nv w3" using k03 by (simp add: keeps_nv_def)
  show "nv w' TpmSealedDiskPrivHdl = Some (length k, Some k)"
    using S(5) n3 e by auto
  have n0: "nv w3 TpmDiskKeyHdl = nv w0 TpmDiskKeyHdl" by (rule S(6)) simp_all
  show "nv w' TpmDiskKeyHdl = nv w TpmDiskKeyHdl"
    using n0 n3 PCRBankSHA256Enabled_keeps(2) [OF bank] by simp
  have sd: "same_device w0 w'"
    using S(2) k03 by (auto simp: keeps_nv_def intro: same_device_trans)
  have f: "tpm_fault w' = tpm_fault w0" "tpm_present w' = tpm_present w0"
    using sd by (simp_all add: same_device_def)
  have "NVReadEx w' TpmDiskKeyHdl = NVReadEx w0 TpmDiskKeyHdl"
    using n0 n3 f by (auto simp: NVReadEx_def split: option.splits)
  then have "readDiskKey w' = readDiskKey w0"
    using f by (simp add: readDiskKey_def OpenTPM_def)
  then show r: "readDiskKey w' = Inr k"
    using only_legacy(2) by simp
  have p: "isSealedKeyPresent w'" using us by (rule unsealable_isSealedKeyPresent)
  obtain w'' where u2: "UnsealDiskKey DiskKeySealingPCRs w' = (Inr key, w'')"
    using unsealable_imp_UnsealDiskKey [OF us]
    by (cases "UnsealDiskKey DiskKeySealingPCRs w'") simp
  show "fst (CompareLegacyandSealedKey w') = SealedKeyTypeReused"
    by (simp add: CompareLegacyandSealedKey_def p r u2 e)
qed

lemma legacy_bank: "PCRBankSHA256Enabled legacy_world = (True, legacy_world0)"
  by (simp add: PCRBankSHA256Enabled_def pcrBankSHA256EnabledHelper_def IsTpmEnabled_def
      eval_defs demo_world_def legacy_world_def legacy_world0_def)

lemma legacy_only:
  "\<not> isSealedKeyPresent legacy_world0" "readDiskKey legacy_world0 = Inr demo_key"
  by (simp_all add: isSealedKeyPresent_def readDiskKey_def eval_defs
      demo_world_def legacy_world_def legacy_world0_def)

lemma legacy_seal:
  "fst (SealDiskKey demo_key DiskKeySealingPCRs legacy_world0) = None"
  by (simp add: SealDiskKey_def eval_defs demo_world_def legacy_world_def legacy_world0_def
      demo_key_def)

lemma legacy_fetch:
  "FetchSealedVaultKey legacy_world = (Inr demo_key, snd (FetchSealedVaultKey legacy_world))"
proof -
  let ?w3 = "snd (SealDiskKey demo_key DiskKeySealingPCRs legacy_world0)"
  have s: "SealDiskKey demo_key DiskKeySealingPCRs legacy_world0 = (None, ?w3)"
    using legacy_seal by (simp add: prod_eq_iff)
  have "unsealable DiskKeySealingPCRs ?w3 demo_key"
    by (rule SealDiskKey_unsealable [OF s])
      (simp add: legacy_world0_def legacy_world_def demo_world_def)
  then have "fst (UnsealDiskKey DiskKeySealingPCRs ?w3) = Inr demo_key"
    by (rule unsealable_imp_UnsealDiskKey)
  then show ?thesis
    by (simp add: FetchSealedVaultKey_legacy [OF legacy_bank legacy_only s] prod_eq_iff)
qed

theorem legacy_migration_witness:
  "PCRBankSHA256Enabled legacy_world = (True, legacy_world0) \<and>
   \<not> isSealedKeyPresent legacy_world0 \<and> readDiskKey legacy_world0 = Inr demo_key \<and>
   FetchSealedVaultKey legacy_world = (Inr demo_key, snd (FetchSealedVaultKey legacy_world)) \<and>
   nv (snd (FetchSealedVaultKey legacy_world)) TpmSealedDiskPrivHdl = Some (32, Some demo_key) \<and>
   nv (snd (FetchSealedVaultKey legacy_world)) TpmDiskKeyHdl = Some (32, Some demo_key) \<and>
   readDiskKey (snd (FetchSealedVaultKey legacy_world)) = Inr demo_key \<and>
   fst (CompareLegacyandSealedKey (snd (FetchSealedVaultKey legacy_world))) = SealedKeyTypeReused"
proof -
  have l: "length demo_key = 32" by (simp add: demo_key_def)
  have n: "nv legacy_world TpmDiskKeyHdl = Some (32, Some demo_key)"
    by (simp add: legacy_world_def)
  from legacy_migration [OF legacy_bank legacy_only legacy_fetch] legacy_bank legacy_only
    legacy_fetch l n
  show ?thesis by simp
qed

subsection \<open>The legacy path\<close>

lemma FetchVaultKey_readable:
  "readDiskKey w0 = Inr k \<Longrightarrow> FetchVaultKey w0 = (Inr k, w0)"
  by (simp add: FetchVaultKey_def)

lemma upt_length_32: "length (map f [p..<p + 32]) = 32"
  by simp

lemma FetchVaultKey_generated:
  assumes "readDiskKey w0 = Inl e" and "FetchVaultKey w0 = (Inr key, w')"
  shows "key = map (rng w0) [rng_pos w0..<rng_pos w0 + 32]"
    and "tpm2_GetRandom 32 w0 = (Inr key, w0\<lparr>rng_pos := rng_pos w0 + 32\<rparr>)"
    and "w' = w0\<lparr>rng_pos := rng_pos w0 + 32, nv := (nv w0)(TpmDiskKeyHdl \<mapsto> (32, Some key))\<rparr>"
proof -
  obtain g w1 where g0: "GetRandom vaultKeyLength w0 = (g, w1)"
    by (cases "GetRandom vaultKeyLength w0")
  have g: "GetRandom vaultKeyLength w0 = (Inr key, w1)"
    using assms g0 by (cases g) (auto simp: FetchVaultKey_def split: option.splits prod.splits)
  obtain r where wr0: "writeDiskKey key w1 = (r, w')"
    using assms g by (cases "writeDiskKey key w1") (auto simp: FetchVaultKey_def split: option.splits)
  have wr: "writeDiskKey key w1 = (None, w')"
    using assms g wr0 by (cases r) (auto simp: FetchVaultKey_def)
  from g have p: "tpm_present w0" and k: "key = map (rng w0) [rng_pos w0..<rng_pos w0 + 32]"
    and w1: "w1 = w0\<lparr>rng_pos := rng_pos w0 + 32\<rparr>"
    and t: "tpm2_GetRandom 32 w0 = (Inr key, w0\<lparr>rng_pos := rng_pos w0 + 32\<rparr>)"
    by (auto simp: GetRandom_def tpm2_GetRandom_def vaultKeyLength_def OpenTPM_def
        split: if_splits option.splits)
  show "key = map (rng w0) [rng_pos w0..<rng_pos w0 + 32]" by (rule k)
  show "tpm2_GetRandom 32 w0 = (Inr key, w0\<lparr>rng_pos := rng_pos w0 + 32\<rparr>)" by (rule t)
  have l: "length key = 32" by (simp add: k)
  define wu where "wu = snd (NVUndefineSpace TpmDiskKeyHdl w1)"
  obtain d w2 where d0: "NVDefineSpace TpmDiskKeyHdl 32 wu = (d, w2)"
    by (cases "NVDefineSpace TpmDiskKeyHdl 32 wu")
  have d: "NVDefineSpace TpmDiskKeyHdl 32 wu = (None, w2)"
    using wr d0 p by (cases d) (auto simp: writeDiskKey_def OpenTPM_def w1 l Let_def wu_def)
  have x: "NVWrite TpmDiskKeyHdl key w2 = (None, w')"
    using wr d p by (cases "NVWrite TpmDiskKeyHdl key w2")
      (auto simp: writeDiskKey_def OpenTPM_def w1 l Let_def wu_def split: option.splits)
  from d have nu: "nv wu TpmDiskKeyHdl = None"
    and w2: "w2 = wu\<lparr>nv := (nv wu)(TpmDiskKeyHdl \<mapsto> (32, None))\<rparr>"
    by (simp_all add: NVDefineSpace_None_iff)
  from x w2 l have w': "w' = w2\<lparr>nv := (nv w2)(TpmDiskKeyHdl \<mapsto> (32, Some key))\<rparr>"
    by (auto simp: NVWrite_None_iff)
  have wu: "wu = w1\<lparr>nv := (nv w1)(TpmDiskKeyHdl := None)\<rparr>"
  proof -
    have "nv wu = (nv w1)(TpmDiskKeyHdl := None)"
      using nu by (auto simp: wu_def NVUndefineSpace_def fun_eq_iff split: option.splits)
    moreover have "only_tpm w1 wu" "sessions wu = sessions w1" "objects wu = objects w1"
      "next_handle wu = next_handle w1"
      by (simp_all add: wu_def NVUndefineSpace_frame)
    ultimately show ?thesis by (simp add: only_tpm_def)
  qed
  show "w' = w0\<lparr>rng_pos := rng_pos w0 + 32, nv := (nv w0)(TpmDiskKeyHdl \<mapsto> (32, Some key))\<rparr>"
    by (simp add: w' w2 wu w1)
qed
lemma legacy_cmds_agree_D:
  assumes "\<forall>c\<in>set legacy_cmds. F c = tpm_fault w c"
  shows "F CmdReadPCR = tpm_fault w CmdReadPCR"
    "F (CmdNVReadEx TpmDiskKeyHdl) = tpm_fault w (CmdNVReadEx TpmDiskKeyHdl)"
    "F CmdGetRandom = tpm_fault w CmdGetRandom"
    "F (CmdNVUndefineSpace TpmDiskKeyHdl) = tpm_fault w (CmdNVUndefineSpace TpmDiskKeyHdl)"
    "F (CmdNVDefineSpace TpmDiskKeyHdl) = tpm_fault w (CmdNVDefineSpace TpmDiskKeyHdl)"
    "F (CmdNVWrite TpmDiskKeyHdl) = tpm_fault w (CmdNVWrite TpmDiskKeyHdl)"
  using assms by (simp_all add: legacy_cmds_def)

lemma NVReadEx_fault_indep:
  "F (CmdNVReadEx h) = tpm_fault w (CmdNVReadEx h) \<Longrightarrow>
   NVReadEx (w\<lparr>tpm_fault := F\<rparr>) h = NVReadEx w h"
  by (auto simp: NVReadEx_def split: option.splits)

lemma ReadPCR_fault_indep:
  "F CmdReadPCR = tpm_fault w CmdReadPCR \<Longrightarrow>
   ReadPCR (w\<lparr>tpm_fault := F\<rparr>) i alg = ReadPCR w i alg"
  by (auto simp: ReadPCR_def split: option.splits)

lemma readDiskKey_fault_indep:
  assumes "\<forall>c\<in>set legacy_cmds. F c = tpm_fault w c"
  shows "readDiskKey (w\<lparr>tpm_fault := F\<rparr>) = readDiskKey w"
  by (simp add: readDiskKey_def OpenTPM_def NVReadEx_fault_indep legacy_cmds_agree_D [OF assms])

lemma GetRandom_fault_indep:
  assumes "\<forall>c\<in>set legacy_cmds. F c = tpm_fault w c"
  shows "GetRandom n (w\<lparr>tpm_fault := F\<rparr>) =
     (fst (GetRandom n w), (snd (GetRandom n w))\<lparr>tpm_fault := F\<rparr>)"
  by (simp add: GetRandom_def OpenTPM_def tpm2_GetRandom_def legacy_cmds_agree_D [OF assms]
      split: option.splits)

lemma writeDiskKey_fault_indep:
  assumes "\<forall>c\<in>set legacy_cmds. F c = tpm_fault w c"
  shows "fst (writeDiskKey key (w\<lparr>tpm_fault := F\<rparr>)) = fst (writeDiskKey key w)"
  by (simp add: writeDiskKey_def OpenTPM_def NVUndefineSpace_def NVDefineSpace_def NVWrite_def
      Let_def legacy_cmds_agree_D [OF assms] split: option.splits)

lemma GetRandom_keeps_fault: "tpm_fault (snd (GetRandom n w)) = tpm_fault w"
  by (simp add: GetRandom_def tpm2_GetRandom_def split: option.splits)

lemma FetchVaultKey_fault_indep:
  assumes a: "\<forall>c\<in>set legacy_cmds. F c = tpm_fault w c"
  shows "fst (FetchVaultKey (w\<lparr>tpm_fault := F\<rparr>)) = fst (FetchVaultKey w)"
proof (cases "readDiskKey w")
  case (Inr k)
  then show ?thesis by (simp add: FetchVaultKey_def readDiskKey_fault_indep [OF a])
next
  case (Inl e)
  obtain g w1 where g: "GetRandom vaultKeyLength w = (g, w1)"
    by (cases "GetRandom vaultKeyLength w")
  have g': "GetRandom vaultKeyLength (w\<lparr>tpm_fault := F\<rparr>) = (g, w1\<lparr>tpm_fault := F\<rparr>)"
    by (simp add: GetRandom_fault_indep [OF a] g)
  have a1: "\<forall>c\<in>set legacy_cmds. F c = tpm_fault w1 c"
    using a GetRandom_keeps_fault [of vaultKeyLength w] g by simp
  show ?thesis
  proof (cases g)
    case (Inl e')
    then show ?thesis
      using \<open>readDiskKey w = Inl e\<close>
      by (simp add: FetchVaultKey_def readDiskKey_fault_indep [OF a] g g')
  next
    case (Inr key)
    obtain r w2 where wr: "writeDiskKey key w1 = (r, w2)" by (cases "writeDiskKey key w1")
    obtain r' w2' where wr': "writeDiskKey key (w1\<lparr>tpm_fault := F\<rparr>) = (r', w2')"
      by (cases "writeDiskKey key (w1\<lparr>tpm_fault := F\<rparr>)")
    from writeDiskKey_fault_indep [OF a1, of key] wr wr' have "r' = r" by simp
    then show ?thesis
      using \<open>readDiskKey w = Inl e\<close> Inr
      by (cases r) (simp_all add: FetchVaultKey_def readDiskKey_fault_indep [OF a] g g' wr wr')
  qed
qed

lemma PCRBankSHA256Enabled_fault_indep:
  assumes a: "\<forall>c\<in>set legacy_cmds. F c = tpm_fault w c"
  shows "PCRBankSHA256Enabled (w\<lparr>tpm_fault := F\<rparr>) =
     (fst (PCRBankSHA256Enabled w), (snd (PCRBankSHA256Enabled w))\<lparr>tpm_fault := F\<rparr>)"
  by (simp add: PCRBankSHA256Enabled_def pcrBankSHA256EnabledHelper_def IsTpmEnabled_def
      FileExists_def OpenTPM_def ReadPCR_fault_indep Let_def legacy_cmds_agree_D [OF a])

text \<open>
  C7. Let the SHA256 bank be unsupported. Then \<^verbatim>\<open>FetchSealedVaultKey\<close> is
  \<^verbatim>\<open>FetchVaultKey\<close>. When the legacy key can be read from NV it is returned and
  the state is left as it is. When it cannot and the call returns a key, the key
  is the next 32 bytes of the module's generator, the legacy NV index holds exactly these
  32 bytes, and nothing else changed but the position of the generator: the sealed
  indices, the sessions, the loaded objects and the files are as before. No seal or
  unseal is attempted: the result is the same when every command other than those of the
  legacy path is made to fail.
\<close>

theorem legacy_only_mode:
  assumes nobank: "PCRBankSHA256Enabled w = (False, w0)"
  shows "FetchSealedVaultKey w = FetchVaultKey w0 \<and>
     (\<forall>k. readDiskKey w0 = Inr k \<longrightarrow> FetchSealedVaultKey w = (Inr k, w0)) \<and>
     (\<forall>e key w'. readDiskKey w0 = Inl e \<and> FetchSealedVaultKey w = (Inr key, w') \<longrightarrow>
        length key = 32 \<and>
        tpm2_GetRandom 32 w0 = (Inr key, w0\<lparr>rng_pos := rng_pos w0 + 32\<rparr>) \<and>
        w' = w0\<lparr>rng_pos := rng_pos w0 + 32,
                nv := (nv w0)(TpmDiskKeyHdl \<mapsto> (32, Some key))\<rparr>) \<and>
     (\<forall>F. (\<forall>c\<in>set legacy_cmds. F c = tpm_fault w c) \<longrightarrow>
        fst (FetchSealedVaultKey (w\<lparr>tpm_fault := F\<rparr>)) = fst (FetchSealedVaultKey w))"
proof (intro conjI allI impI)
  show eq: "FetchSealedVaultKey w = FetchVaultKey w0"
    by (simp add: FetchSealedVaultKey_def nobank)
  show "FetchSealedVaultKey w = (Inr k, w0)" if "readDiskKey w0 = Inr k" for k
    using that by (simp add: eq FetchVaultKey_readable)
  fix e key w'
  assume h: "readDiskKey w0 = Inl e \<and> FetchSealedVaultKey w = (Inr key, w')"
  then have g: "readDiskKey w0 = Inl e" "FetchVaultKey w0 = (Inr key, w')"
    by (simp_all add: eq)
  note G = FetchVaultKey_generated [OF g]
  show "length key = 32" by (simp add: G(1))
  show "tpm2_GetRandom 32 w0 = (Inr key, w0\<lparr>rng_pos := rng_pos w0 + 32\<rparr>)" by (rule G(2))
  show "w' = w0\<lparr>rng_pos := rng_pos w0 + 32,
                nv := (nv w0)(TpmDiskKeyHdl \<mapsto> (32, Some key))\<rparr>" by (rule G(3))
next
  fix F assume a: "\<forall>c\<in>set legacy_cmds. F c = tpm_fault w c"
  have f0: "tpm_fault w0 = tpm_fault w"
    using PCRBankSHA256Enabled_keeps(1) [OF nobank] by (simp add: same_device_def)
  have b: "PCRBankSHA256Enabled (w\<lparr>tpm_fault := F\<rparr>) = (False, w0\<lparr>tpm_fault := F\<rparr>)"
    by (simp add: PCRBankSHA256Enabled_fault_indep [OF a] nobank)
  have "fst (FetchSealedVaultKey (w\<lparr>tpm_fault := F\<rparr>)) =
      fst (FetchVaultKey (w0\<lparr>tpm_fault := F\<rparr>))"
    by (simp add: FetchSealedVaultKey_def b)
  also have "\<dots> = fst (FetchVaultKey w0)"
    by (rule FetchVaultKey_fault_indep) (simp add: f0 a)
  also have "\<dots> = fst (FetchSealedVaultKey w)"
    by (simp add: FetchSealedVaultKey_def nobank)
  finally show "fst (FetchSealedVaultKey (w\<lparr>tpm_fault := F\<rparr>)) = fst (FetchSealedVaultKey w)" .
qed
lemma nobank_bank:
  "PCRBankSHA256Enabled nobank_world = (False, nobank_world0)"
  "PCRBankSHA256Enabled nobank_legacy_world = (False, nobank_legacy_world0)"
  by (simp_all add: PCRBankSHA256Enabled_def pcrBankSHA256EnabledHelper_def IsTpmEnabled_def
      eval_defs demo_world_def nobank_world_def nobank_world0_def nobank_legacy_world_def
      nobank_legacy_world0_def)

lemma nobank_read:
  "readDiskKey nobank_world0 = Inl (ErrWrap ''NVReadEx failed'' (ErrTpm RCHandle))"
  "readDiskKey nobank_legacy_world0 = Inr demo_key"
  by (simp_all add: readDiskKey_def eval_defs demo_world_def nobank_world_def nobank_world0_def
      nobank_legacy_world_def nobank_legacy_world0_def)

lemma nobank_fetch:
  "FetchSealedVaultKey nobank_world = (Inr fresh_key, snd (FetchSealedVaultKey nobank_world))"
proof -
  have "fst (FetchVaultKey nobank_world0) = Inr fresh_key"
    by (simp add: FetchVaultKey_def GetRandom_def writeDiskKey_def readDiskKey_def
        vaultKeyLength_def eval_defs demo_world_def nobank_world_def nobank_world0_def
        fresh_key_def upt_rec)
  then show ?thesis
    by (simp add: FetchSealedVaultKey_def nobank_bank prod_eq_iff)
qed

lemma seal_faulty_agrees: "\<forall>c\<in>set legacy_cmds. seal_faulty c = tpm_fault nobank_world c"
  by (simp add: seal_faulty_def nobank_world_def demo_world_def)

theorem legacy_only_mode_witness:
  "PCRBankSHA256Enabled nobank_legacy_world = (False, nobank_legacy_world0) \<and>
   readDiskKey nobank_legacy_world0 = Inr demo_key \<and>
   FetchSealedVaultKey nobank_legacy_world = (Inr demo_key, nobank_legacy_world0) \<and>
   PCRBankSHA256Enabled nobank_world = (False, nobank_world0) \<and>
   readDiskKey nobank_world0 = Inl (ErrWrap ''NVReadEx failed'' (ErrTpm RCHandle)) \<and>
   FetchSealedVaultKey nobank_world =
     (Inr fresh_key,
      nobank_world0\<lparr>rng_pos := rng_pos nobank_world0 + 32,
                    nv := (nv nobank_world0)(TpmDiskKeyHdl \<mapsto> (32, Some fresh_key))\<rparr>) \<and>
   length fresh_key = 32 \<and>
   map seal_faulty legacy_cmds = map (tpm_fault nobank_world) legacy_cmds \<and>
   seal_faulty CmdSeal = Some (RCFault 1) \<and> seal_faulty CmdUnseal = Some (RCFault 1) \<and>
   fst (FetchSealedVaultKey (nobank_world\<lparr>tpm_fault := seal_faulty\<rparr>)) = Inr fresh_key"
proof -
  note L = legacy_only_mode [OF nobank_bank(2)]
  note N = legacy_only_mode [OF nobank_bank(1)]
  from L nobank_read(2)
  have a: "FetchSealedVaultKey nobank_legacy_world = (Inr demo_key, nobank_legacy_world0)"
    by blast
  from N nobank_read(1) nobank_fetch
  have b: "length fresh_key = 32 \<and>
      snd (FetchSealedVaultKey nobank_world) =
        nobank_world0\<lparr>rng_pos := rng_pos nobank_world0 + 32,
                      nv := (nv nobank_world0)(TpmDiskKeyHdl \<mapsto> (32, Some fresh_key))\<rparr>"
    by blast
  from N seal_faulty_agrees nobank_fetch
  have c: "fst (FetchSealedVaultKey (nobank_world\<lparr>tpm_fault := seal_faulty\<rparr>)) = Inr fresh_key"
    by (metis fst_conv)
  have d: "seal_faulty CmdSeal = Some (RCFault 1)" "seal_faulty CmdUnseal = Some (RCFault 1)"
    by (simp_all add: seal_faulty_def legacy_cmds_def)
  have e: "map seal_faulty legacy_cmds = map (tpm_fault nobank_world) legacy_cmds"
    using seal_faulty_agrees by simp
  from a b c d e nobank_bank nobank_read nobank_fetch show ?thesis
    by (simp add: prod_eq_iff)
qed

subsection \<open>The snapshot of the registers\<close>

lemma read_loop_Inr_D:
  "read_loop w vs acc = Inr m \<Longrightarrow>
   map_of m = (\<lambda>i. if i \<in> set vs then pcr w (Hash DiskKeySealingPCRs) i else map_of acc i) \<and>
   (\<forall>i\<in>set vs. pcr w (Hash DiskKeySealingPCRs) i \<noteq> None)"
proof (induction vs arbitrary: acc)
  case Nil
  then show ?case by simp
next
  case (Cons v vs)
  from Cons.prems obtain p where p: "ReadPCR w v (Hash DiskKeySealingPCRs) = Inr p"
    and r: "read_loop w vs (AList.update v p acc) = Inr m"
    by (auto split: sum.splits)
  from p have pv: "pcr w (Hash DiskKeySealingPCRs) v = Some p"
    by (auto simp: ReadPCR_def split: option.splits)
  from Cons.IH [OF r] pv show ?case
    by (auto simp: fun_eq_iff update_conv')
qed

lemma readDiskKeySealingPCRs_Inr_D:
  assumes "readDiskKeySealingPCRs w = Inr m"
  shows "map_of m = (\<lambda>i. if i \<in> set (PCRs DiskKeySealingPCRs)
                          then pcr w (Hash DiskKeySealingPCRs) i else None)"
    and "\<forall>i\<in>set (PCRs DiskKeySealingPCRs). pcr w (Hash DiskKeySealingPCRs) i \<noteq> None"
proof -
  from assms have "read_loop w (PCRs DiskKeySealingPCRs) [] = Inr m"
    by (auto simp: readDiskKeySealingPCRs_def split: if_splits)
  from read_loop_Inr_D [OF this]
  have a: "map_of m = (\<lambda>i. if i \<in> set (PCRs DiskKeySealingPCRs)
                          then pcr w (Hash DiskKeySealingPCRs) i else map_of [] i)"
    and b: "\<forall>i\<in>set (PCRs DiskKeySealingPCRs). pcr w (Hash DiskKeySealingPCRs) i \<noteq> None"
    by blast+
  from a show "map_of m = (\<lambda>i. if i \<in> set (PCRs DiskKeySealingPCRs)
                          then pcr w (Hash DiskKeySealingPCRs) i else None)"
    by (simp add: fun_eq_iff)
  from b show "\<forall>i\<in>set (PCRs DiskKeySealingPCRs). pcr w (Hash DiskKeySealingPCRs) i \<noteq> None" .
qed

lemma saveDiskKeySealingPCRs_None_D:
  assumes "saveDiskKeySealingPCRs f w = (None, w7)"
  shows "\<exists>m. readDiskKeySealingPCRs w = Inr m \<and> files w7 f = Some (GobPCRs m)"
  using assms
  by (auto simp: saveDiskKeySealingPCRs_def WriteRename_def split: if_splits sum.splits)

lemma same_device_paths:
  assumes "same_device w w'"
  shows "TpmSavedDiskSealingPcrs w' = TpmSavedDiskSealingPcrs w"
    "MeasurementLogSealSuccess w' = MeasurementLogSealSuccess w"
    "MeasurementLogUnsealFail w' = MeasurementLogUnsealFail w"
  using assms
  by (simp_all add: same_device_def TpmSavedDiskSealingPcrs_def MeasurementLogSealSuccess_def
      MeasurementLogUnsealFail_def)

lemma snapshot_path_differs [simp]:
  "TpmSavedDiskSealingPcrs w \<noteq> TpmEvtLogSavePattern (MeasurementLogSealSuccess w) i"
  "TpmSavedDiskSealingPcrs w \<noteq> TpmEvtLogSavePattern (MeasurementLogUnsealFail w) i"
  "TpmSavedDiskSealingPcrs w \<noteq>
     TpmEvtLogCollectPattern (TpmEvtLogSavePattern (MeasurementLogSealSuccess w) i)"
  "TpmSavedDiskSealingPcrs w \<noteq>
     TpmEvtLogCollectPattern (TpmEvtLogSavePattern (MeasurementLogUnsealFail w) i)"
  by (simp_all add: TpmSavedDiskSealingPcrs_def TpmEvtLogSavePattern_def
      TpmEvtLogCollectPattern_def MeasurementLogSealSuccess_def MeasurementLogUnsealFail_def)

lemma os_Rename_other: "p \<noteq> a \<Longrightarrow> p \<noteq> b \<Longrightarrow> files (snd (os_Rename a b w)) p = files w p"
  by (auto simp: os_Rename_def split: option.splits)

lemma os_Remove_other: "p \<noteq> a \<Longrightarrow> files (snd (os_Remove a w)) p = files w p"
  by (auto simp: os_Remove_def split: option.splits)

lemma WriteRename_other: "p \<noteq> a \<Longrightarrow> files (snd (WriteRename a c w)) p = files w p"
  by (auto simp: WriteRename_def)

lemma backup_body_keeps_snapshot:
  "files (snd (backup_body i w)) (TpmSavedDiskSealingPcrs w) = files w (TpmSavedDiskSealingPcrs w)"
proof -
  let ?p = "TpmSavedDiskSealingPcrs w"
  let ?ss = "TpmEvtLogSavePattern (MeasurementLogSealSuccess w) i"
  let ?uf = "TpmEvtLogSavePattern (MeasurementLogUnsealFail w) i"
  let ?w1 = "snd (os_Rename ?ss (TpmEvtLogCollectPattern ?ss) w)"
  let ?w2 = "snd (os_Rename ?uf (TpmEvtLogCollectPattern ?uf) ?w1)"
  let ?w3 = "snd (os_Rename (TpmEvtLogCollectPattern ?ss) ?ss ?w2)"
  have 1: "files ?w1 ?p = files w ?p" by (simp add: os_Rename_other)
  have 2: "files ?w2 ?p = files w ?p" by (simp add: os_Rename_other 1)
  have 3: "files ?w3 ?p = files w ?p" by (simp add: os_Rename_other 2)
  show ?thesis
    using 1 2 3
    by (auto simp: backup_body_def Let_def split: prod.splits option.splits)
qed

lemma backup_loop_keeps_snapshot:
  "files (snd (backup_loop i counted l w)) (TpmSavedDiskSealingPcrs w) =
     files w (TpmSavedDiskSealingPcrs w)"
proof (induction i counted l w rule: backup_loop.induct)
  case (1 i counted leftToBackup w)
  show ?case
  proof (cases "i < counted")
    case False
    then show ?thesis by (simp add: backup_loop.simps)
  next
    case True
    obtain ok w1 where b: "backup_body i w = (ok, w1)" by (cases "backup_body i w")
    from backup_body_only_files [of w i] b have "only_files w w1" by simp
    then have sd: "same_device w w1" by (rule only_files_D)
    have p: "TpmSavedDiskSealingPcrs w1 = TpmSavedDiskSealingPcrs w"
      by (rule same_device_paths [OF sd])
    from backup_body_keeps_snapshot [of i w] b
    have f: "files w1 (TpmSavedDiskSealingPcrs w) = files w (TpmSavedDiskSealingPcrs w)"
      by simp
    show ?thesis
    proof (cases ok)
      case True
      with "1.IH"(1) [OF \<open>i < counted\<close> b [symmetric]] b \<open>i < counted\<close> f p
      show ?thesis by (subst backup_loop.simps) simp
    next
      case False
      with "1.IH"(2) [OF \<open>i < counted\<close> b [symmetric]] b \<open>i < counted\<close> f p
      show ?thesis by (subst backup_loop.simps) simp
    qed
  qed
qed

lemma backupCopiedMeasurementLogs_keeps_snapshot:
  "files (snd (backupCopiedMeasurementLogs w)) (TpmSavedDiskSealingPcrs w) =
     files w (TpmSavedDiskSealingPcrs w)"
  using backup_loop_keeps_snapshot [of 0 _ _ w]
  by (auto simp: backupCopiedMeasurementLogs_def split: sum.splits prod.splits)
    (metis snd_conv)+

lemma remove_loop_keeps_snapshot:
  "files (remove_loop i counted w) (TpmSavedDiskSealingPcrs w) =
     files w (TpmSavedDiskSealingPcrs w)"
proof (induction i counted w rule: remove_loop.induct)
  case (1 i counted w)
  show ?case
  proof (cases "i < counted")
    case False
    then show ?thesis by (simp add: remove_loop.simps)
  next
    case True
    let ?w1 = "snd (os_Remove (TpmEvtLogSavePattern (MeasurementLogSealSuccess w) i) w)"
    let ?w2 = "snd (os_Remove (TpmEvtLogSavePattern (MeasurementLogUnsealFail w) i) ?w1)"
    have "only_files w ?w2"
      by (blast intro: only_files_trans os_Remove_only_files)
    then have sd: "same_device w ?w2" by (rule only_files_D)
    have p: "TpmSavedDiskSealingPcrs ?w2 = TpmSavedDiskSealingPcrs w"
      by (rule same_device_paths [OF sd])
    have f: "files ?w2 (TpmSavedDiskSealingPcrs w) = files w (TpmSavedDiskSealingPcrs w)"
      by (simp add: os_Remove_other)
    from "1.IH" [OF True refl refl refl refl] p f True show ?thesis
      by (subst remove_loop.simps) (simp add: Let_def)
  qed
qed

lemma removeCopiedMeasurementLogs_keeps_snapshot:
  "files (snd (removeCopiedMeasurementLogs w)) (TpmSavedDiskSealingPcrs w) =
     files w (TpmSavedDiskSealingPcrs w)"
  by (auto simp: removeCopiedMeasurementLogs_def remove_loop_keeps_snapshot split: sum.splits)

lemma copy_loop_other:
  "\<forall>j. TpmEvtLogSavePattern dst j \<noteq> p \<Longrightarrow>
   files (snd (copy_loop dst i paths l w)) p = files w p"
proof (induction paths arbitrary: i l w)
  case Nil
  then show ?case by simp
next
  case (Cons path paths)
  show ?case
  proof (cases "os_ReadFile w path")
    case (Inl e)
    then show ?thesis using Cons by simp
  next
    case (Inr c)
    obtain r w1 where wr: "WriteRename (TpmEvtLogSavePattern dst i) c w = (r, w1)"
      by (cases "WriteRename (TpmEvtLogSavePattern dst i) c w")
    from Cons.prems have "p \<noteq> TpmEvtLogSavePattern dst i" by metis
    from WriteRename_other [OF this, of c w] wr have f: "files w1 p = files w p" by simp
    show ?thesis
      using Inr wr f Cons.IH [OF Cons.prems, of _ _ w1]
      by (cases r) auto
  qed
qed

lemma copyMeasurementLog_seal_keeps_snapshot:
  "files (snd (copyMeasurementLog (MeasurementLogSealSuccess w) w)) (TpmSavedDiskSealingPcrs w) =
     files w (TpmSavedDiskSealingPcrs w)"
proof -
  have "\<forall>j. TpmEvtLogSavePattern (MeasurementLogSealSuccess w) j \<noteq> TpmSavedDiskSealingPcrs w"
    by (metis snapshot_path_differs(1))
  from copy_loop_other [OF this] show ?thesis
    by (auto simp: copyMeasurementLog_def split: sum.splits prod.splits) (metis snd_conv)+
qed

lemma seal_archive_None_D:
  assumes A: "seal_archive w6 = (None, w1)"
  shows "\<exists>m. readDiskKeySealingPCRs w6 = Inr m \<and>
             files w1 (TpmSavedDiskSealingPcrs w6) = Some (GobPCRs m)"
proof -
  let ?p = "TpmSavedDiskSealingPcrs w6"
  obtain r7 w7 where a0: "saveDiskKeySealingPCRs ?p w6 = (r7, w7)"
    by (cases "saveDiskKeySealingPCRs ?p w6")
  have a: "saveDiskKeySealingPCRs ?p w6 = (None, w7)"
    using A a0 by (cases r7) (simp_all add: seal_archive_def)
  obtain r8 w8 where b0: "backupCopiedMeasurementLogs w7 = (r8, w8)"
    by (cases "backupCopiedMeasurementLogs w7")
  have b: "backupCopiedMeasurementLogs w7 = (None, w8)"
    using A a b0 by (cases r8) (simp_all add: seal_archive_def)
  obtain r9 w9 where c0: "removeCopiedMeasurementLogs w8 = (r9, w9)"
    by (cases "removeCopiedMeasurementLogs w8")
  have c: "removeCopiedMeasurementLogs w8 = (None, w9)"
    using A a b c0 by (cases r9) (simp_all add: seal_archive_def)
  have d: "copyMeasurementLog (MeasurementLogSealSuccess w9) w9 = (None, w1)"
    using A a b c by (cases "copyMeasurementLog (MeasurementLogSealSuccess w9) w9")
      (auto simp: seal_archive_def split: option.splits)
  have s7: "same_device w6 w7"
    using saveDiskKeySealingPCRs_only_files [of w6 ?p] a by (simp add: only_files_D)
  have s8: "same_device w7 w8"
    using backupCopiedMeasurementLogs_only_files [of w7] b by (simp add: only_files_D)
  have s9: "same_device w8 w9"
    using removeCopiedMeasurementLogs_only_files [of w8] c by (simp add: only_files_D)
  have p7: "TpmSavedDiskSealingPcrs w7 = ?p" by (rule same_device_paths [OF s7])
  have p8: "TpmSavedDiskSealingPcrs w8 = ?p"
    using same_device_paths(1) [OF s8] p7 by simp
  have p9: "TpmSavedDiskSealingPcrs w9 = ?p"
    using same_device_paths(1) [OF s9] p8 by simp
  from saveDiskKeySealingPCRs_None_D [OF a] obtain m where
    m: "readDiskKeySealingPCRs w6 = Inr m" "files w7 ?p = Some (GobPCRs m)" by blast
  have f8: "files w8 ?p = files w7 ?p"
    using backupCopiedMeasurementLogs_keeps_snapshot [of w7] b p7 by simp
  have f9: "files w9 ?p = files w8 ?p"
    using removeCopiedMeasurementLogs_keeps_snapshot [of w8] c p8 by simp
  have f1: "files w1 ?p = files w9 ?p"
    using copyMeasurementLog_seal_keeps_snapshot [of w9] d p9 by simp
  from m f8 f9 f1 show ?thesis by simp
qed

lemma only_tpm_readDiskKeySealingPCRs:
  assumes "only_tpm w w6"
  shows "readDiskKeySealingPCRs w6 = readDiskKeySealingPCRs w"
proof -
  from only_tpm_D(1) [OF assms] have e: "tpm_present w6 = tpm_present w"
    "tpm_fault w6 = tpm_fault w" "pcr w6 = pcr w"
    by (simp_all add: same_device_def)
  have r: "\<And>i alg. ReadPCR w6 i alg = ReadPCR w i alg"
    by (auto simp: ReadPCR_def e split: option.splits)
  have "\<And>vs acc. read_loop w6 vs acc = read_loop w vs acc"
  proof -
    fix vs acc show "read_loop w6 vs acc = read_loop w vs acc"
      by (induction vs arbitrary: acc) (simp_all add: r split: sum.splits)
  qed
  then show ?thesis by (simp add: readDiskKeySealingPCRs_def OpenTPM_def e)
qed

lemma SealDiskKey_snapshot:
  assumes "SealDiskKey key pcrSel w = (None, w')"
  shows "\<exists>m. readDiskKeySealingPCRs w = Inr m \<and>
             files w' (TpmSavedDiskSealingPcrs w) = Some (GobPCRs m)"
proof -
  from SealDiskKey_None_D(10) [OF assms] obtain w6 where
    b: "seal_blobs key pcrSel w = (None, w6)" and a: "seal_archive w6 = (None, w')" by blast
  note B = seal_blobs_None_D [OF b]
  have p: "TpmSavedDiskSealingPcrs w6 = TpmSavedDiskSealingPcrs w"
    by (rule same_device_paths [OF only_tpm_D(1) [OF B(2)]])
  from seal_archive_None_D [OF a] show ?thesis
    by (simp add: p only_tpm_readDiskKeySealingPCRs [OF B(2)])
qed

text \<open>
  C5, as amended. For every selection \<open>pcrSel\<close> passed to \<^verbatim>\<open>SealDiskKey\<close>, a seal
  that returns without error leaves in the snapshot file the current values of the
  registers of the fixed selection \<open>DiskKeySealingPCRs\<close>, all of which could be read, and of
  no other register, whatever \<open>pcrSel\<close> is. The snapshot is that of the selection the
  secret was sealed under when \<open>pcrSel\<close> is \<open>DiskKeySealingPCRs\<close>.
\<close>

theorem seal_snapshot_fixed_selection:
  assumes "SealDiskKey key pcrSel w = (None, w')"
  shows "\<exists>m. files w' (TpmSavedDiskSealingPcrs w) = Some (GobPCRs m) \<and>
             map_of m = (\<lambda>i. if i \<in> set (PCRs DiskKeySealingPCRs)
                               then pcr w (Hash DiskKeySealingPCRs) i else None) \<and>
             (\<forall>i\<in>set (PCRs DiskKeySealingPCRs). pcr w (Hash DiskKeySealingPCRs) i \<noteq> None)"
proof -
  from SealDiskKey_snapshot [OF assms] obtain m where
    m: "readDiskKeySealingPCRs w = Inr m"
      "files w' (TpmSavedDiskSealingPcrs w) = Some (GobPCRs m)" by blast
  from readDiskKeySealingPCRs_Inr_D [OF m(1)] m(2) show ?thesis by blast
qed

lemma sel5_seal:
  "fst (SealDiskKey demo_key sel5 demo_world) = None"
  "files (snd (SealDiskKey demo_key sel5 demo_world)) (TpmSavedDiskSealingPcrs demo_world) =
     Some (GobPCRs [(0, [0, 0xA5]), (1, [1, 0xA5]), (2, [2, 0xA5]), (3, [3, 0xA5]),
                    (4, [4, 0xA5]), (6, [6, 0xA5]), (7, [7, 0xA5]), (8, [8, 0xA5]),
                    (9, [9, 0xA5]), (13, [13, 0xA5]), (14, [14, 0xA5])])"
  by (simp_all add: SealDiskKey_def eval_defs sel5_def demo_world_def demo_key_def)

theorem seal_snapshot_fixed_selection_witness:
  "SealDiskKey demo_key sel5 demo_world = (None, snd (SealDiskKey demo_key sel5 demo_world)) \<and>
   (\<exists>m. files (snd (SealDiskKey demo_key sel5 demo_world)) (TpmSavedDiskSealingPcrs demo_world)
           = Some (GobPCRs m) \<and>
        map_of m 0 = Some [0, 0xA5] \<and> map_of m 14 = Some [14, 0xA5] \<and> map_of m 5 = None)"
proof -
  have s: "SealDiskKey demo_key sel5 demo_world =
      (None, snd (SealDiskKey demo_key sel5 demo_world))"
    using sel5_seal(1) by (simp add: prod_eq_iff)
  from seal_snapshot_fixed_selection [OF s] obtain m where
    m: "files (snd (SealDiskKey demo_key sel5 demo_world)) (TpmSavedDiskSealingPcrs demo_world)
          = Some (GobPCRs m)"
      "map_of m = (\<lambda>i. if i \<in> set (PCRs DiskKeySealingPCRs)
                         then pcr demo_world (Hash DiskKeySealingPCRs) i else None)"
    by blast
  have "map_of m 0 = Some [0, 0xA5]" "map_of m 14 = Some [14, 0xA5]" "map_of m 5 = None"
    by (simp_all add: m(2) DiskKeySealingPCRs_def demo_world_def)
  with s m(1) show ?thesis by blast
qed

text \<open>
  C5, as stated, fails: sealed under the selection of register 5 alone, the secret gets a
  snapshot that holds the registers 0, 1, 2, 3, 4, 6, 7, 8, 9, 13 and 14, and not
  register 5.
\<close>

theorem seal_snapshot_counterexample:
  "fst (SealDiskKey demo_key \<lparr>Hash = AlgSHA256, PCRs = [5]\<rparr> demo_world) = None \<and>
   files (snd (SealDiskKey demo_key \<lparr>Hash = AlgSHA256, PCRs = [5]\<rparr> demo_world))
     (TpmSavedDiskSealingPcrs demo_world) =
     Some (GobPCRs [(0, [0, 0xA5]), (1, [1, 0xA5]), (2, [2, 0xA5]), (3, [3, 0xA5]),
                    (4, [4, 0xA5]), (6, [6, 0xA5]), (7, [7, 0xA5]), (8, [8, 0xA5]),
                    (9, [9, 0xA5]), (13, [13, 0xA5]), (14, [14, 0xA5])])"
  using sel5_seal by (simp add: sel5_def)

subsection \<open>Archival failures during the seal\<close>

lemma SealDiskKey_after_blobs:
  assumes b: "seal_blobs key pcrSel w = (None, w6)"
    and s: "SealDiskKey key pcrSel w = (r, w')"
  shows "only_files w6 w'" and "nv w' = nv w6"
    and "nv w' TpmSealedDiskPrivHdl = Some (length key, Some key)"
    and "(\<forall>c\<in>set unseal_cmds. tpm_fault w c = None) \<Longrightarrow> unsealable pcrSel w' key"
proof -
  from s b have a: "seal_archive w6 = (r, w')" by (simp add: SealDiskKey_phases)
  show o: "only_files w6 w'" using seal_archive_only_files [of w6] a by simp
  note F = only_files_D [OF o]
  note B = seal_blobs_None_D [OF b]
  show "nv w' = nv w6" by (rule F(2))
  show "nv w' TpmSealedDiskPrivHdl = Some (length key, Some key)"
    using B(3) by (auto simp: F(2))
  have sd: "same_device w w'"
    using only_tpm_D(1) [OF B(2)] F(1) by (rule same_device_trans)
  then have e: "tpm_present w' = tpm_present w" "tpm_fault w' = tpm_fault w"
    "policy_digest w' = policy_digest w"
    by (simp_all add: same_device_def)
  show "unsealable pcrSel w' key" if "\<forall>c\<in>set unseal_cmds. tpm_fault w c = None"
    using that B(1) B(3) same_device_selected_values [OF sd]
    by (auto simp: unsealable_def e F(2))
qed

text \<open>
  C2, as amended. Once the secret has been sealed, the two blobs written to NV
  (\<open>seal_blobs\<close> returned without error) and the snapshot of the registers saved, a
  failure of the backup rotation, of the removal of the old copies or of the seal-success
  copy is what \<^verbatim>\<open>SealDiskKey\<close> returns, wrapped in the message of its step: the seal
  operation fails. The sealed blobs stay in NV as they were written, whatever the archive
  steps do.
\<close>

theorem archival_failure_fails_seal:
  assumes blobs: "seal_blobs key pcrSel w = (None, w6)"
    and snap: "saveDiskKeySealingPCRs (TpmSavedDiskSealingPcrs w6) w6 = (None, w7)"
  shows
    "(\<forall>e w8. backupCopiedMeasurementLogs w7 = (Some e, w8) \<longrightarrow>
        SealDiskKey key pcrSel w =
          (Some (ErrWrap ''collecting previous snapshot of TPM event log failed'' e), w8)) \<and>
     (\<forall>e w8 w9. backupCopiedMeasurementLogs w7 = (None, w8) \<and>
        removeCopiedMeasurementLogs w8 = (Some e, w9) \<longrightarrow>
        SealDiskKey key pcrSel w =
          (Some (ErrWrap ''removing old copies of TPM measurement log failed'' e), w9)) \<and>
     (\<forall>e w8 w9 w10. backupCopiedMeasurementLogs w7 = (None, w8) \<and>
        removeCopiedMeasurementLogs w8 = (None, w9) \<and>
        copyMeasurementLog (MeasurementLogSealSuccess w9) w9 = (Some e, w10) \<longrightarrow>
        SealDiskKey key pcrSel w =
          (Some (ErrWrap ''copying current TPM measurement log failed'' e), w10)) \<and>
     (\<forall>r w'. SealDiskKey key pcrSel w = (r, w') \<longrightarrow>
        nv w' = nv w6 \<and> nv w' TpmSealedDiskPrivHdl = Some (length key, Some key))"
proof (intro conjI allI impI)
  fix e w8 assume "backupCopiedMeasurementLogs w7 = (Some e, w8)"
  then show "SealDiskKey key pcrSel w =
      (Some (ErrWrap ''collecting previous snapshot of TPM event log failed'' e), w8)"
    by (simp add: SealDiskKey_phases blobs seal_archive_def snap)
next
  fix e w8 w9
  assume "backupCopiedMeasurementLogs w7 = (None, w8) \<and>
        removeCopiedMeasurementLogs w8 = (Some e, w9)"
  then show "SealDiskKey key pcrSel w =
      (Some (ErrWrap ''removing old copies of TPM measurement log failed'' e), w9)"
    by (simp add: SealDiskKey_phases blobs seal_archive_def snap)
next
  fix e w8 w9 w10
  assume "backupCopiedMeasurementLogs w7 = (None, w8) \<and>
        removeCopiedMeasurementLogs w8 = (None, w9) \<and>
        copyMeasurementLog (MeasurementLogSealSuccess w9) w9 = (Some e, w10)"
  then show "SealDiskKey key pcrSel w =
      (Some (ErrWrap ''copying current TPM measurement log failed'' e), w10)"
    by (simp add: SealDiskKey_phases blobs seal_archive_def snap)
next
  fix r w' assume s: "SealDiskKey key pcrSel w = (r, w')"
  from SealDiskKey_after_blobs(2) [OF blobs s] show "nv w' = nv w6" .
  from SealDiskKey_after_blobs(3) [OF blobs s]
  show "nv w' TpmSealedDiskPrivHdl = Some (length key, Some key)" .
qed

lemma archive_fail_blobs:
  "fst (seal_blobs demo_key DiskKeySealingPCRs archive_fail_world) = None"
  by (simp add: seal_blobs_def eval_defs archive_fail_world_def demo_world_def demo_key_def)

lemma archive_fail_snapshot:
  "fst (saveDiskKeySealingPCRs
         (TpmSavedDiskSealingPcrs (snd (seal_blobs demo_key DiskKeySealingPCRs archive_fail_world)))
         (snd (seal_blobs demo_key DiskKeySealingPCRs archive_fail_world))) = None"
  by (simp add: seal_blobs_def eval_defs archive_fail_world_def demo_world_def demo_key_def)

lemma archive_fail_seal:
  "fst (SealDiskKey demo_key DiskKeySealingPCRs archive_fail_world) =
     Some (ErrWrap ''copying current TPM measurement log failed''
            (ErrCount ''failed to copy %d number of stored measurement log files'' 1))"
  by (simp add: SealDiskKey_def eval_defs archive_fail_world_def demo_world_def demo_key_def)

theorem archival_failure_fails_seal_witness:
  "seal_blobs demo_key DiskKeySealingPCRs archive_fail_world =
     (None, snd (seal_blobs demo_key DiskKeySealingPCRs archive_fail_world)) \<and>
   fst (saveDiskKeySealingPCRs
         (TpmSavedDiskSealingPcrs (snd (seal_blobs demo_key DiskKeySealingPCRs archive_fail_world)))
         (snd (seal_blobs demo_key DiskKeySealingPCRs archive_fail_world))) = None \<and>
   fst (SealDiskKey demo_key DiskKeySealingPCRs archive_fail_world) =
     Some (ErrWrap ''copying current TPM measurement log failed''
            (ErrCount ''failed to copy %d number of stored measurement log files'' 1)) \<and>
   nv (snd (SealDiskKey demo_key DiskKeySealingPCRs archive_fail_world)) TpmSealedDiskPrivHdl =
     Some (32, Some demo_key)"
proof -
  let ?w6 = "snd (seal_blobs demo_key DiskKeySealingPCRs archive_fail_world)"
  let ?w7 = "snd (saveDiskKeySealingPCRs (TpmSavedDiskSealingPcrs ?w6) ?w6)"
  have b: "seal_blobs demo_key DiskKeySealingPCRs archive_fail_world = (None, ?w6)"
    using archive_fail_blobs by (simp add: prod_eq_iff)
  have s: "saveDiskKeySealingPCRs (TpmSavedDiskSealingPcrs ?w6) ?w6 = (None, ?w7)"
    using archive_fail_snapshot by (simp add: prod_eq_iff)
  have l: "length demo_key = 32" by (simp add: demo_key_def)
  from archival_failure_fails_seal [OF b s]
  have "nv (snd (SealDiskKey demo_key DiskKeySealingPCRs archive_fail_world))
          TpmSealedDiskPrivHdl = Some (length demo_key, Some demo_key)"
    by (metis prod.collapse)
  with b archive_fail_snapshot archive_fail_seal l show ?thesis by simp
qed

text \<open>
  C2, as stated, fails: on a device where the seal-success copy of the log cannot be
  written, \<^verbatim>\<open>SealDiskKey\<close> returns the archival failure as its error, although the secret
  is sealed, the blobs are in NV and \<^verbatim>\<open>UnsealDiskKey\<close> returns the secret from them.
\<close>

theorem archival_failure_counterexample:
  "fst (SealDiskKey demo_key DiskKeySealingPCRs archive_fail_world) =
     Some (ErrWrap ''copying current TPM measurement log failed''
            (ErrCount ''failed to copy %d number of stored measurement log files'' 1)) \<and>
   nv (snd (SealDiskKey demo_key DiskKeySealingPCRs archive_fail_world)) TpmSealedDiskPrivHdl =
     Some (32, Some demo_key) \<and>
   fst (UnsealDiskKey DiskKeySealingPCRs
         (snd (SealDiskKey demo_key DiskKeySealingPCRs archive_fail_world))) = Inr demo_key"
proof -
  let ?w6 = "snd (seal_blobs demo_key DiskKeySealingPCRs archive_fail_world)"
  let ?S = "SealDiskKey demo_key DiskKeySealingPCRs archive_fail_world"
  have b: "seal_blobs demo_key DiskKeySealingPCRs archive_fail_world = (None, ?w6)"
    using archive_fail_blobs by (simp add: prod_eq_iff)
  have s: "?S = (fst ?S, snd ?S)" by simp
  have l: "length demo_key = 32" by (simp add: demo_key_def)
  have n: "nv (snd ?S) TpmSealedDiskPrivHdl = Some (32, Some demo_key)"
    using SealDiskKey_after_blobs(3) [OF b s] l by simp
  have "unsealable DiskKeySealingPCRs (snd ?S) demo_key"
    by (rule SealDiskKey_after_blobs(4) [OF b s])
      (simp add: archive_fail_world_def demo_world_def)
  then have "fst (UnsealDiskKey DiskKeySealingPCRs (snd ?S)) = Inr demo_key"
    by (rule unsealable_imp_UnsealDiskKey)
  with archive_fail_seal n show ?thesis by simp
qed

subsection \<open>The failure branch of the unseal\<close>

lemma same_device_readDiskKeySealingPCRs:
  assumes "same_device w w'"
  shows "readDiskKeySealingPCRs w' = readDiskKeySealingPCRs w"
proof -
  from assms have e: "tpm_present w' = tpm_present w"
    "tpm_fault w' = tpm_fault w" "pcr w' = pcr w"
    by (simp_all add: same_device_def)
  have r: "\<And>i alg. ReadPCR w' i alg = ReadPCR w i alg"
    by (auto simp: ReadPCR_def e split: option.splits)
  have "\<And>vs acc. read_loop w' vs acc = read_loop w vs acc"
  proof -
    fix vs acc show "read_loop w' vs acc = read_loop w vs acc"
      by (induction vs arbitrary: acc) (simp_all add: r split: sum.splits)
  qed
  then show ?thesis by (simp add: readDiskKeySealingPCRs_def OpenTPM_def e)
qed

lemma findMismatchingPCRs_cong:
  assumes "same_device w w'" and "files w' p = files w p"
  shows "findMismatchingPCRs p w' = findMismatchingPCRs p w"
proof -
  from assms have g: "gob_Decode_file w' p = gob_Decode_file w p"
    by (auto simp: gob_Decode_file_def same_device_def split: option.splits)
  have r: "readDiskKeySealingPCRs w' = readDiskKeySealingPCRs w"
    by (rule same_device_readDiskKeySealingPCRs [OF assms(1)])
  show ?thesis unfolding findMismatchingPCRs_def g r ..
qed

lemma findMismatchingPCRs_sorted: "findMismatchingPCRs p w = Inr m \<Longrightarrow> sorted m"
  by (auto simp: findMismatchingPCRs_def split: sum.splits)

lemma copyMeasurementLog_unseal_keeps_snapshot:
  "files (snd (copyMeasurementLog (MeasurementLogUnsealFail w) w)) (TpmSavedDiskSealingPcrs w) =
     files w (TpmSavedDiskSealingPcrs w)"
proof -
  have "\<forall>j. TpmEvtLogSavePattern (MeasurementLogUnsealFail w) j \<noteq> TpmSavedDiskSealingPcrs w"
    by (metis snapshot_path_differs(2))
  from copy_loop_other [OF this] show ?thesis
    by (auto simp: copyMeasurementLog_def split: sum.splits prod.splits) (metis snd_conv)+
qed

text \<open>
  C3. For every selection: let \<^verbatim>\<open>UnsealDiskKey\<close> have read the two blobs, loaded the
  object and opened the policy session, and let the unseal primitive fail with the error
  \<open>err\<close>. Then the measurement log is copied, with the outcome \<open>evtLogStat\<close> (\<open>None\<close> when
  copied, the error of the copy otherwise), and in both cases the mismatch search is run
  next, in the state \<open>w3\<close> the copy left. The function returns no key but the one error
  made of \<open>err\<close>, of \<open>evtLogStat\<close> and of the outcome of the search: the list of mismatching
  indices, which is sorted, or the error of the search. The copy and its failure do not
  change what the search finds: its outcome is that of the search on the snapshot and the
  registers as they were when the function was called.
\<close>

theorem unseal_failure_diagnosis:
  assumes present: "tpm_present w"
    and blobs: "NVReadEx w TpmSealedDiskPrivHdl = Inr priv"
      "NVReadEx w TpmSealedDiskPubHdl = Inr pub"
    and load: "tpm2_Load TpmSRKHdl pub priv w = (Inr obj, w1)"
    and session: "PolicyPCRSession pcrSel w1 = (Inr (session, policy), w2)"
    and unseal_fails: "UnsealWithSession w2 session obj = Inl err"
    and copy: "copyMeasurementLog (MeasurementLogUnsealFail w2) w2 = (evtLogStat, w3)"
  shows "fst (UnsealDiskKey pcrSel w) =
           Inl (ErrUnseal err evtLogStat (findMismatchingPCRs (TpmSavedDiskSealingPcrs w3) w3)) \<and>
         findMismatchingPCRs (TpmSavedDiskSealingPcrs w3) w3 =
           findMismatchingPCRs (TpmSavedDiskSealingPcrs w) w \<and>
         (\<forall>m. findMismatchingPCRs (TpmSavedDiskSealingPcrs w3) w3 = Inr m \<longrightarrow> sorted m)"
proof (intro conjI allI impI)
  show "fst (UnsealDiskKey pcrSel w) =
      Inl (ErrUnseal err evtLogStat (findMismatchingPCRs (TpmSavedDiskSealingPcrs w3) w3))"
    using present blobs load session unseal_fails copy
    by (simp add: UnsealDiskKey_def OpenTPM_def split: sum.splits)
  have o1: "only_tpm w w1" using tpm2_Load_frame(1) [of w TpmSRKHdl pub priv] load by simp
  have o2: "only_tpm w1 w2" using PolicyPCRSession_frame(1) [of w1 pcrSel] session by simp
  have o: "only_tpm w w2" using o1 o2 by (rule only_tpm_trans)
  have o3: "only_files w2 w3"
    using copyMeasurementLog_only_files [of w2 "MeasurementLogUnsealFail w2"] copy by simp
  have sd2: "same_device w w2" using o by (rule only_tpm_D)
  have sd3: "same_device w2 w3" using o3 by (rule only_files_D)
  have sd: "same_device w w3" using sd2 sd3 by (rule same_device_trans)
  have p2: "TpmSavedDiskSealingPcrs w2 = TpmSavedDiskSealingPcrs w"
    by (rule same_device_paths [OF sd2])
  have p3: "TpmSavedDiskSealingPcrs w3 = TpmSavedDiskSealingPcrs w"
    by (rule same_device_paths [OF sd])
  have f2: "files w2 = files w" using o by (rule only_tpm_D)
  have f3: "files w3 (TpmSavedDiskSealingPcrs w) = files w (TpmSavedDiskSealingPcrs w)"
    using copyMeasurementLog_unseal_keeps_snapshot [of w2] copy p2 f2 by simp
  show "findMismatchingPCRs (TpmSavedDiskSealingPcrs w3) w3 =
      findMismatchingPCRs (TpmSavedDiskSealingPcrs w) w"
    unfolding p3 using sd f3 by (rule findMismatchingPCRs_cong)
next
  fix m assume "findMismatchingPCRs (TpmSavedDiskSealingPcrs w3) w3 = Inr m"
  then show "sorted m" by (rule findMismatchingPCRs_sorted)
qed

lemma locked_blobs:
  "NVReadEx locked_world TpmSealedDiskPrivHdl = Inr demo_key"
  "NVReadEx locked_world TpmSealedDiskPubHdl = Inr [0xBE, 0xEF]"
  by (simp_all add: eval_defs locked_world_def tampered_world_def demo_world_def demo_key_def)

lemma locked_load:
  "tpm2_Load TpmSRKHdl [0xBE, 0xEF] demo_key locked_world = (Inr 0x80000000, locked_loaded)"
  by (simp add: prod_eq_iff locked_loaded_def)
     (simp add: eval_defs locked_world_def tampered_world_def demo_world_def)

lemma locked_policy:
  "PolicyPCRSession DiskKeySealingPCRs locked_loaded =
     (Inr (0x80000001, demo_policy), locked_session)"
  by (simp add: prod_eq_iff locked_session_def)
     (simp add: eval_defs locked_loaded_def locked_world_def tampered_world_def demo_world_def
       demo_policy_def DiskKeySealingPCRs_def)

lemma locked_unseal:
  "UnsealWithSession locked_session 0x80000001 0x80000000 = Inl (ErrTpm RCPolicyFail)"
  by (simp add: eval_defs locked_session_def locked_loaded_def locked_world_def
      tampered_world_def demo_world_def demo_key_def DiskKeySealingPCRs_def)

lemma locked_copy:
  "copyMeasurementLog (MeasurementLogUnsealFail locked_session) locked_session =
     (None, locked_copied)"
  by (simp add: prod_eq_iff locked_copied_def)
     (simp add: eval_defs locked_session_def locked_loaded_def locked_world_def
       tampered_world_def demo_world_def DiskKeySealingPCRs_def)

lemma locked_mismatch:
  "findMismatchingPCRs (TpmSavedDiskSealingPcrs locked_world) locked_world = Inr [4, 7]"
proof -
  have d: "gob_Decode_file locked_world (TpmSavedDiskSealingPcrs locked_world) = Inr demo_snapshot"
    by (simp add: gob_Decode_file_def TpmSavedDiskSealingPcrs_def locked_world_def
        tampered_world_def demo_world_def)
  have l: "readDiskKeySealingPCRs locked_world =
     Inr (map (\<lambda>i. (i, [word_of_int i, 0xA5])) [0, 1, 2, 3, 4, 6, 7, 8, 9, 13, 14])"
    by (simp add: readDiskKeySealingPCRs_def OpenTPM_def DiskKeySealingPCRs_def ReadPCR_def
        locked_world_def tampered_world_def demo_world_def)
  show ?thesis by (simp add: findMismatchingPCRs_def d l demo_snapshot_def)
qed

theorem unseal_failure_diagnosis_witness:
  "tpm_present locked_world \<and>
   NVReadEx locked_world TpmSealedDiskPrivHdl = Inr demo_key \<and>
   NVReadEx locked_world TpmSealedDiskPubHdl = Inr [0xBE, 0xEF] \<and>
   tpm2_Load TpmSRKHdl [0xBE, 0xEF] demo_key locked_world = (Inr 0x80000000, locked_loaded) \<and>
   PolicyPCRSession DiskKeySealingPCRs locked_loaded =
     (Inr (0x80000001, demo_policy), locked_session) \<and>
   UnsealWithSession locked_session 0x80000001 0x80000000 = Inl (ErrTpm RCPolicyFail) \<and>
   copyMeasurementLog (MeasurementLogUnsealFail locked_session) locked_session =
     (None, locked_copied) \<and>
   fst (UnsealDiskKey DiskKeySealingPCRs locked_world) =
     Inl (ErrUnseal (ErrTpm RCPolicyFail) None (Inr [4, 7])) \<and>
   findMismatchingPCRs (TpmSavedDiskSealingPcrs locked_copied) locked_copied = Inr [4, 7] \<and>
   sorted [4, 7 :: int]"
proof -
  have p: "tpm_present locked_world"
    by (simp add: locked_world_def tampered_world_def demo_world_def)
  note t = unseal_failure_diagnosis [OF p locked_blobs locked_load locked_policy
      locked_unseal locked_copy]
  from t have m: "findMismatchingPCRs (TpmSavedDiskSealingPcrs locked_copied) locked_copied =
      Inr [4, 7]"
    by (simp only: locked_mismatch)
  from t have "fst (UnsealDiskKey DiskKeySealingPCRs locked_world) =
      Inl (ErrUnseal (ErrTpm RCPolicyFail) None (Inr [4, 7]))"
    by (simp only: locked_mismatch)
  moreover from t m have "sorted [4, 7 :: int]" by blast
  ultimately show ?thesis
    using p locked_blobs locked_load locked_policy locked_unseal locked_copy m
    by (intro conjI)
qed

end
